(* ===== verification/Prelude.thy ===== *)
theory Prelude
  imports Main "HOL-Library.Word"
begin

text \<open>
  Shared vocabulary of the development: bytes, big-endian 16-bit fields, results of
  fallible code, Go's slicing, and the fact collections the component theories use.
  A Go \<open>error\<close> return is the left side of a sum; a Go string is a HOL \<open>string\<close>, whose
  characters are bytes, as they are in Go.
\<close>

named_theorems flag_eval \<open>the flag parser and the flag source on literal arguments\<close>
named_theorems field_eval \<open>one field as the environment, the flags or a file give it\<close>

unbundle bit_operations_syntax

type_synonym byte = "8 word"
type_synonym bytes = "byte list"
type_synonym u16 = "16 word"
type_synonym duration = int \<comment> \<open>time.Duration: nanoseconds\<close>

section \<open>Big-endian 16-bit fields\<close>

text \<open>\<open>encoding/binary\<close>: \<open>BigEndian.Uint16\<close> and its inverse.\<close>

definition be16 :: "byte \<Rightarrow> byte \<Rightarrow> u16" where
  "be16 hi lo = (push_bit 8 (ucast hi)) OR ucast lo"

definition be16_bytes :: "u16 \<Rightarrow> bytes" where
  "be16_bytes w = [ucast (drop_bit 8 w), ucast w]"

lemma be16_be16_bytes [simp]: "be16 (ucast (drop_bit 8 w)) (ucast w) = w"
  by (rule bit_word_eqI)
     (auto simp: be16_def bit_simps)

lemma be16_hi [simp]: "ucast (drop_bit 8 (be16 hi lo)) = hi"
  by (rule bit_word_eqI) (auto simp: be16_def bit_simps dest: bit_imp_le_length)

lemma be16_lo [simp]: "ucast (be16 hi lo) = lo"
  by (rule bit_word_eqI) (auto simp: be16_def bit_simps dest: bit_imp_le_length)

lemma be16_bytes_be16 [simp]: "be16_bytes (be16 hi lo) = [hi, lo]"
  by (simp add: be16_bytes_def)

lemma length_be16_bytes [simp]: "length (be16_bytes w) = 2"
  by (simp add: be16_bytes_def)

lemma be16_inject [simp]: "be16 a b = be16 c d \<longleftrightarrow> a = c \<and> b = d"
  by (metis be16_hi be16_lo)

section \<open>Slices\<close>

text \<open>Go's \<open>xs[i:j]\<close> for \<open>i \<le> j \<le> len(xs)\<close>; every use below is under that guard.\<close>

definition slice :: "nat \<Rightarrow> nat \<Rightarrow> 'a list \<Rightarrow> 'a list" where
  "slice i j xs = take (j - i) (drop i xs)"

lemma length_slice [simp]: "j \<le> length xs \<Longrightarrow> length (slice i j xs) = j - i"
  by (simp add: slice_def)

lemma slice_append_left: "i = length xs \<Longrightarrow> j = i + length ys \<Longrightarrow> slice i j (xs @ ys @ zs) = ys"
  by (simp add: slice_def)

lemma length_4_conv: "length xs = 4 \<longleftrightarrow> (\<exists>a b c d. xs = [a, b, c, d])"
  by (auto simp: length_Suc_conv numeral_eq_Suc)

section \<open>Fallible code\<close>

text \<open>Sequencing of Go's \<open>if err != nil { return err }\<close>.\<close>

definition bindE :: "'e + 'a \<Rightarrow> ('a \<Rightarrow> 'e + 'b) \<Rightarrow> 'e + 'b" where
  "bindE r f = (case r of Inl e \<Rightarrow> Inl e | Inr x \<Rightarrow> f x)"

lemma bindE_simps [simp]:
  "bindE (Inl e) f = Inl e"
  "bindE (Inr x) f = f x"
  by (simp_all add: bindE_def)

lemma bindE_eq_Inr [simp]: "bindE r f = Inr y \<longleftrightarrow> (\<exists>x. r = Inr x \<and> f x = Inr y)"
  by (cases r) auto

text \<open>
  A list of steps run in order, stopped by the first error: the shape of Go code that
  performs one update after the other and returns early when one of them fails.
\<close>

fun run_steps :: "('s \<Rightarrow> 'e + 's) list \<Rightarrow> 's \<Rightarrow> 'e + 's" where
  "run_steps [] s = Inr s"
| "run_steps (f # fs) s = bindE (f s) (run_steps fs)"

lemma run_steps_append: "run_steps (fs @ gs) s = bindE (run_steps fs s) (run_steps gs)"
  by (induction fs arbitrary: s) (auto simp: bindE_def split: sum.splits)

lemma run_steps_invariant:
  assumes "run_steps fs s = Inr t" and "P s"
    and "\<And>f x y. f \<in> set fs \<Longrightarrow> P x \<Longrightarrow> f x = Inr y \<Longrightarrow> P y"
  shows "P t"
  using assms by (induction fs arbitrary: s) auto

section \<open>Lists and strings\<close>

lemma replicate_numeral: "replicate (numeral k) x = x # replicate (pred_numeral k) x"
  by (simp add: numeral_eq_Suc)

definition has_prefix :: "'a list \<Rightarrow> 'a list \<Rightarrow> bool" where
  "has_prefix xs p \<longleftrightarrow> take (length p) xs = p"

lemma has_prefix_append [simp]: "has_prefix (p @ xs) p"
  by (simp add: has_prefix_def)

text \<open>\<open>strings.Cut\<close> and \<open>strings.IndexByte\<close>: the text before and after the first
  occurrence of a byte.\<close>

fun cut_at :: "'a \<Rightarrow> 'a list \<Rightarrow> ('a list \<times> 'a list) option" where
  "cut_at c [] = None"
| "cut_at c (x # xs) =
     (if x = c then Some ([], xs)
      else map_option (\<lambda>(a, b). (x # a, b)) (cut_at c xs))"

lemma cut_at_Some_append: "cut_at c xs = Some (a, b) \<Longrightarrow> xs = a @ c # b \<and> c \<notin> set a"
  by (induction xs arbitrary: a) (auto split: if_splits)

lemma cut_at_None_iff: "cut_at c xs = None \<longleftrightarrow> c \<notin> set xs"
  by (induction xs) auto

lemma cut_at_append: "c \<notin> set a \<Longrightarrow> cut_at c (a @ c # b) = Some (a, b)"
  by (induction a) auto

end
