(* ===== verification/Go_Net.thy ===== *)
theory Go_Net
  imports Prelude
begin

text \<open>
  The part of Go's \<open>net\<close> and \<open>net/netip\<close> packages the program relies on: addresses as
  byte slices that may be nil, their 4- and 16-byte forms, networks with masks,
  membership, and the parsers behind \<open>ParseIP\<close> and \<open>ParseCIDR\<close>.
\<close>

section \<open>IP addresses\<close>

text \<open>\<open>net.IP\<close> is a byte slice; \<open>None\<close> is the nil slice, which has length 0.\<close>

type_synonym ip = "bytes option"

definition ip_bytes :: "ip \<Rightarrow> bytes" where
  "ip_bytes p = (case p of None \<Rightarrow> [] | Some bs \<Rightarrow> bs)"

definition v4_in_v6_prefix :: bytes where
  "v4_in_v6_prefix = replicate 10 0 @ [0xff, 0xff]"

definition To4 :: "ip \<Rightarrow> ip" where
  "To4 p =
     (let bs = ip_bytes p in
      if length bs = 4 then Some bs
      else if length bs = 16 \<and> take 12 bs = v4_in_v6_prefix then Some (drop 12 bs)
      else None)"

definition To16 :: "ip \<Rightarrow> ip" where
  "To16 p =
     (let bs = ip_bytes p in
      if length bs = 4 then Some (v4_in_v6_prefix @ bs)
      else if length bs = 16 then Some bs
      else None)"

definition IPv4zero :: ip where
  "IPv4zero = Some (v4_in_v6_prefix @ [0, 0, 0, 0])"

lemma ip_bytes_simps [simp]:
  "ip_bytes None = []"
  "ip_bytes (Some bs) = bs"
  by (simp_all add: ip_bytes_def)

lemma length_v4_in_v6_prefix [simp]: "length v4_in_v6_prefix = 12"
  by (simp add: v4_in_v6_prefix_def)

lemma To4_nil [simp]: "To4 None = None"
  by (simp add: To4_def)

lemma To4_v4 [simp]: "length bs = 4 \<Longrightarrow> To4 (Some bs) = Some bs"
  by (simp add: To4_def)

lemma To4_mapped [simp]: "length bs = 4 \<Longrightarrow> To4 (Some (v4_in_v6_prefix @ bs)) = Some bs"
  by (simp add: To4_def Let_def)

lemma To4_IPv4zero [simp]: "To4 IPv4zero = Some [0, 0, 0, 0]"
  by (simp add: IPv4zero_def)

lemma To4_length: "To4 p = Some bs \<Longrightarrow> length bs = 4"
  by (auto simp: To4_def Let_def split: if_splits)

lemma To4_idem: "To4 p = Some bs \<Longrightarrow> To4 (Some bs) = Some bs"
  by (simp add: To4_length)

lemma To16_nil [simp]: "To16 None = None"
  by (simp add: To16_def)

lemma To16_length: "To16 p = Some bs \<Longrightarrow> length bs = 16"
  by (auto simp: To16_def Let_def split: if_splits)

lemma To16_To4: "To4 p = Some bs \<Longrightarrow> To16 p = Some (v4_in_v6_prefix @ bs)"
  by (auto simp: To4_def To16_def Let_def split: if_splits)
     (metis append_take_drop_id)

lemma To16_Some_iff: "To16 p \<noteq> None \<longleftrightarrow> length (ip_bytes p) \<in> {4, 16}"
  by (auto simp: To16_def Let_def)

lemma To4_To16: "To16 p = Some bs \<Longrightarrow> To4 (Some bs) = To4 p"
  by (auto simp: To4_def To16_def Let_def split: if_splits)

section \<open>Networks\<close>

text \<open>\<open>net.IPNet\<close>: the network number and the mask, both byte slices.\<close>

record ipnet =
  NetIP :: ip
  NetMask :: bytes

definition mask_byte :: "nat \<Rightarrow> byte" where
  "mask_byte n = (if 8 \<le> n then 0xff else NOT (drop_bit n 0xff))"

text \<open>\<open>net.CIDRMask(ones, bits)\<close> for \<open>bits\<close> 32 or 128 and \<open>ones \<le> bits\<close>.\<close>

definition CIDRMask :: "nat \<Rightarrow> nat \<Rightarrow> bytes" where
  "CIDRMask ones bits = map (\<lambda>i. mask_byte (ones - 8 * i)) [0..<bits div 8]"

definition and_bytes :: "bytes \<Rightarrow> bytes \<Rightarrow> bytes" where
  "and_bytes xs ys = map2 (AND) xs ys"

text \<open>\<open>(net.IP).Mask\<close>\<close>

definition ip_mask :: "ip \<Rightarrow> bytes \<Rightarrow> ip" where
  "ip_mask p m =
     (let bs = ip_bytes p;
          m' = (if length m = 16 \<and> length bs = 4 \<and> take 12 m = replicate 12 0xff
                then drop 12 m else m);
          bs' = (if length m' = 4 \<and> length bs = 16 \<and> take 12 bs = v4_in_v6_prefix
                 then drop 12 bs else bs)
      in if length bs' \<noteq> length m' then None else Some (and_bytes bs' m'))"

text \<open>\<open>networkNumberAndMask\<close>, the helper of \<open>Contains\<close>.\<close>

definition networkNumberAndMask :: "ipnet \<Rightarrow> bytes \<times> bytes" where
  "networkNumberAndMask n =
     (let ipb = (case To4 (NetIP n) of Some b \<Rightarrow> b | None \<Rightarrow> ip_bytes (NetIP n));
          m = NetMask n
      in if To4 (NetIP n) = None \<and> length ipb \<noteq> 16 then ([], [])
         else if length m = 4 then (if length ipb \<noteq> 4 then ([], []) else (ipb, m))
         else if length m = 16 then (if length ipb = 4 then (ipb, drop 12 m) else (ipb, m))
         else ([], []))"

text \<open>\<open>(*net.IPNet).Contains\<close>\<close>

definition Contains :: "ipnet \<Rightarrow> ip \<Rightarrow> bool" where
  "Contains n p =
     (let (nn, m) = networkNumberAndMask n;
          bs = (case To4 p of Some b \<Rightarrow> b | None \<Rightarrow> ip_bytes p)
      in length bs = length nn \<and> and_bytes nn m = and_bytes bs m)"

lemma length_CIDRMask [simp]: "length (CIDRMask n b) = b div 8"
  by (simp add: CIDRMask_def)

lemma length_and_bytes [simp]: "length (and_bytes xs ys) = min (length xs) (length ys)"
  by (simp add: and_bytes_def)

lemma and_bytes_idem: "and_bytes (and_bytes xs m) m = and_bytes xs m"
  by (rule nth_equalityI) (auto simp: and_bytes_def and.assoc)

lemma CIDRMask_full: "8 dvd b \<Longrightarrow> CIDRMask b b = replicate (b div 8) 0xff"
  by (rule nth_equalityI) (auto simp: CIDRMask_def mask_byte_def elim!: dvdE)

lemma byte_and_full [simp]: "x AND 0xff = (x :: byte)"
proof -
  have "(0xff :: byte) = - 1" by simp
  then show ?thesis by (simp only: and.right_neutral)
qed

lemma and_bytes_full: "length xs = n \<Longrightarrow> and_bytes xs (replicate n 0xff) = xs"
  by (rule nth_equalityI) (auto simp: and_bytes_def)

text \<open>Membership depends on an address only through its canonical bytes, so a client seen
  in 4-byte or in \<open>::ffff:\<close> form is the same client.\<close>

lemma Contains_To16: "To16 p = Some bs \<Longrightarrow> Contains n (Some bs) = Contains n p"
proof -
  assume p: "To16 p = Some bs"
  show ?thesis
  proof (cases "To4 p")
    case None
    with p have "ip_bytes p = bs"
      by (auto simp: To16_def To4_def Let_def split: if_splits)
    with None p show ?thesis
      using To4_To16 [OF p] by (simp add: Contains_def)
  next
    case (Some b)
    then show ?thesis
      using To4_To16 [OF p] by (simp add: Contains_def)
  qed
qed

text \<open>A host mask makes a network of one address.\<close>

lemma Contains_host4:
  assumes "length b = 4"
  shows "Contains \<lparr>NetIP = Some b, NetMask = CIDRMask 32 32\<rparr> p \<longleftrightarrow> To4 p = Some b"
proof (cases "To4 p")
  case None
  then have "length (ip_bytes p) \<noteq> 4"
    by (auto simp: To4_def Let_def)
  with None assms show ?thesis
    by (simp add: Contains_def networkNumberAndMask_def)
next
  case (Some q)
  with assms show ?thesis
    by (auto simp: Contains_def networkNumberAndMask_def CIDRMask_full and_bytes_full
        To4_length)
qed

lemma Contains_host6:
  assumes "length b = 16" and "To4 (Some b) = None"
  shows "Contains \<lparr>NetIP = Some b, NetMask = CIDRMask 128 128\<rparr> p \<longleftrightarrow> p = Some b"
proof (cases "To4 p")
  case None
  with assms show ?thesis
    by (cases p) (auto simp: Contains_def networkNumberAndMask_def CIDRMask_full and_bytes_full)
next
  case (Some q)
  with assms show ?thesis
    by (auto simp: Contains_def networkNumberAndMask_def dest: To4_length)
qed

end
