(* ===== verification/Go_ParseIP.thy ===== *)
theory Go_ParseIP
  imports Go_Net
begin

text \<open>
  The address parsers of Go's standard library that the trust configuration goes through:
  \<open>netip.ParseAddr\<close> (dotted IPv4 and IPv6 with \<open>::\<close>, an embedded IPv4 tail and a zone),
  \<open>net.ParseIP\<close> and \<open>net.ParseCIDR\<close>.
\<close>

section \<open>Dotted IPv4\<close>

definition is_digit :: "char \<Rightarrow> bool" where
  "is_digit c \<longleftrightarrow> 48 \<le> (of_char c :: nat) \<and> (of_char c :: nat) \<le> 57"

definition digit_val :: "char \<Rightarrow> nat" where
  "digit_val c = of_char c - 48"

text \<open>
  \<open>parseIPv4Fields\<close>: one pass over the characters with the value and the digit count of
  the current field and the fields read so far. \<open>None\<close> is any of its errors. The check of
  a dot at the start, at the end or after another dot is \<open>digLen = 0\<close> here for the first
  and the last of these, and the final field's emptiness for a dot at the end.
\<close>

fun v4_fields :: "string \<Rightarrow> nat \<Rightarrow> nat \<Rightarrow> bytes \<Rightarrow> bytes option" where
  "v4_fields [] val digLen fs =
     (if length fs < 3 then None else Some (fs @ [of_nat val]))"
| "v4_fields (c # cs) val digLen fs =
     (if is_digit c then
        (if digLen = 1 \<and> val = 0 then None
         else let v = val * 10 + digit_val c
              in if v > 255 then None else v4_fields cs v (Suc digLen) fs)
      else if c = CHR ''.'' then
        (if digLen = 0 \<or> cs = [] then None
         else if length fs = 3 then None
         else v4_fields cs 0 0 (fs @ [of_nat val]))
      else None)"

definition parseIPv4Fields :: "string \<Rightarrow> bytes option" where
  "parseIPv4Fields s = v4_fields s 0 0 []"

lemma v4_fields_length: "v4_fields cs v d fs = Some bs \<Longrightarrow> length fs \<le> 3 \<Longrightarrow> length bs = 4"
  by (induction cs v d fs rule: v4_fields.induct) (auto simp: Let_def split: if_splits)

lemma parseIPv4Fields_length: "parseIPv4Fields s = Some bs \<Longrightarrow> length bs = 4"
  by (simp add: parseIPv4Fields_def v4_fields_length)

section \<open>IPv6\<close>

definition hex_val :: "char \<Rightarrow> nat option" where
  "hex_val c =
     (let n = of_char c :: nat in
      if 48 \<le> n \<and> n \<le> 57 then Some (n - 48)
      else if 97 \<le> n \<and> n \<le> 102 then Some (n - 87)
      else if 65 \<le> n \<and> n \<le> 70 then Some (n - 55)
      else None)"

text \<open>The inner loop: hex digits of one group (an error after the fourth), the digits read,
  the value and the rest. Four hex digits never exceed the 16-bit bound the code also checks.\<close>

fun hex_group :: "string \<Rightarrow> nat \<Rightarrow> nat \<Rightarrow> (nat \<times> nat \<times> string) option" where
  "hex_group [] off acc = Some (off, acc, [])"
| "hex_group (c # cs) off acc =
     (case hex_val c of
        None \<Rightarrow> Some (off, acc, c # cs)
      | Some d \<Rightarrow> if off > 3 \<or> acc * 16 + d > 65535 then None
                  else hex_group cs (Suc off) (acc * 16 + d))"

text \<open>
  The outer loop of \<open>parseIPv6\<close>. \<open>groups\<close> counts the 16-bit groups that still fit
  (\<open>(16 - i) / 2\<close>), \<open>bs\<close> is \<open>ip[:i]\<close> and \<open>ell\<close> the position of the ellipsis. The
  result is the bytes, the ellipsis and the unread text.
\<close>

fun v6_loop :: "nat \<Rightarrow> string \<Rightarrow> bytes \<Rightarrow> nat option \<Rightarrow> (bytes \<times> nat option \<times> string) option" where
  "v6_loop 0 s bs ell = Some (bs, ell, s)"
| "v6_loop (Suc groups) s bs ell =
     (case hex_group s 0 0 of
        None \<Rightarrow> None
      | Some (off, acc, rest) \<Rightarrow>
          if off = 0 then None
          else if rest \<noteq> [] \<and> hd rest = CHR ''.'' then
            (if ell = None \<and> length bs \<noteq> 12 then None
             else if length bs + 4 > 16 then None
             else map_option (\<lambda>f. (bs @ f, ell, [])) (parseIPv4Fields s))
          else
            (let bs' = bs @ [of_nat (acc div 256), of_nat acc] in
             case rest of
               [] \<Rightarrow> Some (bs', ell, [])
             | c # rest1 \<Rightarrow>
                 if c \<noteq> CHR '':'' then None
                 else if rest1 = [] then None
                 else if hd rest1 = CHR '':'' then
                   (if ell \<noteq> None then None
                    else if tl rest1 = [] then Some (bs', Some (length bs'), [])
                    else v6_loop groups (tl rest1) bs' (Some (length bs')))
                 else v6_loop groups rest1 bs' ell))"

text \<open>The end of \<open>parseIPv6\<close>: all text used, the ellipsis expanded to 16 bytes.\<close>

definition v6_finish :: "bytes \<Rightarrow> nat option \<Rightarrow> string \<Rightarrow> bytes option" where
  "v6_finish bs ell s =
     (if s \<noteq> [] then None
      else if length bs < 16 then
        (case ell of
           None \<Rightarrow> None
         | Some e \<Rightarrow> Some (take e bs @ replicate (16 - length bs) 0 @ drop e bs))
      else if ell \<noteq> None then None
      else Some bs)"

definition v6_body :: "string \<Rightarrow> bytes option" where
  "v6_body s =
     (if has_prefix s ''::'' then
        (if drop 2 s = [] then Some (replicate 16 0)
         else case v6_loop 8 (drop 2 s) [] (Some 0) of
                None \<Rightarrow> None | Some (bs, ell, r) \<Rightarrow> v6_finish bs ell r)
      else case v6_loop 8 s [] None of
             None \<Rightarrow> None | Some (bs, ell, r) \<Rightarrow> v6_finish bs ell r)"

text \<open>\<open>netip.Addr\<close>: an IPv4 address of 4 bytes, or an IPv6 address of 16 bytes and a zone.\<close>

datatype netip_addr = Addr4 bytes | Addr6 bytes string

definition parseIPv6 :: "string \<Rightarrow> netip_addr option" where
  "parseIPv6 s =
     (case cut_at (CHR ''%'') s of
        None \<Rightarrow> map_option (\<lambda>bs. Addr6 bs []) (v6_body s)
      | Some (a, zone) \<Rightarrow>
          if zone = [] then None else map_option (\<lambda>bs. Addr6 bs zone) (v6_body a))"

fun first_sep :: "string \<Rightarrow> char option" where
  "first_sep [] = None"
| "first_sep (c # cs) = (if c \<in> {CHR ''.'', CHR '':'', CHR ''%''} then Some c else first_sep cs)"

definition ParseAddr :: "string \<Rightarrow> netip_addr option" where
  "ParseAddr s =
     (case first_sep s of
        None \<Rightarrow> None
      | Some c \<Rightarrow>
          if c = CHR ''.'' then map_option Addr4 (parseIPv4Fields s)
          else if c = CHR '':'' then parseIPv6 s
          else None)"

fun as16 :: "netip_addr \<Rightarrow> bytes" where
  "as16 (Addr4 bs) = v4_in_v6_prefix @ bs"
| "as16 (Addr6 bs z) = bs"

fun bit_len :: "netip_addr \<Rightarrow> nat" where
  "bit_len (Addr4 bs) = 32"
| "bit_len (Addr6 bs z) = 128"

fun zone_of :: "netip_addr \<Rightarrow> string" where
  "zone_of (Addr4 bs) = []"
| "zone_of (Addr6 bs z) = z"

section \<open>net.ParseIP and net.ParseCIDR\<close>

definition ParseIP :: "string \<Rightarrow> ip" where
  "ParseIP s =
     (case ParseAddr s of
        None \<Rightarrow> None
      | Some a \<Rightarrow> if zone_of a \<noteq> [] then None else Some (as16 a))"

text \<open>\<open>dtoi\<close>: a leading decimal number below \<open>0xFFFFFF\<close>, and the text after it.\<close>

fun dtoi_loop :: "string \<Rightarrow> nat \<Rightarrow> (nat \<times> string) option" where
  "dtoi_loop [] n = Some (n, [])"
| "dtoi_loop (c # cs) n =
     (if is_digit c then
        (let n' = n * 10 + digit_val c in if n' \<ge> 0xFFFFFF then None else dtoi_loop cs n')
      else Some (n, c # cs))"

definition dtoi :: "string \<Rightarrow> (nat \<times> string) option" where
  "dtoi s = (if s = [] \<or> \<not> is_digit (hd s) then None else dtoi_loop s 0)"

definition ParseCIDR :: "string \<Rightarrow> ipnet option" where
  "ParseCIDR s =
     (case cut_at (CHR ''/'') s of
        None \<Rightarrow> None
      | Some (addr, masktext) \<Rightarrow>
          (case ParseAddr addr of
             None \<Rightarrow> None
           | Some a \<Rightarrow>
               if zone_of a \<noteq> [] then None
               else (case dtoi masktext of
                       None \<Rightarrow> None
                     | Some (n, rest) \<Rightarrow>
                         if rest \<noteq> [] \<or> n > bit_len a then None
                         else let m = CIDRMask n (bit_len a)
                              in Some \<lparr>NetIP = ip_mask (Some (as16 a)) m, NetMask = m\<rparr>)))"

section \<open>Well-formedness of what the parsers return\<close>

definition ell_ok :: "nat option \<Rightarrow> bytes \<Rightarrow> bool" where
  "ell_ok ell bs = (case ell of None \<Rightarrow> True | Some e \<Rightarrow> e \<le> length bs)"

lemma ell_ok_simps [simp]:
  "ell_ok None bs"
  "ell_ok (Some e) bs \<longleftrightarrow> e \<le> length bs"
  by (simp_all add: ell_ok_def)

lemma ell_ok_append [simp]: "ell_ok ell bs \<Longrightarrow> ell_ok ell (bs @ cs)"
  by (simp add: ell_ok_def split: option.splits)

lemma v6_loop_length:
  "v6_loop g s bs ell = Some (bs', ell', r) \<Longrightarrow> length bs + 2 * g \<le> 16 \<Longrightarrow> ell_ok ell bs \<Longrightarrow>
   length bs' \<le> 16 \<and> ell_ok ell' bs'"
proof (induction g arbitrary: s bs ell)
  case (Suc groups)
  note IH = Suc.IH [THEN conjunct1] Suc.IH [THEN conjunct2]
  show ?case
    using Suc.prems
    by (auto simp: Let_def split: option.splits if_splits list.splits prod.splits
        dest: parseIPv4Fields_length IH)
qed simp

lemma v6_finish_length:
  "v6_finish bs ell r = Some out \<Longrightarrow> length bs \<le> 16 \<Longrightarrow> ell_ok ell bs \<Longrightarrow> length out = 16"
  by (auto simp: v6_finish_def split: if_splits option.splits)

lemma v6_body_length: "v6_body s = Some out \<Longrightarrow> length out = 16"
  by (auto simp: v6_body_def split: if_splits option.splits prod.splits
      dest!: v6_loop_length intro: v6_finish_length)

lemma ParseAddr_length:
  "ParseAddr s = Some a \<Longrightarrow> length (as16 a) = 16"
  by (auto simp: ParseAddr_def parseIPv6_def split: option.splits if_splits prod.splits
      dest: parseIPv4Fields_length v6_body_length)

lemma ParseIP_length: "ParseIP s = Some bs \<Longrightarrow> length bs = 16"
  by (auto simp: ParseIP_def split: option.splits if_splits dest: ParseAddr_length)


section \<open>Evaluation\<close>

text \<open>The equations that evaluate the parsers on concrete text.\<close>

lemmas v6_loop_numeral = v6_loop.simps(2) [of "pred_numeral k" for k, folded numeral_eq_Suc]

lemmas parse_eval =
  ParseIP_def ParseAddr_def parseIPv4Fields_def parseIPv6_def v6_body_def v6_finish_def
  v6_loop_numeral has_prefix_def hex_val_def is_digit_def digit_val_def dtoi_def Let_def

end
