(* ===== verification/Proxy_Proto.thy ===== *)
theory Proxy_Proto
  imports Go_ParseIP
begin

text \<open>
  \<open>internal/proxyproto\<close>, \<open>internal/transport\<close> and \<open>internal/protocol\<close>: the header a
  connection carries, where it came from, how it is built from a socket's addresses, and
  the per-address family check.
\<close>

section \<open>Data\<close>

datatype Protocol = TCP | UDP

fun Protocol_string :: "Protocol \<Rightarrow> string" where
  "Protocol_string TCP = ''tcp''"
| "Protocol_string UDP = ''udp''"

datatype Family = FamilyUnspec | FamilyTCP4 | FamilyTCP6 | FamilyUDP4 | FamilyUDP6

record TLV =
  TLVType :: byte
  TLVValue :: bytes

record Header =
  SrcIP :: ip
  DstIP :: ip
  SrcPort :: u16
  DstPort :: u16
  HFamily :: Family
  TLVs :: "TLV list"

definition zero_header :: Header where
  "zero_header = \<lparr>SrcIP = None, DstIP = None, SrcPort = 0, DstPort = 0,
                  HFamily = FamilyUnspec, TLVs = []\<rparr>"

datatype Source = SourceDirect | SourceV1 | SourceV2

fun Source_String :: "Source \<Rightarrow> string" where
  "Source_String SourceDirect = ''direct''"
| "Source_String SourceV1 = ''v1''"
| "Source_String SourceV2 = ''v2''"

text \<open>\<open>net.Addr\<close>: the two concrete types the program distinguishes, with their IP, port
  and zone; \<open>OtherAddr\<close> is any other type, or the nil interface.\<close>

datatype net_addr =
    TCPAddr (addr_ip: ip) (addr_port: int) (addr_zone: string)
  | UDPAddr (addr_ip: ip) (addr_port: int) (addr_zone: string)
  | OtherAddr

text \<open>\<open>transport.AddrConn\<close>: what a connection tells about its two ends.\<close>

record AddrConn =
  LocalAddr :: net_addr
  RemoteAddr :: net_addr

text \<open>\<open>transport.RemoteIP\<close>\<close>

definition RemoteIP :: "AddrConn \<Rightarrow> ip" where
  "RemoteIP c =
     (case RemoteAddr c of
        TCPAddr ip port zone \<Rightarrow> ip
      | UDPAddr ip port zone \<Rightarrow> ip
      | OtherAddr \<Rightarrow> None)"

section \<open>Headers from socket addresses\<close>

definition buildAddrHeader ::
    "ip \<Rightarrow> int \<Rightarrow> ip \<Rightarrow> int \<Rightarrow> Family \<Rightarrow> Family \<Rightarrow> Header" where
  "buildAddrHeader srcIP srcPort dstIP dstPort famV4 famV6 =
     (let h = zero_header\<lparr>SrcPort := word_of_int srcPort, DstPort := word_of_int dstPort\<rparr>
      in case To4 srcIP of
           Some v4 \<Rightarrow>
             h\<lparr>SrcIP := Some v4,
               DstIP := (case To4 dstIP of Some d4 \<Rightarrow> Some d4 | None \<Rightarrow> IPv4zero),
               HFamily := famV4\<rparr>
         | None \<Rightarrow>
             h\<lparr>SrcIP := srcIP, DstIP := dstIP, HFamily := famV6\<rparr>)"

fun HeaderFromAddrs :: "net_addr \<Rightarrow> net_addr \<Rightarrow> Header" where
  "HeaderFromAddrs (TCPAddr sip sport szone) (TCPAddr dip dport dzone) =
     buildAddrHeader sip sport dip dport FamilyTCP4 FamilyTCP6"
| "HeaderFromAddrs (UDPAddr sip sport szone) (UDPAddr dip dport dzone) =
     buildAddrHeader sip sport dip dport FamilyUDP4 FamilyUDP6"
| "HeaderFromAddrs _ _ = zero_header\<lparr>HFamily := FamilyUnspec\<rparr>"

definition HeaderFromConn :: "AddrConn \<Rightarrow> Header" where
  "HeaderFromConn c = HeaderFromAddrs (RemoteAddr c) (LocalAddr c)"

section \<open>The address-family check\<close>

definition FamilyMatchesAddrs :: "Header \<Rightarrow> bool" where
  "FamilyMatchesAddrs h =
     (case HFamily h of
        FamilyTCP4 \<Rightarrow>
          SrcIP h \<noteq> None \<and> DstIP h \<noteq> None \<and>
          To4 (SrcIP h) \<noteq> None \<and> To4 (DstIP h) \<noteq> None
      | FamilyTCP6 \<Rightarrow>
          SrcIP h \<noteq> None \<and> DstIP h \<noteq> None \<and>
          To4 (SrcIP h) = None \<and> To4 (DstIP h) = None \<and>
          To16 (SrcIP h) \<noteq> None \<and> To16 (DstIP h) \<noteq> None
      | FamilyUnspec \<Rightarrow> True
      | _ \<Rightarrow> False)"

text \<open>Whether an address is an IPv4 one in either of its byte forms, or an IPv6 one.\<close>

definition is_v4 :: "ip \<Rightarrow> bool" where
  "is_v4 p \<longleftrightarrow> To4 p \<noteq> None"

definition is_v6 :: "ip \<Rightarrow> bool" where
  "is_v6 p \<longleftrightarrow> To4 p = None \<and> To16 p \<noteq> None"

lemma zero_header_simps [simp]:
  "SrcIP zero_header = None" "DstIP zero_header = None"
  "SrcPort zero_header = 0" "DstPort zero_header = 0"
  "HFamily zero_header = FamilyUnspec" "TLVs zero_header = []"
  by (simp_all add: zero_header_def)

lemma is_v4_nil [simp]: "\<not> is_v4 None" and is_v6_nil [simp]: "\<not> is_v6 None"
  by (simp_all add: is_v4_def is_v6_def)

lemma is_v4_length4 [simp]: "length bs = 4 \<Longrightarrow> is_v4 (Some bs)"
  by (simp add: is_v4_def)

lemma is_v4_not_v6: "is_v4 p \<Longrightarrow> \<not> is_v6 p"
  by (simp add: is_v4_def is_v6_def)

lemma valid_ip_cases: "To16 p \<noteq> None \<longleftrightarrow> is_v4 p \<or> is_v6 p"
  by (cases "To4 p") (auto simp: is_v4_def is_v6_def dest: To16_To4)

lemma To_Some_not_nil: "To4 p = Some b \<Longrightarrow> \<exists>y. p = Some y" "To16 p = Some b \<Longrightarrow> \<exists>y. p = Some y"
  by (cases p; simp)+

lemma FamilyMatchesAddrs_simps:
  "HFamily h = FamilyTCP4 \<Longrightarrow> FamilyMatchesAddrs h \<longleftrightarrow> is_v4 (SrcIP h) \<and> is_v4 (DstIP h)"
  "HFamily h = FamilyTCP6 \<Longrightarrow> FamilyMatchesAddrs h \<longleftrightarrow> is_v6 (SrcIP h) \<and> is_v6 (DstIP h)"
  "HFamily h = FamilyUnspec \<Longrightarrow> FamilyMatchesAddrs h"
  "HFamily h = FamilyUDP4 \<Longrightarrow> \<not> FamilyMatchesAddrs h"
  "HFamily h = FamilyUDP6 \<Longrightarrow> \<not> FamilyMatchesAddrs h"
  by (auto simp: FamilyMatchesAddrs_def is_v4_def is_v6_def dest: To_Some_not_nil)

lemma buildAddrHeader_simps [simp]:
  "SrcPort (buildAddrHeader s sp d dp f4 f6) = word_of_int sp"
  "DstPort (buildAddrHeader s sp d dp f4 f6) = word_of_int dp"
  "TLVs (buildAddrHeader s sp d dp f4 f6) = []"
  "HFamily (buildAddrHeader s sp d dp f4 f6) = (if is_v4 s then f4 else f6)"
  "is_v4 s \<Longrightarrow> SrcIP (buildAddrHeader s sp d dp f4 f6) = To4 s"
  "\<not> is_v4 s \<Longrightarrow> SrcIP (buildAddrHeader s sp d dp f4 f6) = s"
  "is_v4 s \<Longrightarrow> DstIP (buildAddrHeader s sp d dp f4 f6) = (if is_v4 d then To4 d else IPv4zero)"
  "\<not> is_v4 s \<Longrightarrow> DstIP (buildAddrHeader s sp d dp f4 f6) = d"
  by (auto simp: buildAddrHeader_def Let_def is_v4_def split: option.splits)

lemma is_v4_To4 [simp]: "is_v4 (To4 p) \<longleftrightarrow> is_v4 p"
  by (cases "To4 p") (auto simp: is_v4_def dest: To4_idem)

lemma is_v4_IPv4zero [simp]: "is_v4 IPv4zero"
  by (simp add: is_v4_def)

text \<open>The destination of an IPv4 client's header always has an IPv4 form, whatever the
  listener's address is.\<close>

lemma buildAddrHeader_v4_dst:
  "is_v4 s \<Longrightarrow> is_v4 (DstIP (buildAddrHeader s sp d dp f4 f6))"
  by simp

text \<open>
  A header built from a TCP connection's own addresses passes the family check exactly
  when the client is IPv4 or both ends are IPv6: an IPv4 client behind a dual-stack
  wildcard listener is repaired (its destination becomes 0.0.0.0), and only an IPv6 client
  with an IPv4 local address, which no real socket has, fails.
\<close>

theorem direct_header_consistent:
  assumes "RemoteAddr c = TCPAddr sip sp sz" and "LocalAddr c = TCPAddr dip dp dz"
    and "To16 sip \<noteq> None"
  shows "FamilyMatchesAddrs (HeaderFromConn c) \<longleftrightarrow> is_v4 sip \<or> is_v6 dip"
proof (cases "is_v4 sip")
  case True
  with assms show ?thesis
    by (simp add: HeaderFromConn_def FamilyMatchesAddrs_simps)
next
  case False
  with assms(3) have "is_v6 sip"
    using valid_ip_cases by blast
  with False assms(1,2) show ?thesis
    by (simp add: HeaderFromConn_def FamilyMatchesAddrs_simps)
qed

theorem direct_header_consistent_witness:
  "FamilyMatchesAddrs (HeaderFromConn
     \<lparr>LocalAddr = TCPAddr (Some (replicate 16 0)) 9000 [],
      RemoteAddr = TCPAddr (Some [10, 0, 0, 7]) 40000 []\<rparr>)"
proof -
  let ?c = "\<lparr>LocalAddr = TCPAddr (Some (replicate 16 0)) 9000 [],
      RemoteAddr = TCPAddr (Some [10, 0, 0, 7]) 40000 []\<rparr>"
  have "To16 (Some [10, 0, 0, 7]) \<noteq> None" by (simp add: To16_def)
  then show ?thesis
    using direct_header_consistent [of ?c "Some [10, 0, 0, 7]" 40000 "[]"
        "Some (replicate 16 0)" 9000 "[]"]
    by simp
qed

end
