(* ===== verification/Datagram.thy ===== *)
theory Datagram
  imports Proxy_Proto
begin

text \<open>
  \<open>internal/proxyproto/goproxyproto/datagram.go\<close>: PROXY v2 headers in UDP datagrams. The
  parser is this repository's own code and is modelled byte for byte; the encoder hands
  the addresses to the library go-proxyproto, which is a parameter here.
\<close>

section \<open>Parsing\<close>

datatype dg_error =
    ErrV1NotSupported
  | ErrTooShort
  | ErrLengthExceeds
  | ErrVersion byte
  | ErrCommand byte
  | ErrFamily byte
  | ErrAddrLength
  | ErrFormat string

definition sigV2 :: bytes where
  "sigV2 = [0x0d, 0x0a, 0x0d, 0x0a, 0x00, 0x0d, 0x0a, 0x51, 0x55, 0x49, 0x54, 0x0a]"

text \<open>The six bytes of \<open>"PROXY "\<close>.\<close>

definition sigV1 :: bytes where
  "sigV1 = [0x50, 0x52, 0x4f, 0x58, 0x59, 0x20]"

definition parseV4Addrs :: "bytes \<Rightarrow> Family \<Rightarrow> Header" where
  "parseV4Addrs data fam =
     (if length data < 12 then zero_header\<lparr>HFamily := FamilyUnspec\<rparr>
      else zero_header\<lparr>
        SrcIP := Some (slice 0 4 data),
        DstIP := Some (slice 4 8 data),
        SrcPort := be16 (data ! 8) (data ! 9),
        DstPort := be16 (data ! 10) (data ! 11),
        HFamily := fam\<rparr>)"

definition parseV6Addrs :: "bytes \<Rightarrow> Family \<Rightarrow> Header" where
  "parseV6Addrs data fam =
     (if length data < 36 then zero_header\<lparr>HFamily := FamilyUnspec\<rparr>
      else zero_header\<lparr>
        SrcIP := Some (slice 0 16 data),
        DstIP := Some (slice 16 32 data),
        SrcPort := be16 (data ! 32) (data ! 33),
        DstPort := be16 (data ! 34) (data ! 35),
        HFamily := fam\<rparr>)"

text \<open>The switch on the family/transport byte; \<open>None\<close> is its default case.\<close>

definition parse_addrs :: "byte \<Rightarrow> bytes \<Rightarrow> Header option" where
  "parse_addrs famProto addrData =
     (if famProto = 0x11 then Some (parseV4Addrs addrData FamilyTCP4)
      else if famProto = 0x21 then Some (parseV6Addrs addrData FamilyTCP6)
      else if famProto = 0x12 then Some (parseV4Addrs addrData FamilyUDP4)
      else if famProto = 0x22 then Some (parseV6Addrs addrData FamilyUDP6)
      else None)"

definition parseV2 :: "bytes \<Rightarrow> dg_error + Header \<times> bytes \<times> Source" where
  "parseV2 data =
     (if length data < 12 + 4 then Inl ErrTooShort
      else
        let verCmd = data ! 12;
            famProto = data ! 13;
            addrLen = unat (be16 (data ! 14) (data ! 15));
            headerSize = 12 + 4 + addrLen
        in if headerSize > length data then Inl ErrLengthExceeds
           else if drop_bit 4 verCmd \<noteq> 2 then Inl (ErrVersion (drop_bit 4 verCmd))
           else if verCmd AND 0x0F \<noteq> 1 then Inl (ErrCommand (verCmd AND 0x0F))
           else case parse_addrs famProto (slice (12 + 4) headerSize data) of
                  None \<Rightarrow> Inl (ErrFamily famProto)
                | Some hdr \<Rightarrow>
                    if HFamily hdr = FamilyUnspec then Inl ErrAddrLength
                    else Inr (hdr, drop headerSize data, SourceV2))"

definition ParseDatagram :: "bytes \<Rightarrow> dg_error + Header \<times> bytes \<times> Source" where
  "ParseDatagram data =
     (if data = [] then Inr (zero_header, data, SourceDirect)
      else if data ! 0 = 0x0d then
        (if length data < length sigV2 \<or> take (length sigV2) data \<noteq> sigV2
         then Inr (zero_header, data, SourceDirect)
         else parseV2 data)
      else if data ! 0 = 0x50 \<and> length data \<ge> 6 \<and> take 6 data = sigV1
        then Inl ErrV1NotSupported
      else Inr (zero_header, data, SourceDirect))"

section \<open>Formatting\<close>

text \<open>\<open>addrsFromHeader\<close>: the pair of addresses handed to the library.\<close>

definition addrsFromHeader :: "Header \<Rightarrow> net_addr \<times> net_addr" where
  "addrsFromHeader hdr =
     (if HFamily hdr = FamilyUDP4 \<or> HFamily hdr = FamilyUDP6
      then (UDPAddr (SrcIP hdr) (uint (SrcPort hdr)) [],
            UDPAddr (DstIP hdr) (uint (DstPort hdr)) [])
      else (TCPAddr (SrcIP hdr) (uint (SrcPort hdr)) [],
            TCPAddr (DstIP hdr) (uint (DstPort hdr)) []))"

text \<open>
  \<open>fmt v src dst\<close> stands for the library's \<open>HeaderProxyFromAddrs(v, src, dst).Format()\<close>.
\<close>

type_synonym gop_format = "nat \<Rightarrow> net_addr \<Rightarrow> net_addr \<Rightarrow> string + bytes"

definition FormatDatagram :: "gop_format \<Rightarrow> Header \<Rightarrow> bytes \<Rightarrow> dg_error + bytes" where
  "FormatDatagram fmt hdr payload =
     (let (src, dst) = addrsFromHeader hdr in
      case fmt 2 src dst of
        Inl e \<Rightarrow> Inl (ErrFormat e)
      | Inr headerBytes \<Rightarrow> Inr (headerBytes @ payload))"

section \<open>The wire format\<close>

text \<open>
  The PROXY v2 frame of a header, written from the protocol: signature, version 2 with
  command PROXY, the family byte, the length, the addresses and ports, then any extension
  bytes (TLVs), which the length covers and the parser skips.
\<close>

fun fam_byte :: "Family \<Rightarrow> byte" where
  "fam_byte FamilyTCP4 = 0x11"
| "fam_byte FamilyTCP6 = 0x21"
| "fam_byte FamilyUDP4 = 0x12"
| "fam_byte FamilyUDP6 = 0x22"
| "fam_byte FamilyUnspec = 0x00"

fun addr_width :: "Family \<Rightarrow> nat" where
  "addr_width FamilyTCP4 = 4"
| "addr_width FamilyUDP4 = 4"
| "addr_width FamilyTCP6 = 16"
| "addr_width FamilyUDP6 = 16"
| "addr_width FamilyUnspec = 0"

definition addr_block :: "Header \<Rightarrow> bytes" where
  "addr_block h = ip_bytes (SrcIP h) @ ip_bytes (DstIP h)
                  @ be16_bytes (SrcPort h) @ be16_bytes (DstPort h)"

definition v2_frame :: "Header \<Rightarrow> bytes \<Rightarrow> bytes" where
  "v2_frame h ext =
     sigV2 @ [0x21, fam_byte (HFamily h)]
     @ be16_bytes (word_of_nat (length (addr_block h @ ext))) @ addr_block h @ ext"

text \<open>A header whose addresses have the width its family calls for.\<close>

definition wf_v2 :: "Header \<Rightarrow> bool" where
  "wf_v2 h \<longleftrightarrow>
     HFamily h \<noteq> FamilyUnspec \<and> TLVs h = [] \<and>
     (\<exists>s d. SrcIP h = Some s \<and> DstIP h = Some d \<and>
            length s = addr_width (HFamily h) \<and> length d = addr_width (HFamily h))"

lemma length_sigV2 [simp]: "length sigV2 = 12"
  by (simp add: sigV2_def)

lemma sigV2_hd [simp]: "(sigV2 @ xs) ! 0 = 0x0d"
  by (simp add: sigV2_def)

lemma sigV2_neq_Nil [simp]: "sigV2 \<noteq> []"
  by (simp add: sigV2_def)

lemma wf_v2_addr_block_length:
  "wf_v2 h \<Longrightarrow> length (addr_block h) = 2 * addr_width (HFamily h) + 4"
  by (auto simp: wf_v2_def addr_block_def)

text \<open>The address block read back: the two fixed layouts.\<close>

lemma parseV4_block:
  assumes "length s = 4" and "length d = 4"
  shows "parseV4Addrs (s @ d @ be16_bytes p @ be16_bytes q @ ext) fam =
         zero_header\<lparr>SrcIP := Some s, DstIP := Some d, SrcPort := p, DstPort := q, HFamily := fam\<rparr>"
  using assms by (auto simp: parseV4Addrs_def slice_def be16_bytes_def nth_append)

lemma parseV6_block:
  assumes "length s = 16" and "length d = 16"
  shows "parseV6Addrs (s @ d @ be16_bytes p @ be16_bytes q @ ext) fam =
         zero_header\<lparr>SrcIP := Some s, DstIP := Some d, SrcPort := p, DstPort := q, HFamily := fam\<rparr>"
  using assms by (auto simp: parseV6Addrs_def slice_def be16_bytes_def nth_append)

lemma header_eqI:
  "TLVs h = [] \<Longrightarrow>
   zero_header\<lparr>SrcIP := SrcIP h, DstIP := DstIP h, SrcPort := SrcPort h, DstPort := DstPort h,
               HFamily := HFamily h\<rparr> = (h :: Header)"
  by (cases h) (simp add: zero_header_def)

lemma parse_addrs_block:
  assumes "wf_v2 h"
  shows "parse_addrs (fam_byte (HFamily h)) (addr_block h @ ext) = Some h"
proof -
  from assms obtain s d where sd: "SrcIP h = Some s" "DstIP h = Some d"
    and len: "length s = addr_width (HFamily h)" "length d = addr_width (HFamily h)"
    and "TLVs h = []" "HFamily h \<noteq> FamilyUnspec"
    by (auto simp: wf_v2_def)
  from header_eqI [of h] this show ?thesis
    by (cases "HFamily h") (simp_all add: parse_addrs_def addr_block_def parseV4_block parseV6_block)
qed

section \<open>The parser accepts exactly the frames\<close>

lemma byte_split: "unat (w :: byte) = 16 * unat (drop_bit 4 w) + unat (w AND 0x0F)"
proof -
  have "(0x0F :: byte) = mask 4" by (simp add: mask_eq_exp_minus_1)
  then have "w AND 0x0F = take_bit 4 w" by (simp only: take_bit_eq_mask)
  moreover have "unat (take_bit 4 w) = unat w mod 16"
    by (simp add: unsigned_take_bit_eq take_bit_eq_mod [where 'a = nat])
  ultimately have "unat (w AND 0x0F) = unat w mod 16" by simp
  moreover have "unat (drop_bit 4 w) = unat w div 16"
    by (simp add: unat_drop_bit_eq drop_bit_eq_div [where 'a = nat])
  ultimately show ?thesis by simp
qed

lemma ver_cmd_iff: "drop_bit 4 (v :: byte) = 2 \<and> v AND 0x0F = 1 \<longleftrightarrow> v = 0x21"
proof
  assume "drop_bit 4 v = 2 \<and> v AND 0x0F = 1"
  then have "unat v = unat (0x21 :: byte)" using byte_split [of v] by simp
  then show "v = 0x21" by (simp only: word_unat_eq_iff)
qed simp

lemma drop_4_plus: "drop (4 + n) (a # b # c # d # rest) = drop n rest"
  by (simp add: numeral_eq_Suc)

lemma parseV2_split:
  "parseV2 (sigV2 @ vc # fp # hi # lo # rest) =
     (let n = unat (be16 hi lo) in
      if n > length rest then Inl ErrLengthExceeds
      else if drop_bit 4 vc \<noteq> 2 then Inl (ErrVersion (drop_bit 4 vc))
      else if vc AND 0x0F \<noteq> 1 then Inl (ErrCommand (vc AND 0x0F))
      else case parse_addrs fp (take n rest) of
             None \<Rightarrow> Inl (ErrFamily fp)
           | Some hdr \<Rightarrow>
               if HFamily hdr = FamilyUnspec then Inl ErrAddrLength
               else Inr (hdr, drop n rest, SourceV2))"
  by (simp add: parseV2_def nth_append slice_def Let_def drop_4_plus split: option.split)

lemma ParseDatagram_sig:
  "ParseDatagram (sigV2 @ rest) = parseV2 (sigV2 @ rest)"
  by (simp add: ParseDatagram_def)

lemma list4_split: "length xs \<ge> 4 \<Longrightarrow> \<exists>a b c d r. xs = a # b # c # d # r"
  by (auto simp: Suc_le_length_iff numeral_eq_Suc)

lemma block_split:
  assumes "length blk \<ge> 2 * n + 4"
  obtains s d p q ext where
    "blk = s @ d @ be16_bytes p @ be16_bytes q @ ext" and "length s = n" and "length d = n"
proof -
  from assms have "length (drop (2 * n) blk) \<ge> 4" by simp
  then obtain a b c e r where r: "drop (2 * n) blk = a # b # c # e # r"
    using list4_split by blast
  have "blk = take n blk @ take n (drop n blk) @ drop (2 * n) blk"
    by (metis append_take_drop_id drop_drop mult_2)
  then have "blk = take n blk @ take n (drop n blk) @ be16_bytes (be16 a b) @ be16_bytes (be16 c e) @ r"
    by (simp add: r)
  moreover have "length (take n blk) = n" "length (take n (drop n blk)) = n" using assms by auto
  ultimately show thesis by (rule that)
qed

lemma parse_addrs_inv:
  assumes "parse_addrs fp blk = Some h" and "HFamily h \<noteq> FamilyUnspec"
  obtains ext where "blk = addr_block h @ ext" and "wf_v2 h" and "fp = fam_byte (HFamily h)"
proof -
  let ?n = "if fp = 0x11 \<or> fp = 0x12 then 4 else 16 :: nat"
  from assms have "length blk \<ge> 2 * ?n + 4"
    by (auto simp: parse_addrs_def parseV4Addrs_def parseV6Addrs_def split: if_splits)
  then obtain s d p q ext where blk: "blk = s @ d @ be16_bytes p @ be16_bytes q @ ext"
    and "length s = ?n" "length d = ?n"
    by (rule block_split)
  with assms have "blk = addr_block h @ ext \<and> wf_v2 h \<and> fp = fam_byte (HFamily h)"
    by (auto simp: parse_addrs_def parseV4_block parseV6_block addr_block_def wf_v2_def
        split: if_splits)
  with that show thesis by blast
qed

lemma sig_split:
  assumes "length data \<ge> 16" and "take 12 data = sigV2"
  obtains vc fp hi lo rest where "data = sigV2 @ vc # fp # hi # lo # rest"
proof -
  from assms(1) have "length (drop 12 data) \<ge> 4" by simp
  then obtain vc fp hi lo rest where "drop 12 data = vc # fp # hi # lo # rest"
    using list4_split by blast
  with assms(2) have "data = sigV2 @ vc # fp # hi # lo # rest"
    by (metis append_take_drop_id)
  with that show thesis by blast
qed

lemma parse_frame:
  assumes "wf_v2 h" and "length (addr_block h @ ext) < 65536"
  shows "ParseDatagram (v2_frame h ext @ payload) = Inr (h, payload, SourceV2)"
proof -
  let ?blk = "addr_block h @ ext"
  let ?w = "word_of_nat (length ?blk) :: u16"
  have frame: "v2_frame h ext @ payload =
      sigV2 @ 0x21 # fam_byte (HFamily h) # ucast (drop_bit 8 ?w) # ucast ?w # ?blk @ payload"
    by (simp add: v2_frame_def be16_bytes_def)
  from assms(2) have n: "unat ?w = length ?blk"
    by (simp only: unsigned_of_nat) (simp add: take_bit_nat_eq_self)
  from assms(1) have "HFamily h \<noteq> FamilyUnspec" by (simp add: wf_v2_def)
  with assms(1) n show ?thesis
    unfolding frame ParseDatagram_sig parseV2_split
    by (simp add: parse_addrs_block)
qed

lemma ParseDatagram_V2:
  assumes "ParseDatagram data = Inr (h, payload, SourceV2)"
  shows "parseV2 data = Inr (h, payload, SourceV2) \<and> take 12 data = sigV2 \<and> length data \<ge> 16"
  using assms
  by (auto simp: ParseDatagram_def parseV2_def Let_def split: if_splits option.splits)

lemma frame_of_parse:
  assumes "ParseDatagram data = Inr (h, payload, SourceV2)"
  obtains ext where "wf_v2 h" and "length (addr_block h @ ext) < 65536"
    and "data = v2_frame h ext @ payload"
proof -
  from ParseDatagram_V2 [OF assms] obtain vc fp hi lo rest
    where data: "data = sigV2 @ vc # fp # hi # lo # rest"
      and p: "parseV2 data = Inr (h, payload, SourceV2)"
    using sig_split by metis
  let ?n = "unat (be16 hi lo)"
  from p have n: "?n \<le> length rest" and vc: "vc = 0x21"
    and a: "parse_addrs fp (take ?n rest) = Some h" and f: "HFamily h \<noteq> FamilyUnspec"
    and pay: "payload = drop ?n rest"
    unfolding data parseV2_split
    by (auto simp: Let_def ver_cmd_iff [symmetric] split: if_splits option.splits)
  from a f obtain ext where ext: "take ?n rest = addr_block h @ ext" "wf_v2 h"
    "fp = fam_byte (HFamily h)" by (rule parse_addrs_inv)
  from n ext(1) have len: "length (addr_block h @ ext) = ?n" by (metis length_take min.absorb2)
  have "be16_bytes (word_of_nat (length (addr_block h @ ext))) = [hi, lo]"
    unfolding len by simp
  moreover have "rest = addr_block h @ ext @ payload"
    using ext(1) pay by (metis append.assoc append_take_drop_id)
  ultimately have "data = v2_frame h ext @ payload"
    using vc ext(3) by (simp add: data v2_frame_def)
  moreover have "length (addr_block h @ ext) < 65536"
    unfolding len using unsigned_less [of "be16 hi lo"] by simp
  ultimately show thesis using that ext(2) by blast
qed


text \<open>
  C1. Every datagram the parser takes as PROXY v2 is the frame of the header it returns,
  followed by the payload it returns, and every frame is accepted: the accepted language
  and the decoded header and payload are exactly the wire format, whatever bytes are sent.
\<close>

theorem ParseDatagram_accepts_iff:
  "ParseDatagram data = Inr (h, payload, SourceV2) \<longleftrightarrow>
     wf_v2 h \<and> (\<exists>ext. length (addr_block h @ ext) < 65536 \<and> data = v2_frame h ext @ payload)"
  by (metis frame_of_parse parse_frame)

text \<open>Headerless datagrams.\<close>

lemma parseV2_source: "parseV2 data = Inr (h, p, s) \<Longrightarrow> s = SourceV2"
  by (auto simp: parseV2_def Let_def split: if_splits option.splits)

lemma length_sigV1 [simp]: "length sigV1 = 6"
  by (simp add: sigV1_def)

lemma sigV1_sigV2: "has_prefix data sigV1 \<Longrightarrow> \<not> has_prefix data sigV2"
proof
  assume "has_prefix data sigV1" and "has_prefix data sigV2"
  then have "take 6 data = sigV1" and "take 12 data = sigV2"
    by (simp_all add: has_prefix_def)
  moreover have "take 6 data = take 6 (take 12 data)" by simp
  ultimately show False by (simp add: sigV1_def sigV2_def)
qed

lemma has_prefix_length: "has_prefix xs p \<Longrightarrow> length p \<le> length xs"
  unfolding has_prefix_def by (metis length_take min.cobounded1)

lemma has_prefix_hd: "has_prefix data (x # p) \<Longrightarrow> data \<noteq> [] \<and> data ! 0 = x"
  by (cases data) (auto simp: has_prefix_def)

lemma ParseDatagram_eq:
  "ParseDatagram data =
     (if has_prefix data sigV2 then parseV2 data
      else if has_prefix data sigV1 then Inl ErrV1NotSupported
      else Inr (zero_header, data, SourceDirect))"
proof -
  consider (v2) "has_prefix data sigV2"
    | (v1) "\<not> has_prefix data sigV2" "has_prefix data sigV1"
    | (direct) "\<not> has_prefix data sigV2" "\<not> has_prefix data sigV1"
    by blast
  then show ?thesis
  proof cases
    case v2
    have "data \<noteq> [] \<and> data ! 0 = 0x0d"
      using has_prefix_hd [OF v2 [unfolded sigV2_def]] .
    with v2 has_prefix_length [OF v2] show ?thesis
      by (simp add: ParseDatagram_def has_prefix_def)
  next
    case v1
    have "data \<noteq> [] \<and> data ! 0 = 0x50"
      using has_prefix_hd [OF v1(2) [unfolded sigV1_def]] .
    with v1 has_prefix_length [OF v1(2)] show ?thesis
      by (simp add: ParseDatagram_def has_prefix_def)
  next
    case direct
    then show ?thesis
      by (simp add: ParseDatagram_def has_prefix_def)
  qed
qed

text \<open>
  A datagram is treated as direct exactly when it starts with neither signature, and
  then it is handed on unchanged with the zero header; the v1 text header is always an
  error and no datagram is ever reported as v1.
\<close>

theorem ParseDatagram_direct_iff:
  "(ParseDatagram data = Inr (h, payload, SourceDirect) \<longleftrightarrow>
      \<not> has_prefix data sigV2 \<and> \<not> has_prefix data sigV1 \<and> h = zero_header \<and> payload = data) \<and>
   (ParseDatagram data = Inl ErrV1NotSupported \<longleftrightarrow> has_prefix data sigV1) \<and>
   ParseDatagram data \<noteq> Inr (h, payload, SourceV1)"
proof -
  have v2: "parseV2 data \<noteq> Inl ErrV1NotSupported"
    by (auto simp: parseV2_def Let_def split: option.split)
  show ?thesis
    using v2 by (auto simp: ParseDatagram_eq sigV1_sigV2 dest: parseV2_source)
qed

section \<open>The reader's contract\<close>

text \<open>
  \<open>proxyproto.DatagramReader\<close>: what the UDP gateway relies on when it calls the reader it
  was built with.
\<close>

locale datagram_reader =
  fixes parse :: "bytes \<Rightarrow> dg_error + Header \<times> bytes \<times> Source"
  assumes direct_whole: "parse d = Inr (h, p, SourceDirect) \<Longrightarrow> h = zero_header \<and> p = d"
    and never_v1: "parse d \<noteq> Inr (h, p, SourceV1)"
    and v2_suffix: "parse d = Inr (h, p, SourceV2) \<Longrightarrow> \<exists>pre. d = pre @ p \<and> pre \<noteq> []"
    and v2_header: "parse d = Inr (h, p, SourceV2) \<Longrightarrow> wf_v2 h"
begin

lemma payload_suffix: "parse d = Inr (h, p, s) \<Longrightarrow> \<exists>pre. d = pre @ p"
  using direct_whole never_v1 v2_suffix by (cases s) (metis append_Nil)+

lemma payload_length: "parse d = Inr (h, p, s) \<Longrightarrow> length p \<le> length d"
  using payload_suffix by fastforce

lemma source_V2: "parse d = Inr (h, p, s) \<Longrightarrow> s \<noteq> SourceDirect \<Longrightarrow> s = SourceV2"
  using never_v1 by (cases s) auto

lemma not_direct_wf: "parse d = Inr (h, p, s) \<Longrightarrow> s \<noteq> SourceDirect \<Longrightarrow> wf_v2 h"
  using source_V2 v2_header by blast

end

interpretation dgr: datagram_reader ParseDatagram
proof unfold_locales
  fix d h p
  show "ParseDatagram d = Inr (h, p, SourceDirect) \<Longrightarrow> h = zero_header \<and> p = d"
    by (auto simp: ParseDatagram_eq split: if_splits dest: parseV2_source)
  show "ParseDatagram d \<noteq> Inr (h, p, SourceV1)"
    by (auto simp: ParseDatagram_eq dest: parseV2_source)
  assume *: "ParseDatagram d = Inr (h, p, SourceV2)"
  from * show "wf_v2 h"
    using frame_of_parse by blast
  from * obtain ext where "d = v2_frame h ext @ p"
    using frame_of_parse by blast
  then show "\<exists>pre. d = pre @ p \<and> pre \<noteq> []"
    by (intro exI [of _ "v2_frame h ext"]) (simp add: v2_frame_def)
qed

section \<open>Round trip through the library encoder\<close>

definition mk_header :: "Family \<Rightarrow> bytes \<Rightarrow> bytes \<Rightarrow> u16 \<Rightarrow> u16 \<Rightarrow> Header" where
  "mk_header fam s d p q =
     zero_header\<lparr>SrcIP := Some s, DstIP := Some d, SrcPort := p, DstPort := q, HFamily := fam\<rparr>"

definition conn_addr :: "Family \<Rightarrow> ip \<Rightarrow> u16 \<Rightarrow> net_addr" where
  "conn_addr fam ip p =
     (if fam \<in> {FamilyUDP4, FamilyUDP6} then UDPAddr ip (uint p) []
      else TCPAddr ip (uint p) [])"

text \<open>
  The bytes an address has in a frame of the family: an IPv4 address, in either of its forms,
  under an IPv4 family, and an IPv6 address that is not IPv4-mapped under an IPv6 family.
\<close>

definition wire_ip :: "Family \<Rightarrow> ip \<Rightarrow> bytes option" where
  "wire_ip fam p =
     (if fam = FamilyUnspec then None
      else if addr_width fam = 4 then To4 p
      else if To4 p = None then To16 p else None)"

text \<open>
  What go-proxyproto documents of its version 2 encoder: two ends with an address of one
  kind are encoded under their own family and transport, with no TLVs.
\<close>

definition gop_v2_spec :: "gop_format \<Rightarrow> bool" where
  "gop_v2_spec fmt \<longleftrightarrow>
     (\<forall>fam src dst s d p q.
        wire_ip fam src = Some s \<longrightarrow> wire_ip fam dst = Some d \<longrightarrow>
        fmt 2 (conn_addr fam src p) (conn_addr fam dst q) = Inr (v2_frame (mk_header fam s d p q) []))"

text \<open>The header a frame made from \<open>h\<close> carries, when both its addresses fit its family.\<close>

definition canonical :: "Header \<Rightarrow> Header option" where
  "canonical h =
     (case (wire_ip (HFamily h) (SrcIP h), wire_ip (HFamily h) (DstIP h)) of
        (Some s, Some d) \<Rightarrow> Some (mk_header (HFamily h) s d (SrcPort h) (DstPort h))
      | _ \<Rightarrow> None)"

lemma mk_header_simps [simp]:
  "SrcIP (mk_header fam s d p q) = Some s" "DstIP (mk_header fam s d p q) = Some d"
  "SrcPort (mk_header fam s d p q) = p" "DstPort (mk_header fam s d p q) = q"
  "HFamily (mk_header fam s d p q) = fam" "TLVs (mk_header fam s d p q) = []"
  by (simp_all add: mk_header_def)

lemma wire_ip_length: "wire_ip fam p = Some b \<Longrightarrow> length b = addr_width fam \<and> fam \<noteq> FamilyUnspec"
  by (cases fam) (auto simp: wire_ip_def dest: To4_length To16_length split: if_splits)

lemma wire_ip_bytes:
  assumes "fam \<noteq> FamilyUnspec" and "length b = addr_width fam"
    and "addr_width fam = 16 \<Longrightarrow> \<not> is_v4 (Some b)"
  shows "wire_ip fam (Some b) = Some b"
  using assms by (cases fam) (auto simp: wire_ip_def is_v4_def To16_def)

lemma wire_ip_unchanged: "wire_ip fam (Some b) = Some x \<Longrightarrow> length b = addr_width fam \<Longrightarrow> x = b"
  by (cases fam) (auto simp: wire_ip_def To16_def split: if_splits)

lemma canonical_iff:
  "canonical h = Some c \<longleftrightarrow>
     (\<exists>s d. wire_ip (HFamily h) (SrcIP h) = Some s \<and> wire_ip (HFamily h) (DstIP h) = Some d \<and>
            c = mk_header (HFamily h) s d (SrcPort h) (DstPort h))"
  by (auto simp: canonical_def split: option.splits)

lemma canonical_wf: "canonical h = Some c \<Longrightarrow> wf_v2 c \<and> HFamily c = HFamily h"
  by (auto simp: canonical_iff wf_v2_def dest: wire_ip_length)

lemma canonical_self:
  assumes "wf_v2 h" and "addr_width (HFamily h) = 16 \<Longrightarrow> \<not> is_v4 (SrcIP h) \<and> \<not> is_v4 (DstIP h)"
  shows "canonical h = Some h"
proof -
  obtain s d where ips: "SrcIP h = Some s" "DstIP h = Some d" "length s = addr_width (HFamily h)"
      "length d = addr_width (HFamily h)" "HFamily h \<noteq> FamilyUnspec" "TLVs h = []"
    using assms(1) by (auto simp: wf_v2_def)
  then have "h = mk_header (HFamily h) s d (SrcPort h) (DstPort h)"
    using header_eqI [of h] by (simp add: mk_header_def)
  moreover have "wire_ip (HFamily h) (SrcIP h) = Some s" "wire_ip (HFamily h) (DstIP h) = Some d"
    using assms(2) ips wire_ip_bytes [of "HFamily h"] by simp_all
  ultimately show ?thesis by (auto simp: canonical_iff)
qed

lemma addrsFromHeader_conn:
  "addrsFromHeader h = (conn_addr (HFamily h) (SrcIP h) (SrcPort h), conn_addr (HFamily h) (DstIP h) (DstPort h))"
  by (auto simp: addrsFromHeader_def conn_addr_def)

lemma Format_canonical:
  assumes "gop_v2_spec fmt" and "canonical h = Some c"
  shows "FormatDatagram fmt h payload = Inr (v2_frame c [] @ payload)"
  using assms by (auto simp: FormatDatagram_def addrsFromHeader_conn canonical_iff gop_v2_spec_def)

lemma Format_mk_header:
  assumes "gop_v2_spec fmt" and "fam \<noteq> FamilyUnspec"
    and "length s = addr_width fam" and "length d = addr_width fam"
    and "addr_width fam = 16 \<Longrightarrow> To4 (Some s) = None \<and> To4 (Some d) = None"
  shows "FormatDatagram fmt (mk_header fam s d p q) payload =
         Inr (v2_frame (mk_header fam s d p q) [] @ payload)"
  using assms by (intro Format_canonical canonical_self) (auto simp: wf_v2_def is_v4_def)

lemma wire_ip_idem: "wire_ip fam p = Some b \<Longrightarrow> wire_ip fam (Some b) = Some b"
  by (cases fam; cases p) (auto simp: wire_ip_def To4_def To16_def Let_def split: if_splits)

lemma canonical_idem: "canonical h = Some c \<Longrightarrow> canonical c = Some c"
  by (auto simp: canonical_iff wire_ip_idem)

lemma parse_canonical:
  assumes "canonical h = Some c"
  shows "ParseDatagram (v2_frame c [] @ payload) = Inr (c, payload, SourceV2)"
proof -
  have c: "wf_v2 c" "HFamily c = HFamily h" using canonical_wf [OF assms] by auto
  then have "length (addr_block c @ []) < 65536"
    by (cases "HFamily c") (simp_all add: wf_v2_addr_block_length)
  then show ?thesis using parse_frame [OF c(1), of "[]"] by blast
qed

text \<open>
  C27. With a library that encodes as documented, what the gateway writes for a header whose
  two addresses have a form in its family is read back by its own parser as the payload and
  the same header, its addresses at the family's width; a header already at that width, as
  the parser and the IPv4 repair of direct headers leave it, comes back unchanged.
\<close>

theorem Format_Parse_roundtrip:
  assumes "gop_v2_spec fmt" and "canonical h = Some c"
  shows "\<exists>out. FormatDatagram fmt h payload = Inr out \<and>
               ParseDatagram out = Inr (c, payload, SourceV2) \<and> (wf_v2 h \<longrightarrow> c = h)"
proof -
  have "ParseDatagram (v2_frame c [] @ payload) = Inr (c, payload, SourceV2)"
    using assms(2) by (rule parse_canonical)
  moreover have "c = h" if "wf_v2 h"
  proof -
    have "mk_header (HFamily h) (ip_bytes (SrcIP h)) (ip_bytes (DstIP h)) (SrcPort h) (DstPort h) = h"
      using that header_eqI [of h] by (auto simp: wf_v2_def mk_header_def)
    with that assms(2) show ?thesis
      by (auto simp: wf_v2_def canonical_iff dest!: wire_ip_unchanged)
  qed
  ultimately show ?thesis
    using Format_canonical [OF assms] by blast
qed

text \<open>An encoder with the documented behaviour, for the witnesses.\<close>

definition ref_frame :: "Family \<Rightarrow> Family \<Rightarrow> ip \<Rightarrow> ip \<Rightarrow> int \<Rightarrow> int \<Rightarrow> string + bytes" where
  "ref_frame fam4 fam6 src dst p q =
     (case (wire_ip fam4 src, wire_ip fam4 dst) of
        (Some s, Some d) \<Rightarrow> Inr (v2_frame (mk_header fam4 s d (word_of_int p) (word_of_int q)) [])
      | _ \<Rightarrow> (case (wire_ip fam6 src, wire_ip fam6 dst) of
               (Some s, Some d) \<Rightarrow> Inr (v2_frame (mk_header fam6 s d (word_of_int p) (word_of_int q)) [])
             | _ \<Rightarrow> Inl ''invalid address''))"

fun ref_format :: gop_format where
  "ref_format v (UDPAddr src p sz) (UDPAddr dst q dz) = ref_frame FamilyUDP4 FamilyUDP6 src dst p q"
| "ref_format v (TCPAddr src p sz) (TCPAddr dst q dz) = ref_frame FamilyTCP4 FamilyTCP6 src dst p q"
| "ref_format v _ _ = Inl ''invalid address''"

lemma ref_format_spec: "gop_v2_spec ref_format"
  unfolding gop_v2_spec_def
proof (intro allI impI)
  fix fam and src dst :: ip and s d :: bytes and p q :: u16
  assume "wire_ip fam src = Some s" "wire_ip fam dst = Some d"
  then show "ref_format 2 (conn_addr fam src p) (conn_addr fam dst q) =
             Inr (v2_frame (mk_header fam s d p q) [])"
    by (cases fam) (auto simp: conn_addr_def ref_frame_def wire_ip_def split: option.splits if_splits)
qed

theorem Format_Parse_roundtrip_witness:
  "\<exists>out. FormatDatagram ref_format
            (HeaderFromAddrs (UDPAddr (Some [10, 0, 0, 7]) 5353 []) (UDPAddr (Some (replicate 16 0)) 53 []))
            [1, 2, 3] = Inr out \<and>
         ParseDatagram out =
           Inr (mk_header FamilyUDP4 [10, 0, 0, 7] [0, 0, 0, 0] 5353 53, [1, 2, 3], SourceV2)"
proof -
  let ?h = "HeaderFromAddrs (UDPAddr (Some [10, 0, 0, 7]) 5353 []) (UDPAddr (Some (replicate 16 0)) 53 [])"
  have "canonical ?h = Some (mk_header FamilyUDP4 [10, 0, 0, 7] [0, 0, 0, 0] 5353 53)"
    by (simp add: canonical_def wire_ip_def buildAddrHeader_def To4_def v4_in_v6_prefix_def
        IPv4zero_def zero_header_def mk_header_def replicate_numeral)
  from Format_Parse_roundtrip [OF ref_format_spec this] show ?thesis by blast
qed

end
