(* ===== verification/Udp_Session.thy ===== *)
theory Udp_Session
  imports Datagram
begin

text \<open>
  \<open>internal/udp/session.go\<close>: the key that identifies a UDP client, the session with its
  idle timer, its one-time expiry, its stored input source, and the goroutine that copies
  the upstream's responses back to the client.
\<close>

section \<open>Keys\<close>

record sessionKey =
  key_ip :: bytes
  key_port :: u16
  key_zone :: string

text \<open>\<open>keyFromUDPAddr\<close>: \<open>copy\<close> leaves the array zero when \<open>To16\<close> is nil.\<close>

definition keyFromUDPAddr :: "net_addr \<Rightarrow> sessionKey" where
  "keyFromUDPAddr a =
     \<lparr>key_ip = (case To16 (addr_ip a) of Some b \<Rightarrow> b | None \<Rightarrow> replicate 16 0),
      key_port = word_of_int (addr_port a), key_zone = addr_zone a\<rparr>"

text \<open>\<open>cloneHeader\<close>: \<open>append([]byte(nil), x...)\<close> of an empty slice is nil.\<close>

definition clone_slice :: "ip \<Rightarrow> ip" where
  "clone_slice p = (if ip_bytes p = [] then None else Some (ip_bytes p))"

definition cloneHeader :: "Header \<Rightarrow> Header" where
  "cloneHeader h =
     \<lparr>SrcIP = clone_slice (SrcIP h), DstIP = clone_slice (DstIP h),
      SrcPort = SrcPort h, DstPort = DstPort h, HFamily = HFamily h, TLVs = []\<rparr>"

section \<open>Sessions\<close>

datatype timer = TimerArmed duration | TimerStopped | TimerFired

text \<open>
  \<open>us_done\<close> is whether the channel \<open>done\<close> is closed, \<open>us_once\<close> whether the \<open>sync.Once\<close>
  has been used.
\<close>

record UDPSession =
  us_key :: sessionKey
  us_client :: net_addr
  us_idle :: duration
  us_timer :: timer
  us_done :: bool
  us_once :: bool
  us_upstream_open :: bool
  us_headerSent :: bool
  us_inputSource :: "Header option"
  us_inputSrcKind :: "Source option"

definition newSession :: "sessionKey \<Rightarrow> net_addr \<Rightarrow> duration \<Rightarrow> UDPSession" where
  "newSession key client idle =
     \<lparr>us_key = key, us_client = client, us_idle = idle, us_timer = TimerArmed idle,
      us_done = False, us_once = False, us_upstream_open = True, us_headerSent = False,
      us_inputSource = None, us_inputSrcKind = None\<rparr>"

definition refresh :: "UDPSession \<Rightarrow> UDPSession" where
  "refresh s = (if us_done s then s else s\<lparr>us_timer := TimerArmed (us_idle s)\<rparr>)"

text \<open>\<open>expire\<close>: the new session and whether \<open>onExpire\<close> was called.\<close>

definition expire :: "UDPSession \<Rightarrow> UDPSession \<times> bool" where
  "expire s =
     (if us_once s then (s, False)
      else (s\<lparr>us_done := True, us_timer := TimerStopped, us_inputSource := None,
              us_inputSrcKind := None, us_upstream_open := False, us_once := True\<rparr>, True))"

text \<open>The clean-up of the losing session in \<open>Create\<close>: no \<open>onExpire\<close>, no state clearing.\<close>

definition discard :: "UDPSession \<Rightarrow> UDPSession" where
  "discard s =
     (if us_once s then s
      else s\<lparr>us_done := True, us_timer := TimerStopped, us_upstream_open := False, us_once := True\<rparr>)"

text \<open>\<open>StoreInputSource\<close>\<close>

definition StoreInputSource :: "UDPSession \<Rightarrow> Header \<Rightarrow> Source \<Rightarrow> UDPSession" where
  "StoreInputSource s hdr src =
     s\<lparr>us_inputSource := Some (cloneHeader hdr), us_inputSrcKind := Some src\<rparr>"

section \<open>The reader goroutine\<close>

text \<open>
  What happens at the blocking read: a datagram from upstream, a read error, or, before
  either, another goroutine expiring the session. A datagram comes with the result of writing
  it to the client and whether the session is expired between the check of \<open>done\<close> and that write.
\<close>

datatype loop_event = Received bytes "string option" bool | ReadFailedWith string | ExpiredByOther

datatype loop_effect = ToClient net_addr bytes | OnExpire sessionKey | ReaderDebug string

definition expired_by :: "UDPSession \<Rightarrow> loop_effect list" where
  "expired_by s = (if snd (expire s) then [OnExpire (us_key s)] else [])"

fun readLoop :: "UDPSession \<Rightarrow> loop_event list \<Rightarrow> UDPSession \<times> loop_effect list \<times> bool" where
  "readLoop s [] = (s, [], False)"
| "readLoop s (ExpiredByOther # es) =
     (let (s', out, ret) = readLoop (fst (expire s)) es in (s', expired_by s @ out, ret))"
| "readLoop s (ReadFailedWith e # es) =
     (if us_done s then (s, [], True)
      else (fst (expire s), ReaderDebug ''upstream read error, expiring session'' # expired_by s, True))"
| "readLoop s (Received bs werr late # es) =
     (if us_done s then (s, [], True)
      else let (s', out, ret) = readLoop (refresh (if late then fst (expire s) else s)) es
           in (s',
               ReaderDebug ''readLoop: received from upstream'' #
               (if late then expired_by s else []) @
               ToClient (us_client s) bs #
               (case werr of None \<Rightarrow> [] | Some e \<Rightarrow> [ReaderDebug ''readLoop: WriteToUDP failed'']) @
               out, ret))"

section \<open>Lemmas\<close>

lemma expire_simps [simp]:
  "us_once (fst (expire s))"
  "us_key (fst (expire s)) = us_key s"
  "us_client (fst (expire s)) = us_client s"
  "snd (expire s) \<longleftrightarrow> \<not> us_once s"
  by (simp_all add: expire_def)

lemma expire_idempotent: "expire (fst (expire s)) = (fst (expire s), False)"
  by (simp add: expire_def)

lemma refresh_simps [simp]:
  "us_key (refresh s) = us_key s" "us_client (refresh s) = us_client s"
  "us_done (refresh s) = us_done s" "us_once (refresh s) = us_once s"
  "us_inputSource (refresh s) = us_inputSource s"
  "us_inputSrcKind (refresh s) = us_inputSrcKind s"
  "us_headerSent (refresh s) = us_headerSent s"
  "us_upstream_open (refresh s) = us_upstream_open s"
  by (simp_all add: refresh_def)

lemma clone_slice_Some: "bs \<noteq> [] \<Longrightarrow> clone_slice (Some bs) = Some bs"
  by (simp add: clone_slice_def)

text \<open>A header the datagram reader returned survives the deep copy unchanged.\<close>

lemma cloneHeader_wf: "wf_v2 h \<Longrightarrow> cloneHeader h = h"
proof -
  assume wf: "wf_v2 h"
  then obtain s d where "SrcIP h = Some s" "DstIP h = Some d" "TLVs h = []"
    and len: "length s = addr_width (HFamily h)" "length d = addr_width (HFamily h)"
    and "HFamily h \<noteq> FamilyUnspec"
    by (auto simp: wf_v2_def)
  moreover from this have "addr_width (HFamily h) > 0" by (cases "HFamily h") simp_all
  with len have "s \<noteq> []" "d \<noteq> []" by auto
  ultimately show ?thesis
    by (cases h) (simp add: cloneHeader_def clone_slice_Some)
qed

text \<open>A session that agrees with itself: once used means done, and its state is cleared.\<close>

definition session_ok :: "UDPSession \<Rightarrow> bool" where
  "session_ok s \<longleftrightarrow>
     (us_done s \<longleftrightarrow> us_once s) \<and>
     (us_done s \<longrightarrow> us_timer s = TimerStopped \<and> \<not> us_upstream_open s) \<and>
     (us_inputSource s = None \<longleftrightarrow> us_inputSrcKind s = None) \<and>
     (us_inputSrcKind s \<noteq> Some SourceDirect)"

lemma session_ok_new: "session_ok (newSession k c d)"
  by (simp add: session_ok_def newSession_def)

lemma session_ok_refresh: "session_ok s \<Longrightarrow> session_ok (refresh s)"
  by (auto simp: session_ok_def refresh_def)

lemma session_ok_expire: "session_ok s \<Longrightarrow> session_ok (fst (expire s))"
  by (auto simp: session_ok_def expire_def)

lemma session_ok_store:
  "session_ok s \<Longrightarrow> src \<noteq> SourceDirect \<Longrightarrow> session_ok (StoreInputSource s h src)"
  by (auto simp: session_ok_def StoreInputSource_def)

text \<open>
  Two UDP peers share a session key exactly when they have the same canonical address,
  port and zone: no two distinct clients are ever merged, and one client seen in 4-byte and
  in mapped form is one session.
\<close>

theorem keyFromUDPAddr_inject:
  assumes "To16 (addr_ip a) = Some x" and "To16 (addr_ip b) = Some y"
    and "0 \<le> addr_port a" "addr_port a < 65536" "0 \<le> addr_port b" "addr_port b < 65536"
  shows "keyFromUDPAddr a = keyFromUDPAddr b \<longleftrightarrow>
         x = y \<and> addr_port a = addr_port b \<and> addr_zone a = addr_zone b"
proof -
  have "(word_of_int p :: u16) = word_of_int q \<longleftrightarrow> p = q"
    if "0 \<le> p" "p < 65536" "0 \<le> q" "q < 65536" for p q :: int
    using that by (auto simp: word_of_int_eq_iff take_bit_int_eq_self)
  with assms show ?thesis
    by (simp add: keyFromUDPAddr_def)
qed

theorem keyFromUDPAddr_inject_witness:
  "keyFromUDPAddr (UDPAddr (Some [10, 0, 0, 7]) 5353 []) =
   keyFromUDPAddr (UDPAddr (Some (v4_in_v6_prefix @ [10, 0, 0, 7])) 5353 []) \<and>
   keyFromUDPAddr (UDPAddr (Some [10, 0, 0, 7]) 5353 []) \<noteq>
   keyFromUDPAddr (UDPAddr (Some [10, 0, 0, 7]) 5354 [])"
proof -
  have x: "To16 (Some [10, 0, 0, 7]) = Some (v4_in_v6_prefix @ [10, 0, 0, 7])"
    by (simp add: To16_def)
  have y: "To16 (Some (v4_in_v6_prefix @ [10, 0, 0, 7])) = Some (v4_in_v6_prefix @ [10, 0, 0, 7])"
    by (simp add: To16_def)
  show ?thesis
    using keyFromUDPAddr_inject [of "UDPAddr (Some [10, 0, 0, 7]) 5353 []" _
        "UDPAddr (Some (v4_in_v6_prefix @ [10, 0, 0, 7])) 5353 []"]
      keyFromUDPAddr_inject [of "UDPAddr (Some [10, 0, 0, 7]) 5353 []" _
        "UDPAddr (Some [10, 0, 0, 7]) 5354 []"]
    by (simp add: x y)
qed

text \<open>What reaches the client: the datagrams received before the first expiry or error.\<close>

fun received_prefix :: "loop_event list \<Rightarrow> bytes list" where
  "received_prefix (Received bs werr late # es) = bs # (if late then [] else received_prefix es)"
| "received_prefix _ = []"

fun to_client :: "loop_effect list \<Rightarrow> (net_addr \<times> bytes) list" where
  "to_client (ToClient c bs # es) = (c, bs) # to_client es"
| "to_client (e # es) = to_client es"
| "to_client [] = []"

lemma to_client_append [simp]: "to_client (xs @ ys) = to_client xs @ to_client ys"
  by (induction xs rule: to_client.induct) simp_all

text \<open>What the reader does after the first report of an expiry; \<open>None\<close> if there is none.\<close>

fun after_expiry :: "loop_effect list \<Rightarrow> loop_effect list option" where
  "after_expiry [] = None"
| "after_expiry (OnExpire k # es) = Some es"
| "after_expiry (e # es) = after_expiry es"

lemma readLoop_done:
  "us_done s \<Longrightarrow> us_once s \<Longrightarrow>
   fst (snd (readLoop s es)) = [] \<and> us_done (fst (readLoop s es))"
proof (induction es arbitrary: s)
  case (Cons e es)
  then show ?case
    by (cases e) (auto simp: expire_def expired_by_def split: prod.splits)
qed simp

lemma expire_done: "session_ok s \<Longrightarrow> us_done (fst (expire s)) \<and> us_once (fst (expire s))"
  by (simp add: expire_def session_ok_def)

lemma expired_by_alive: "session_ok s \<Longrightarrow> \<not> us_done s \<Longrightarrow> expired_by s = [OnExpire (us_key s)]"
  by (simp add: expired_by_def session_ok_def)

text \<open>
  The reader forwards exactly the datagrams received before the session expires or the
  upstream fails, in order and unchanged, all to the session's client, whether the writes
  succeed or not. It reports the expiry at most once, and after that it forwards at most the
  one datagram it had already read. It returns only from an expired session.
\<close>

theorem readLoop_forwards:
  assumes "session_ok s" and "\<not> us_done s" and "readLoop s es = (s', out, returned)"
  shows "to_client out = map (Pair (us_client s)) (received_prefix es) \<and>
         (case after_expiry out of
            None \<Rightarrow> \<not> returned
          | Some later \<Rightarrow> after_expiry later = None \<and> length (to_client later) \<le> 1) \<and>
         (us_done s' \<longleftrightarrow> after_expiry out \<noteq> None)"
  using assms
proof (induction es arbitrary: s s' out returned)
  case (Cons e es)
  note once = expired_by_alive [OF Cons.prems(1,2)]
  note dead = readLoop_done [of "fst (expire s)" es] expire_done [OF Cons.prems(1)]
  show ?case
  proof (cases e)
    case (Received bs werr late)
    show ?thesis
    proof (cases late)
      case True
      have "fst (snd (readLoop (refresh (fst (expire s))) es)) = [] \<and>
          us_done (fst (readLoop (refresh (fst (expire s))) es))"
        using dead(2) by (intro readLoop_done) simp_all
      with Cons.prems True once show ?thesis
        by (auto simp: Received split: prod.splits option.splits)
    next
      case False
      with Cons.IH [of "refresh s"] Cons.prems show ?thesis
        by (auto simp: Received session_ok_refresh split: prod.splits option.splits)
    qed
  next
    case (ReadFailedWith m)
    with Cons.prems once dead(2) show ?thesis by auto
  next
    case ExpiredByOther
    with Cons.prems dead show ?thesis by (auto simp: once split: prod.splits)
  qed
qed simp

theorem readLoop_forwards_witness:
  "to_client (fst (snd (readLoop (newSession (keyFromUDPAddr (UDPAddr (Some [10, 0, 0, 7]) 5353 []))
       (UDPAddr (Some [10, 0, 0, 7]) 5353 []) 30)
       [Received [1] None False, Received [2] (Some ''refused'') True, Received [3] None False]))) =
     [(UDPAddr (Some [10, 0, 0, 7]) 5353 [], [1]), (UDPAddr (Some [10, 0, 0, 7]) 5353 [], [2])]"
proof -
  let ?c = "UDPAddr (Some [10, 0, 0, 7]) 5353 []"
  let ?s = "newSession (keyFromUDPAddr ?c) ?c 30"
  let ?es = "[Received [1] None False, Received [2] (Some ''refused'') True, Received [3] None False]"
  have new: "\<not> us_done ?s" "us_client ?s = ?c" by (simp_all add: newSession_def)
  obtain s' out ret where r: "readLoop ?s ?es = (s', out, ret)" by (cases "readLoop ?s ?es") auto
  from readLoop_forwards [OF session_ok_new new(1) r] show ?thesis
    unfolding r new(2) by simp
qed

end
