(* ===== verification/Udp_Manager.thy ===== *)
theory Udp_Manager
  imports Udp_Session
begin

text \<open>
  \<open>internal/udp/manager.go\<close> as one goroutine sees it: the session map, the counter and the
  cap, with every operation run to its end. The interleavings of the same operations are in
  theory Udp_Race.
\<close>

section \<open>Operations\<close>

record Manager =
  m_sessions :: "sessionKey \<rightharpoonup> UDPSession"
  m_count :: int
  m_max :: int

datatype manager_error = ErrMaxSessions

definition NewUDPSessionManager :: "int \<Rightarrow> Manager" where
  "NewUDPSessionManager maxSessions =
     \<lparr>m_sessions = (\<lambda>_. None), m_count = 0, m_max = maxSessions\<rparr>"

definition Load :: "Manager \<Rightarrow> sessionKey \<Rightarrow> UDPSession option" where
  "Load m key = m_sessions m key"

text \<open>
  \<open>Create\<close>: the session to use and whether it is the new one, whose reader is started; when
  another session is already stored under the key, the new one is discarded.
\<close>

definition Create ::
    "Manager \<Rightarrow> sessionKey \<Rightarrow> net_addr \<Rightarrow> duration \<Rightarrow> Manager \<times> (manager_error + UDPSession \<times> bool)" where
  "Create m key client idle =
     (if m_max m > 0 \<and> m_count m \<ge> m_max m then (m, Inl ErrMaxSessions)
      else
        let newCount = m_count m + 1 in
        if m_max m > 0 \<and> newCount > m_max m
        then (m\<lparr>m_count := newCount - 1\<rparr>, Inl ErrMaxSessions)
        else
          let s = newSession key client idle in
          case m_sessions m key of
            Some actual \<Rightarrow> (m\<lparr>m_count := newCount - 1\<rparr>, Inr (actual, False))
          | None \<Rightarrow> (m\<lparr>m_sessions := (m_sessions m)(key \<mapsto> s), m_count := newCount\<rparr>, Inr (s, True)))"

definition remove :: "Manager \<Rightarrow> sessionKey \<Rightarrow> Manager" where
  "remove m key = m\<lparr>m_sessions := (m_sessions m)(key := None), m_count := m_count m - 1\<rparr>"

text \<open>\<open>expire\<close> of the session stored under a key, with its \<open>onExpire\<close>, which is \<open>remove\<close>.\<close>

definition expire_key :: "sessionKey \<Rightarrow> Manager \<Rightarrow> Manager" where
  "expire_key key m =
     (case m_sessions m key of
        None \<Rightarrow> m
      | Some s \<Rightarrow>
          (case expire s of
             (s', True) \<Rightarrow> remove m key
           | (s', False) \<Rightarrow> m))"

text \<open>\<open>ExpireAll\<close>, over the keys in the order \<open>Range\<close> visits them.\<close>

definition ExpireAll :: "sessionKey list \<Rightarrow> Manager \<Rightarrow> Manager" where
  "ExpireAll keys m = fold expire_key keys m"

definition Count :: "Manager \<Rightarrow> int" where
  "Count m = m_count m"

text \<open>A session written back through the pointer the map holds.\<close>

definition put_session :: "Manager \<Rightarrow> UDPSession \<Rightarrow> Manager" where
  "put_session m s = m\<lparr>m_sessions := (m_sessions m)(us_key s \<mapsto> s)\<rparr>"

section \<open>The store contract\<close>

text \<open>
  What the gateway relies on: a lookup after a create or a remove, the outcomes of a create,
  the counter as the number of stored sessions, and the cap.
\<close>

locale session_store =
  fixes load :: "'m \<Rightarrow> 'k \<Rightarrow> 's option"
    and create :: "'m \<Rightarrow> 'k \<Rightarrow> 'm \<times> ('e + 's \<times> bool)"
    and delete :: "'m \<Rightarrow> 'k \<Rightarrow> 'm"
    and size_of :: "'m \<Rightarrow> int"
    and cap :: "'m \<Rightarrow> int"
    and invar :: "'m \<Rightarrow> bool"
  assumes create_refused: "create m k = (m', Inl e) \<Longrightarrow> m' = m \<and> cap m > 0 \<and> size_of m \<ge> cap m"
    and create_new: "create m k = (m', Inr (s, True)) \<Longrightarrow>
                     load m k = None \<and> load m' = (load m)(k \<mapsto> s)"
    and create_old: "create m k = (m', Inr (s, False)) \<Longrightarrow> load m k = Some s \<and> m' = m"
    and create_keeps: "create m k = (m', r) \<Longrightarrow> invar m \<Longrightarrow> invar m' \<and> cap m' = cap m"
    and delete_load: "load (delete m k) = (load m)(k := None)"
    and delete_keeps: "invar m \<Longrightarrow> load m k \<noteq> None \<Longrightarrow> invar (delete m k) \<and> cap (delete m k) = cap m"
    and size_exact: "invar m \<Longrightarrow> finite (dom (load m)) \<and> size_of m = int (card (dom (load m)))"
    and size_capped: "invar m \<Longrightarrow> cap m > 0 \<Longrightarrow> size_of m \<le> cap m"
begin

lemma create_other_keys: "create m k = (m', r) \<Longrightarrow> k' \<noteq> k \<Longrightarrow> load m' k' = load m k'"
proof -
  assume c: "create m k = (m', r)" and "k' \<noteq> k"
  show ?thesis
  proof (cases r)
    case (Inl e)
    then show ?thesis using create_refused [of m k m' e] c by simp
  next
    case (Inr p)
    obtain s b where "p = (s, b)" by (cases p)
    then show ?thesis
      using create_new [of m k m' s] create_old [of m k m' s] c Inr \<open>k' \<noteq> k\<close> by (cases b) auto
  qed
qed

lemma create_loads: "create m k = (m', Inr (s, b)) \<Longrightarrow> load m' k = Some s"
  using create_new [of m k m' s] create_old [of m k m' s] by (cases b) auto

lemma create_absent: "create m k = (m', Inr (s, b)) \<Longrightarrow> load m k = None \<Longrightarrow> b"
  using create_old [of m k m' s] by (cases b) auto

lemma stored_capped: "invar m \<Longrightarrow> cap m > 0 \<Longrightarrow> int (card (dom (load m))) \<le> cap m"
  using size_exact size_capped by simp

lemma create_available:
  assumes "invar m" and "cap m \<le> 0 \<or> int (card (dom (load m))) < cap m"
  shows "\<exists>m' s b. create m k = (m', Inr (s, b))"
proof -
  obtain m' r where c: "create m k = (m', r)" by fastforce
  then show ?thesis
    using create_refused [of m k m'] assms size_exact by (cases r) fastforce+
qed

lemma delete_shrinks:
  assumes "invar m" and "load m k \<noteq> None"
  shows "size_of (delete m k) = size_of m - 1"
proof -
  have "dom (load (delete m k)) = dom (load m) - {k}" by (simp add: delete_load)
  moreover have "k \<in> dom (load m)" using assms(2) by auto
  ultimately have "Suc (card (dom (load (delete m k)))) = card (dom (load m))"
    using size_exact [OF assms(1)] by (metis card.remove)
  then show ?thesis
    using size_exact [OF assms(1)] size_exact delete_keeps [OF assms] by fastforce
qed

end

section \<open>The manager implements it\<close>

lemma Load_eta [simp]: "Load m = m_sessions m"
  by (simp add: Load_def fun_eq_iff)

definition mgr_ok :: "Manager \<Rightarrow> bool" where
  "mgr_ok m \<longleftrightarrow>
     finite (dom (m_sessions m)) \<and>
     m_count m = int (card (dom (m_sessions m))) \<and>
     (m_max m > 0 \<longrightarrow> m_count m \<le> m_max m) \<and>
     (\<forall>k s. m_sessions m k = Some s \<longrightarrow> us_key s = k \<and> session_ok s \<and> \<not> us_done s)"

lemma mgr_ok_new: "mgr_ok (NewUDPSessionManager n)"
  by (simp add: mgr_ok_def NewUDPSessionManager_def)

lemma mgr_ok_Create:
  assumes "Create m k c d = (m', r)" and "mgr_ok m"
  shows "mgr_ok m' \<and> m_max m' = m_max m"
proof -
  have "session_ok (newSession k c d)" by (rule session_ok_new)
  moreover have "us_key (newSession k c d) = k" "\<not> us_done (newSession k c d)"
    by (simp_all add: newSession_def)
  ultimately show ?thesis
    using assms
    by (auto simp: Create_def mgr_ok_def Let_def card_insert_if domIff
        split: if_splits option.splits)
qed

lemma mgr_ok_remove: "mgr_ok m \<Longrightarrow> m_sessions m k \<noteq> None \<Longrightarrow> mgr_ok (remove m k)"
proof -
  assume ok: "mgr_ok m" and k: "m_sessions m k \<noteq> None"
  then have "card (dom (m_sessions m)) > 0"
    by (auto simp: mgr_ok_def card_gt_0_iff)
  with ok k show ?thesis
    by (auto simp: mgr_ok_def remove_def card_Diff_singleton domIff)
qed

interpretation mgr: session_store Load "\<lambda>m k. Create m k client idle" remove m_count m_max mgr_ok
  for client idle
proof unfold_locales
  fix m m' :: Manager and k r s e
  show "Create m k client idle = (m', Inl e) \<Longrightarrow> m' = m \<and> 0 < m_max m \<and> m_max m \<le> m_count m"
    by (auto simp: Create_def Let_def split: if_splits option.splits)
  show "Create m k client idle = (m', Inr (s, True)) \<Longrightarrow>
        Load m k = None \<and> Load m' = (Load m)(k \<mapsto> s)"
    by (auto simp: Create_def Load_def fun_eq_iff Let_def split: if_splits option.splits)
  show "Create m k client idle = (m', Inr (s, False)) \<Longrightarrow> Load m k = Some s \<and> m' = m"
    by (auto simp: Create_def Load_def Let_def split: if_splits option.splits)
  show "Create m k client idle = (m', r) \<Longrightarrow> mgr_ok m \<Longrightarrow> mgr_ok m' \<and> m_max m' = m_max m"
    by (rule mgr_ok_Create)
  show "Load (remove m k) = (Load m)(k := None)"
    by (auto simp: Load_def remove_def fun_eq_iff)
  show "mgr_ok m \<Longrightarrow> Load m k \<noteq> None \<Longrightarrow> mgr_ok (remove m k) \<and> m_max (remove m k) = m_max m"
    using mgr_ok_remove by (simp add: Load_def remove_def)
  show "mgr_ok m \<Longrightarrow> finite (dom (Load m)) \<and> m_count m = int (card (dom (Load m)))"
    by (simp add: mgr_ok_def Load_def)
  show "mgr_ok m \<Longrightarrow> 0 < m_max m \<Longrightarrow> m_count m \<le> m_max m"
    by (simp add: mgr_ok_def)
qed

lemma mgr_ok_put:
  assumes "mgr_ok m" and "m_sessions m (us_key s) \<noteq> None" and "session_ok s" and "\<not> us_done s"
  shows "mgr_ok (put_session m s)"
  using assms by (auto simp: mgr_ok_def put_session_def insert_absorb domIff)

section \<open>Shutdown\<close>

lemma expire_key_removes:
  assumes "mgr_ok m"
  shows "mgr_ok (expire_key k m) \<and> m_sessions (expire_key k m) = (m_sessions m)(k := None)"
proof (cases "m_sessions m k")
  case None
  with assms show ?thesis by (auto simp: expire_key_def)
next
  case (Some s)
  with assms have "\<not> us_once s" by (auto simp: mgr_ok_def session_ok_def)
  with Some have "expire_key k m = remove m k" by (simp add: expire_key_def expire_def)
  with assms Some show ?thesis using mgr_ok_remove [of m k] by (simp add: remove_def)
qed

lemma fold_expire_key:
  "mgr_ok m \<Longrightarrow> mgr_ok (fold expire_key ks m) \<and>
     m_sessions (fold expire_key ks m) = (\<lambda>k. if k \<in> set ks then None else m_sessions m k)"
proof (induction ks arbitrary: m)
  case (Cons k ks)
  from expire_key_removes [OF Cons.prems, of k] Cons.IH [of "expire_key k m"]
  show ?case by (auto simp: fun_eq_iff)
qed simp

text \<open>
  Shutting down expires every session: whatever order the map is ranged over in, no
  session is left and the counter is back at zero.
\<close>

theorem ExpireAll_empties:
  assumes "mgr_ok m" and "dom (m_sessions m) \<subseteq> set keys"
  shows "m_sessions (ExpireAll keys m) = (\<lambda>_. None) \<and> Count (ExpireAll keys m) = 0"
proof -
  have "m_sessions (ExpireAll keys m) = (\<lambda>_. None)"
    using fold_expire_key [OF assms(1), of keys] assms(2) by (auto simp: ExpireAll_def fun_eq_iff)
  moreover have "mgr_ok (ExpireAll keys m)"
    using fold_expire_key [OF assms(1), of keys] by (simp add: ExpireAll_def)
  ultimately show ?thesis
    by (simp add: mgr_ok_def Count_def)
qed

definition client1 :: net_addr where
  "client1 = UDPAddr (Some [10, 0, 0, 7]) 5353 []"

definition one_session :: Manager where
  "one_session = fst (Create (NewUDPSessionManager 4) (keyFromUDPAddr client1) client1 30000000000)"

lemma one_session_ok: "mgr_ok one_session"
  unfolding one_session_def using mgr_ok_Create mgr_ok_new by (metis prod.collapse)

lemma one_session_dom: "dom (m_sessions one_session) = {keyFromUDPAddr client1}"
  by (simp add: one_session_def Create_def NewUDPSessionManager_def Let_def)

theorem ExpireAll_empties_witness:
  "m_sessions (ExpireAll [keyFromUDPAddr client1] one_session) = (\<lambda>_. None) \<and>
   Count (ExpireAll [keyFromUDPAddr client1] one_session) = 0"
  by (rule ExpireAll_empties [OF one_session_ok]) (simp add: one_session_dom)

text \<open>
  A create is refused only when the cap is positive and that many sessions are stored;
  otherwise the key is mapped to the session returned, other keys keep theirs, and the map
  stays within the cap.
\<close>

theorem Create_capped:
  assumes "mgr_ok m" and "Create m key client idle = (m', r)"
  shows "(case r of
            Inl e \<Rightarrow> m' = m \<and> m_max m > 0 \<and> int (card (dom (m_sessions m))) = m_max m
          | Inr (s, started) \<Rightarrow>
              m_sessions m' = (m_sessions m)(key \<mapsto> s) \<and> (started \<longleftrightarrow> m_sessions m key = None)) \<and>
         (m_max m > 0 \<longrightarrow> int (card (dom (m_sessions m'))) \<le> m_max m)"
proof -
  have ok': "mgr_ok m'" "m_max m' = m_max m"
    using mgr.create_keeps [OF assms(2,1)] by auto
  have "m_max m > 0 \<longrightarrow> int (card (dom (m_sessions m'))) \<le> m_max m"
    using mgr.stored_capped [OF ok'(1)] ok'(2) by simp
  moreover have "case r of
            Inl e \<Rightarrow> m' = m \<and> m_max m > 0 \<and> int (card (dom (m_sessions m))) = m_max m
          | Inr (s, started) \<Rightarrow>
              m_sessions m' = (m_sessions m)(key \<mapsto> s) \<and> (started \<longleftrightarrow> m_sessions m key = None)"
  proof (cases r)
    case (Inl e)
    from mgr.create_refused [OF assms(2) [unfolded Inl]] mgr.stored_capped [OF assms(1)]
      mgr.size_exact [OF assms(1)] show ?thesis by (auto simp: Inl)
  next
    case (Inr p)
    obtain s b where p: "p = (s, b)" by (cases p)
    from mgr.create_new [of m key client idle m' s] mgr.create_old [of m key client idle m' s]
      assms(2) show ?thesis by (cases b) (auto simp: Inr p fun_eq_iff)
  qed
  ultimately show ?thesis by blast
qed

theorem Create_capped_witness:
  "int (card (dom (m_sessions (fst (Create one_session (keyFromUDPAddr client1) client1 5))))) \<le>
   m_max one_session"
proof -
  obtain m' r where c: "Create one_session (keyFromUDPAddr client1) client1 5 = (m', r)" by fastforce
  have "m_max one_session > 0"
    by (simp add: one_session_def Create_def NewUDPSessionManager_def Let_def)
  with Create_capped [OF one_session_ok c] c show ?thesis by simp
qed

end
