(* ===== verification/Trust.thy ===== *)
theory Trust
  imports Proxy_Proto
begin

text \<open>
  \<open>internal/gateway/trust.go\<close>: which peers may send PROXY headers. The configured entries
  are CIDRs or bare addresses; a missing checker or an empty list trusts everyone.
\<close>

section \<open>The checker\<close>

datatype UntrustedAction = UntrustedReject | UntrustedStrip

fun UntrustedAction_String :: "UntrustedAction \<Rightarrow> string" where
  "UntrustedAction_String UntrustedReject = ''reject''"
| "UntrustedAction_String UntrustedStrip = ''strip''"

record TrustChecker =
  nets :: "ipnet list"
  all_trusted :: bool

text \<open>\<open>parseCIDROrIP\<close>; \<open>None\<close> is its error.\<close>

definition parseCIDROrIP :: "string \<Rightarrow> ipnet option" where
  "parseCIDROrIP s =
     (case ParseCIDR s of
        Some n \<Rightarrow> Some n
      | None \<Rightarrow>
          (case ParseIP s of
             None \<Rightarrow> None
           | Some b \<Rightarrow>
               (case To4 (Some b) of
                  Some v4 \<Rightarrow> Some \<lparr>NetIP = Some v4, NetMask = CIDRMask 32 32\<rparr>
                | None \<Rightarrow> Some \<lparr>NetIP = Some b, NetMask = CIDRMask 128 128\<rparr>)))"

text \<open>The loop of \<open>NewTrustChecker\<close>; the left side is the entry its error quotes.\<close>

fun parse_entries :: "string list \<Rightarrow> string + ipnet list" where
  "parse_entries [] = Inr []"
| "parse_entries (cidr # rest) =
     (case parseCIDROrIP cidr of
        None \<Rightarrow> Inl cidr
      | Some n \<Rightarrow> bindE (parse_entries rest) (\<lambda>ns. Inr (n # ns)))"

definition NewTrustChecker :: "string list \<Rightarrow> string + TrustChecker" where
  "NewTrustChecker cidrs =
     (if cidrs = [] then Inr \<lparr>nets = [], all_trusted = True\<rparr>
      else bindE (parse_entries cidrs) (\<lambda>ns. Inr \<lparr>nets = ns, all_trusted = False\<rparr>))"

text \<open>\<open>None\<close> is the nil checker.\<close>

definition IsTrusted :: "TrustChecker option \<Rightarrow> ip \<Rightarrow> bool" where
  "IsTrusted t p =
     (case t of
        None \<Rightarrow> True
      | Some tc \<Rightarrow> all_trusted tc \<or> (\<exists>n \<in> set (nets tc). Contains n p))"

text \<open>An address outside every configured entry is not trusted.\<close>

definition outside :: "string list \<Rightarrow> ip \<Rightarrow> bool" where
  "outside ns p \<longleftrightarrow> ns \<noteq> [] \<and> (\<forall>n \<in> set ns. \<forall>net. parseCIDROrIP n = Some net \<longrightarrow> \<not> Contains net p)"

lemma parse_entries_nets:
  "parse_entries ns = Inr ts \<Longrightarrow> t \<in> set ts \<Longrightarrow> \<exists>n \<in> set ns. parseCIDROrIP n = Some t"
  by (induction ns arbitrary: ts) (auto split: option.splits)

lemma outside_untrusted: "NewTrustChecker ns = Inr t \<Longrightarrow> outside ns p \<Longrightarrow> \<not> IsTrusted (Some t) p"
  using parse_entries_nets
  by (fastforce simp: NewTrustChecker_def outside_def IsTrusted_def split: if_splits)

section \<open>Networks as bit prefixes\<close>

text \<open>The bits of a byte string, most significant first, and the prefix test that a CIDR
  is meant to be.\<close>

definition byte_bits :: "byte \<Rightarrow> bool list" where
  "byte_bits b = map (\<lambda>i. bit b (7 - i)) [0..<8]"

definition bits :: "bytes \<Rightarrow> bool list" where
  "bits bs = concat (map byte_bits bs)"

lemma length_byte_bits [simp]: "length (byte_bits b) = 8"
  by (simp add: byte_bits_def)

lemma length_bits [simp]: "length (bits bs) = 8 * length bs"
  by (induction bs) (simp_all add: bits_def)

lemma bits_Cons: "bits (b # bs) = byte_bits b @ bits bs"
  by (simp add: bits_def)

lemma bit_mask_byte: "bit (mask_byte k) i \<longleftrightarrow> i < 8 \<and> 8 \<le> i + k"
proof -
  have ff: "(0xff :: byte) = mask 8" by (simp add: mask_eq_exp_minus_1)
  show ?thesis
    unfolding mask_byte_def ff by (auto simp: bit_simps)
qed

lemma mask_byte_eq_iff:
  "x AND mask_byte k = y AND mask_byte k \<longleftrightarrow> take k (byte_bits x) = take k (byte_bits y)"
proof
  assume *: "x AND mask_byte k = y AND mask_byte k"
  show "take k (byte_bits x) = take k (byte_bits y)"
  proof (rule nth_equalityI)
    fix i assume "i < length (take k (byte_bits x))"
    then have i: "i < k" "i < 8" by auto
    then have "bit (mask_byte k) (7 - i)" unfolding bit_mask_byte by arith
    with * have "bit x (7 - i) = bit y (7 - i)" by (metis bit_and_iff)
    with i show "take k (byte_bits x) ! i = take k (byte_bits y) ! i"
      by (simp add: byte_bits_def)
  qed simp
next
  assume *: "take k (byte_bits x) = take k (byte_bits y)"
  show "x AND mask_byte k = y AND mask_byte k"
  proof (rule bit_word_eqI)
    fix j assume "j < LENGTH(8)"
    then have j: "j < 8" by simp
    have "bit x j = bit y j" if "8 \<le> j + k"
    proof -
      from that j have "7 - j < k" by simp
      then have "byte_bits x ! (7 - j) = byte_bits y ! (7 - j)" using * by (metis nth_take)
      moreover have "[0..<8] ! (7 - j) = 7 - j" by (subst nth_upt) auto
      ultimately show ?thesis using j by (simp add: byte_bits_def)
    qed
    then show "bit (x AND mask_byte k) j = bit (y AND mask_byte k) j"
      by (auto simp: bit_and_iff bit_mask_byte)
  qed
qed

lemma and_bytes_Cons [simp]: "and_bytes (x # xs) (m # ms) = (x AND m) # and_bytes xs ms"
  by (simp add: and_bytes_def)

lemma and_bytes_Nil [simp]: "and_bytes [] ms = []" "and_bytes xs [] = []"
  by (simp_all add: and_bytes_def)

lemma and_bytes_eq_Nil [simp]: "and_bytes xs ms = [] \<longleftrightarrow> xs = [] \<or> ms = []"
  by (cases xs; cases ms) simp_all

lemma CIDRMask_eq_Nil [simp]: "CIDRMask n b = [] \<longleftrightarrow> b < 8"
  by (simp add: CIDRMask_def div_eq_0_iff)

lemma mask_list_Suc:
  "map (\<lambda>i. mask_byte (n - 8 * i)) [0..<Suc k] =
   mask_byte n # map (\<lambda>i. mask_byte ((n - 8) - 8 * i)) [0..<k]"
proof -
  have "[0..<Suc k] = 0 # map Suc [0..<k]" by (simp add: map_Suc_upt upt_conv_Cons)
  then show ?thesis by simp
qed

lemma mask_list_eq_iff:
  "length xs = k \<Longrightarrow> length ys = k \<Longrightarrow>
   and_bytes xs (map (\<lambda>i. mask_byte (n - 8 * i)) [0..<k]) =
   and_bytes ys (map (\<lambda>i. mask_byte (n - 8 * i)) [0..<k]) \<longleftrightarrow>
   take n (bits xs) = take n (bits ys)"
proof (induction k arbitrary: n xs ys)
  case (Suc k)
  from Suc.prems obtain x xs' y ys' where xy: "xs = x # xs'" "ys = y # ys'"
    "length xs' = k" "length ys' = k"
    by (metis length_Suc_conv)
  have "take n (bits xs) = take n (bits ys) \<longleftrightarrow>
        take n (byte_bits x) = take n (byte_bits y) \<and>
        take (n - 8) (bits xs') = take (n - 8) (bits ys')"
    by (simp add: xy bits_Cons)
  with Suc.IH [of xs' ys' "n - 8"] xy show ?case
    by (simp only: mask_list_Suc and_bytes_Cons list.inject mask_byte_eq_iff)
qed simp

lemma CIDRMask_eq_iff:
  assumes "length xs = b div 8" and "length ys = b div 8"
  shows "and_bytes xs (CIDRMask n b) = and_bytes ys (CIDRMask n b) \<longleftrightarrow>
         take n (bits xs) = take n (bits ys)"
  unfolding CIDRMask_def using assms by (rule mask_list_eq_iff)

lemma CIDRMask_mask_eq_iff:
  assumes "length xs = b div 8" and "length ys = b div 8"
  shows "and_bytes (and_bytes xs (CIDRMask n b)) (CIDRMask n b) = and_bytes ys (CIDRMask n b) \<longleftrightarrow>
         take n (bits xs) = take n (bits ys)"
  using CIDRMask_eq_iff [OF assms] by (simp add: and_bytes_idem)


text \<open>Masking the network number keeps an IPv6 prefix from turning into a mapped IPv4 one.\<close>

lemma CIDRMask_nth: "i < b div 8 \<Longrightarrow> CIDRMask n b ! i = mask_byte (n - 8 * i)"
  by (simp add: CIDRMask_def)

lemma and_mask_byte_full: "x AND mask_byte k = 0xff \<Longrightarrow> 8 \<le> k"
proof (rule ccontr)
  assume *: "x AND mask_byte k = 0xff" and "\<not> 8 \<le> k"
  have "bit (0xff :: byte) 0" by simp
  then have "bit (mask_byte k) 0" by (metis * bit_and_iff)
  with \<open>\<not> 8 \<le> k\<close> show False by (simp add: bit_mask_byte)
qed

lemma and_bytes_nth:
  "i < length xs \<Longrightarrow> length xs = length ms \<Longrightarrow> and_bytes xs ms ! i = xs ! i AND ms ! i"
  by (simp add: and_bytes_def)

lemma masked_not_mapped:
  assumes "length bs = 16" and "To4 (Some bs) = None"
  shows "To4 (Some (and_bytes bs (CIDRMask n 128))) = None"
proof (rule ccontr)
  let ?m = "and_bytes bs (CIDRMask n 128)"
  assume "To4 (Some ?m) \<noteq> None"
  with assms have pre: "take 12 ?m = v4_in_v6_prefix"
    by (auto simp: To4_def Let_def split: if_splits)
  have "?m ! 11 = take 12 ?m ! 11" by simp
  then have "bs ! 11 AND mask_byte (n - 88) = 0xff"
    unfolding pre by (simp add: v4_in_v6_prefix_def and_bytes_nth CIDRMask_nth assms nth_append)
  then have n: "96 \<le> n" using and_mask_byte_full [of "bs ! 11" "n - 88"] by simp
  have "take 12 ?m = take 12 bs"
  proof (rule nth_equalityI)
    fix i assume "i < length (take 12 ?m)"
    then have "i < 12" by simp
    with n have "8 \<le> n - 8 * i" by simp
    then have "mask_byte (n - 8 * i) = 0xff" by (simp add: mask_byte_def)
    with \<open>i < 12\<close> assms show "take 12 ?m ! i = take 12 bs ! i"
      by (simp add: and_bytes_nth CIDRMask_nth)
  qed (use assms in simp)
  with pre assms show False by (simp add: To4_def)
qed

section \<open>What a configured entry admits\<close>

lemma NewTrustChecker_single:
  "parseCIDROrIP s = Some n \<Longrightarrow> NewTrustChecker [s] = Inr \<lparr>nets = [n], all_trusted = False\<rparr>"
  by (simp add: NewTrustChecker_def)

lemma ParseAddr_v4_length: "ParseAddr s = Some (Addr4 bs) \<Longrightarrow> length bs = 4"
  using ParseAddr_length [of s "Addr4 bs"] by simp

lemma ParseCIDR_text:
  assumes "CHR ''/'' \<notin> set addr" and "ParseAddr addr = Some a" and "zone_of a = []"
    and "dtoi m = Some (n, [])" and "n \<le> bit_len a"
  shows "ParseCIDR (addr @ ''/'' @ m) =
         Some \<lparr>NetIP = ip_mask (Some (as16 a)) (CIDRMask n (bit_len a)),
               NetMask = CIDRMask n (bit_len a)\<rparr>"
  using assms by (simp add: ParseCIDR_def cut_at_append Let_def)

lemma Contains_v4_net:
  assumes "length bs = 4"
  shows "Contains \<lparr>NetIP = ip_mask (Some (v4_in_v6_prefix @ bs)) (CIDRMask n 32),
                   NetMask = CIDRMask n 32\<rparr> p \<longleftrightarrow>
         (\<exists>q. To4 p = Some q \<and> take n (bits q) = take n (bits bs))"
proof -
  let ?m = "CIDRMask n 32"
  have net: "ip_mask (Some (v4_in_v6_prefix @ bs)) ?m = Some (and_bytes bs ?m)"
    using assms by (simp add: ip_mask_def)
  have nn: "networkNumberAndMask \<lparr>NetIP = Some (and_bytes bs ?m), NetMask = ?m\<rparr> = (and_bytes bs ?m, ?m)"
    using assms by (simp add: networkNumberAndMask_def)
  show ?thesis
  proof (cases "To4 p")
    case None
    then have "length (ip_bytes p) \<noteq> 4" by (auto simp: To4_def Let_def)
    with None assms show ?thesis by (simp add: net Contains_def nn)
  next
    case (Some q)
    with To4_length [OF Some] assms show ?thesis
      using CIDRMask_mask_eq_iff [of bs 32 q n] by (auto simp: net Contains_def nn)
  qed
qed

lemma Contains_v6_net:
  assumes "length bs = 16" and "To4 (Some bs) = None"
  shows "Contains \<lparr>NetIP = ip_mask (Some bs) (CIDRMask n 128), NetMask = CIDRMask n 128\<rparr> p \<longleftrightarrow>
         (\<exists>q. p = Some q \<and> is_v6 p \<and> take n (bits q) = take n (bits bs))"
proof -
  let ?m = "CIDRMask n 128"
  have net: "ip_mask (Some bs) ?m = Some (and_bytes bs ?m)"
    using assms by (simp add: ip_mask_def)
  have nn: "networkNumberAndMask \<lparr>NetIP = Some (and_bytes bs ?m), NetMask = ?m\<rparr> = (and_bytes bs ?m, ?m)"
    using assms masked_not_mapped [OF assms] by (simp add: networkNumberAndMask_def Let_def)
  show ?thesis
  proof (cases "To4 p")
    case None
    then show ?thesis
      using assms CIDRMask_mask_eq_iff [of bs 128 "ip_bytes p" n]
      by (cases p) (auto simp: net Contains_def nn is_v6_def To16_def Let_def To4_def split: if_splits)
  next
    case (Some q)
    then show ?thesis
      using assms To4_length [OF Some] by (auto simp: net Contains_def nn is_v6_def)
  qed
qed

text \<open>
  C29. An IPv4 CIDR entry \<open>addr/n\<close> trusts exactly the peers that have an IPv4 form (4-byte
  or \<open>::ffff:\<close>-mapped) sharing its first \<open>n\<close> bits; no IPv6 peer is trusted by it.
\<close>

theorem trust_v4_cidr:
  assumes "CHR ''/'' \<notin> set addr" and "ParseAddr addr = Some (Addr4 bs)"
    and "dtoi m = Some (n, [])" and "n \<le> 32"
  shows "\<exists>t. NewTrustChecker [addr @ ''/'' @ m] = Inr t \<and>
             (\<forall>p. IsTrusted (Some t) p \<longleftrightarrow>
                  (\<exists>q. To4 p = Some q \<and> take n (bits q) = take n (bits bs)))"
proof -
  have "parseCIDROrIP (addr @ ''/'' @ m) =
        Some \<lparr>NetIP = ip_mask (Some (v4_in_v6_prefix @ bs)) (CIDRMask n 32), NetMask = CIDRMask n 32\<rparr>"
    using ParseCIDR_text [OF assms(1,2) _ assms(3)] assms(4) by (simp add: parseCIDROrIP_def)
  from NewTrustChecker_single [OF this] ParseAddr_v4_length [OF assms(2)] show ?thesis
    by (simp add: IsTrusted_def Contains_v4_net)
qed

text \<open>
  An IPv6 CIDR entry over a genuine IPv6 address trusts exactly the IPv6 peers sharing
  its first \<open>n\<close> bits: not even \<open>::/0\<close> admits an IPv4 peer.
\<close>

theorem trust_v6_cidr:
  assumes "CHR ''/'' \<notin> set addr" and "ParseAddr addr = Some (Addr6 bs [])"
    and "To4 (Some bs) = None" and "dtoi m = Some (n, [])" and "n \<le> 128"
  shows "\<exists>t. NewTrustChecker [addr @ ''/'' @ m] = Inr t \<and>
             (\<forall>p. IsTrusted (Some t) p \<longleftrightarrow>
                  (\<exists>q. p = Some q \<and> is_v6 p \<and> take n (bits q) = take n (bits bs)))"
proof -
  have len: "length bs = 16" using ParseAddr_length [OF assms(2)] by simp
  have "parseCIDROrIP (addr @ ''/'' @ m) =
        Some \<lparr>NetIP = ip_mask (Some bs) (CIDRMask n 128), NetMask = CIDRMask n 128\<rparr>"
    using ParseCIDR_text [OF assms(1,2) _ assms(4)] assms(5) by (simp add: parseCIDROrIP_def)
  from NewTrustChecker_single [OF this] show ?thesis
    by (simp add: IsTrusted_def Contains_v6_net [OF len assms(3)])
qed

text \<open>
  A bare address entry trusts exactly the one host it names, in whichever byte form the
  socket reports it.
\<close>

theorem trust_bare_ip:
  assumes "ParseCIDR s = None" and "ParseIP s = Some b"
  shows "\<exists>t. NewTrustChecker [s] = Inr t \<and> (\<forall>p. IsTrusted (Some t) p \<longleftrightarrow> To16 p = Some b)"
proof (cases "To4 (Some b)")
  case None
  have len: "length b = 16" using assms(2) by (rule ParseIP_length)
  have "parseCIDROrIP s = Some \<lparr>NetIP = Some b, NetMask = CIDRMask 128 128\<rparr>"
    using assms None by (simp add: parseCIDROrIP_def)
  moreover have "To16 p = Some b \<longleftrightarrow> p = Some b" for p
    using None len To4_To16 [of p b]
    by (cases p) (auto simp: To16_def Let_def To4_def split: if_splits)
  ultimately show ?thesis
    by (auto simp: NewTrustChecker_single IsTrusted_def Contains_host6 [OF len None])
next
  case (Some v4)
  have b: "b = v4_in_v6_prefix @ v4"
    using Some ParseIP_length [OF assms(2)] To16_To4 [OF Some] by (simp add: To16_def)
  have "parseCIDROrIP s = Some \<lparr>NetIP = Some v4, NetMask = CIDRMask 32 32\<rparr>"
    using assms Some by (simp add: parseCIDROrIP_def)
  moreover have "To16 p = Some b \<longleftrightarrow> To4 p = Some v4" for p
    using To16_To4 [of p v4] To4_To16 [of p b] Some by (auto simp: b)
  ultimately show ?thesis
    by (auto simp: NewTrustChecker_single IsTrusted_def Contains_host4 [OF To4_length [OF Some]])
qed

lemma parse_entries_ok:
  "(\<exists>ns. parse_entries cs = Inr ns) \<longleftrightarrow> (\<forall>s \<in> set cs. parseCIDROrIP s \<noteq> None)"
  by (induction cs) (auto split: option.splits)

lemma parse_entries_set:
  "parse_entries cs = Inr ns \<Longrightarrow> set ns = {n. \<exists>s \<in> set cs. parseCIDROrIP s = Some n}"
  by (induction cs arbitrary: ns) (auto split: option.splits)

lemma NewTrustChecker_ok:
  "(\<exists>t. NewTrustChecker cs = Inr t) \<longleftrightarrow> (\<forall>s \<in> set cs. ParseCIDR s \<noteq> None \<or> ParseIP s \<noteq> None)"
proof -
  have "parseCIDROrIP s \<noteq> None \<longleftrightarrow> ParseCIDR s \<noteq> None \<or> ParseIP s \<noteq> None" for s
    by (auto simp: parseCIDROrIP_def split: option.splits)
  then show ?thesis
    using parse_entries_ok [of cs] by (auto simp: NewTrustChecker_def)
qed

lemma IsTrusted_entries:
  assumes "NewTrustChecker cs = Inr t" and "cs \<noteq> []"
  shows "IsTrusted (Some t) p \<longleftrightarrow> (\<exists>s \<in> set cs. \<exists>n. parseCIDROrIP s = Some n \<and> Contains n p)"
proof -
  from assms obtain ns where "parse_entries cs = Inr ns"
    and t: "t = \<lparr>nets = ns, all_trusted = False\<rparr>"
    by (auto simp: NewTrustChecker_def)
  from parse_entries_set [OF this(1)] show ?thesis
    by (auto simp: t IsTrusted_def)
qed

text \<open>Trust does not depend on the byte form of the peer's address.\<close>

lemma IsTrusted_To16: "To16 p = Some bs \<Longrightarrow> IsTrusted t (Some bs) = IsTrusted t p"
  by (auto simp: IsTrusted_def Contains_To16 split: option.splits)

theorem trust_v4_cidr_witness:
  "\<exists>t. NewTrustChecker [''10.0.0.0/8''] = Inr t \<and>
       (\<forall>p. IsTrusted (Some t) p \<longleftrightarrow>
            (\<exists>q. To4 p = Some q \<and> take 8 (bits q) = take 8 (bits [10, 0, 0, 0])))"
proof -
  have "ParseAddr ''10.0.0.0'' = Some (Addr4 [10, 0, 0, 0])" by (simp add: parse_eval)
  moreover have "dtoi ''8'' = Some (8, [])" by (simp add: parse_eval)
  ultimately show ?thesis using trust_v4_cidr [of "''10.0.0.0''" "[10, 0, 0, 0]" "''8''" 8] by simp
qed

theorem trust_v6_cidr_witness:
  "\<exists>t. NewTrustChecker [''2001:db8::/32''] = Inr t \<and>
       (\<forall>p. IsTrusted (Some t) p \<longleftrightarrow>
            (\<exists>q. p = Some q \<and> is_v6 p \<and>
                 take 32 (bits q) = take 32 (bits ([0x20, 1, 0x0d, 0xb8] @ replicate 12 0))))"
proof -
  have "ParseAddr ''2001:db8::'' = Some (Addr6 ([0x20, 1, 0x0d, 0xb8] @ replicate 12 0) [])"
    by (simp add: parse_eval replicate_numeral)
  moreover have "dtoi ''32'' = Some (32, [])" by (simp add: parse_eval)
  moreover have "To4 (Some ([0x20, 1, 0x0d, 0xb8] @ replicate 12 0)) = None"
    by (simp add: To4_def v4_in_v6_prefix_def replicate_numeral)
  ultimately show ?thesis
    using trust_v6_cidr [of "''2001:db8::''" "[0x20, 1, 0x0d, 0xb8] @ replicate 12 0" "''32''" 32]
    by simp
qed

theorem trust_bare_ip_witness:
  "\<exists>t. NewTrustChecker [''10.0.0.1''] = Inr t \<and>
       (\<forall>p. IsTrusted (Some t) p \<longleftrightarrow> To16 p = Some (v4_in_v6_prefix @ [10, 0, 0, 1]))"
proof -
  have "ParseCIDR ''10.0.0.1'' = None" by (simp add: ParseCIDR_def)
  moreover have "ParseIP ''10.0.0.1'' = Some (v4_in_v6_prefix @ [10, 0, 0, 1])"
    by (simp add: parse_eval)
  ultimately show ?thesis by (rule trust_bare_ip)
qed

end
