(* ===== verification/Decide.thy ===== *)
theory Decide
  imports Trust
begin

text \<open>
  \<open>internal/gateway/decide.go\<close>: the admission pipeline both gateways call for every
  connection or datagram: trust first, then policy.
\<close>

section \<open>The pipeline\<close>

datatype Policy = PolicyUse | PolicyRequire | PolicyReject

fun Policy_String :: "Policy \<Rightarrow> string" where
  "Policy_String PolicyUse = ''use''"
| "Policy_String PolicyRequire = ''require''"
| "Policy_String PolicyReject = ''reject''"

text \<open>The second switch of \<open>Decide\<close>, on the source as the trust step left it.\<close>

definition decide_policy ::
    "Policy \<Rightarrow> Source \<Rightarrow> Header \<Rightarrow> AddrConn \<Rightarrow> string \<Rightarrow> Header \<times> Source \<times> bool \<times> string" where
  "decide_policy policy src hdr c reason =
     (if policy = PolicyReject \<and> src \<noteq> SourceDirect then (hdr, src, False, ''policy:forbids'')
      else if policy = PolicyRequire \<and> src = SourceDirect then (hdr, src, False, ''policy:requires'')
      else
        let hdr' = (if src = SourceDirect then HeaderFromConn c else hdr)
        in (hdr', src, True, reason))"

definition Decide ::
    "Policy \<Rightarrow> TrustChecker option \<Rightarrow> UntrustedAction \<Rightarrow> Source \<Rightarrow> Header \<Rightarrow> ip \<Rightarrow> AddrConn \<Rightarrow>
     Header \<times> Source \<times> bool \<times> string" where
  "Decide policy trust untrusted src hdr ip c =
     (if src \<noteq> SourceDirect \<and> \<not> IsTrusted trust ip then
        (case untrusted of
           UntrustedReject \<Rightarrow> (hdr, src, False, ''untrusted'')
         | UntrustedStrip \<Rightarrow> decide_policy policy SourceDirect (HeaderFromConn c) c ''strip'')
      else decide_policy policy src hdr c [])"

lemmas decide_defs = Decide_def decide_policy_def Let_def

section \<open>The contract of admission\<close>

text \<open>
  What the gateways rely on: an admitted PROXY source is the one presented, with its header
  untouched, by a trusted peer; an admitted direct source carries the socket's own addresses;
  a direct source is never turned into a PROXY source.
\<close>

locale admission =
  fixes decide :: "Source \<Rightarrow> Header \<Rightarrow> AddrConn \<Rightarrow> Header \<times> Source \<times> bool \<times> string"
    and trusted :: "ip \<Rightarrow> bool"
  assumes proxy_admitted:
      "decide src hdr c = (h, s, True, r) \<Longrightarrow> s \<noteq> SourceDirect \<Longrightarrow>
       s = src \<and> h = hdr \<and> trusted (RemoteIP c)"
    and direct_admitted:
      "decide src hdr c = (h, SourceDirect, True, r) \<Longrightarrow> h = HeaderFromConn c"
begin

text \<open>Whatever an untrusted peer sends, what is forwarded describes its socket.\<close>

lemma untrusted_socket_header:
  assumes "decide src hdr c = (h, s, True, r)" and "\<not> trusted (RemoteIP c)"
  shows "s = SourceDirect \<and> h = HeaderFromConn c"
  using assms proxy_admitted direct_admitted by blast

lemma admitted_header_cases:
  assumes "decide src hdr c = (h, s, True, r)"
  obtains (socket) "s = SourceDirect" "h = HeaderFromConn c"
    | (proxy) "s \<noteq> SourceDirect" "s = src" "h = hdr" "trusted (RemoteIP c)"
  using assms proxy_admitted direct_admitted by blast

lemma header_independent_of_untrusted_input:
  assumes "decide src1 hdr1 c = (h1, s1, True, r1)" and "decide src2 hdr2 c = (h2, s2, True, r2)"
    and "\<not> trusted (RemoteIP c)"
  shows "h1 = h2"
  using assms untrusted_socket_header by metis

end

interpretation adm: admission
  "\<lambda>src hdr c. Decide policy trust untrusted src hdr (RemoteIP c) c" "IsTrusted trust"
  for policy trust untrusted
  by unfold_locales (auto simp: decide_defs split: if_splits UntrustedAction.splits)

section \<open>Properties\<close>

text \<open>
  No spoofing: when the peer's socket address is not trusted, whatever header and source
  it presents, an admitted result is the socket's own direct header.
\<close>

theorem Decide_no_spoofing:
  assumes "\<not> IsTrusted trust (RemoteIP c)"
    and "Decide policy trust untrusted src hdr (RemoteIP c) c = (h, s, True, r)"
  shows "s = SourceDirect \<and> h = HeaderFromConn c"
  using assms(2,1) by (rule adm.untrusted_socket_header)

definition peer_conn :: AddrConn where
  "peer_conn = \<lparr>LocalAddr = TCPAddr (Some [10, 0, 0, 1]) 9000 [],
                RemoteAddr = TCPAddr (Some [192, 0, 2, 7]) 40000 []\<rparr>"

definition net10 :: TrustChecker where
  "net10 = \<lparr>nets = [\<lparr>NetIP = Some [10, 0, 0, 0], NetMask = [0xff, 0, 0, 0]\<rparr>], all_trusted = False\<rparr>"

lemma peer_conn_untrusted: "\<not> IsTrusted (Some net10) (RemoteIP peer_conn)"
  by (simp add: IsTrusted_def net10_def peer_conn_def RemoteIP_def Contains_def
      networkNumberAndMask_def Let_def)

theorem Decide_no_spoofing_witness:
  "\<exists>h s. Decide PolicyUse (Some net10) UntrustedStrip SourceV2
           zero_header (RemoteIP peer_conn) peer_conn = (h, s, True, ''strip'') \<and>
         s = SourceDirect \<and> h = HeaderFromConn peer_conn"
proof -
  have *: "Decide PolicyUse (Some net10) UntrustedStrip SourceV2 zero_header (RemoteIP peer_conn) peer_conn
        = (HeaderFromConn peer_conn, SourceDirect, True, ''strip'')"
    using peer_conn_untrusted by (simp add: decide_defs)
  from Decide_no_spoofing [OF peer_conn_untrusted *] * show ?thesis by blast
qed

text \<open>
  The admission table: which sources are admitted under each policy, trust and
  untrusted-action, in closed form, with the reason reported for every outcome.
\<close>

theorem Decide_table:
  "snd (snd (Decide policy trust untrusted src hdr ip c)) =
     (if src = SourceDirect then
        (if policy = PolicyRequire then (False, ''policy:requires'') else (True, []))
      else if IsTrusted trust ip then
        (if policy = PolicyReject then (False, ''policy:forbids'') else (True, []))
      else if untrusted = UntrustedReject then (False, ''untrusted'')
      else if policy = PolicyRequire then (False, ''policy:requires'') else (True, ''strip''))"
  by (auto simp: decide_defs split: UntrustedAction.splits)

end
