(* ===== verification/Stream.thy ===== *)
theory Stream
  imports Proxy_Proto
begin

text \<open>
  \<open>internal/proxyproto/goproxyproto/reader.go\<close> and \<open>writer.go\<close>: the adapters between the
  gateway's header type and the library go-proxyproto on TCP byte streams. What the library
  returns from \<open>gop.Read\<close> and what it does with a header to write are parameters.
\<close>

section \<open>Reading\<close>

text \<open>
  The outcomes of \<open>gop.Read\<close> the adapter tells apart: no signature, a \<open>net.Error\<close> timeout,
  any other error, or a parsed header with its version and the result of its \<open>TCPAddrs()\<close>
  (IP and port of both ends, \<open>None\<close> when the header is not a TCP one).
\<close>

datatype gop_read =
    GopNoProxyProtocol
  | GopTimeout
  | GopError string
  | GopHeader nat "((ip \<times> int) \<times> (ip \<times> int)) option"

datatype read_error = ReadFailed string | NonTCPHeader

definition stream_Read :: "gop_read \<Rightarrow> read_error + Header \<times> Source" where
  "stream_Read r =
     (case r of
        GopNoProxyProtocol \<Rightarrow> Inr (zero_header, SourceDirect)
      | GopTimeout \<Rightarrow> Inr (zero_header, SourceDirect)
      | GopError e \<Rightarrow> Inl (ReadFailed e)
      | GopHeader version addrs \<Rightarrow>
          (case addrs of
             None \<Rightarrow> Inl NonTCPHeader
           | Some ((sip, sport), (dip, dport)) \<Rightarrow>
               let out = zero_header\<lparr>SrcPort := word_of_int sport, DstPort := word_of_int dport\<rparr>;
                   out' = (case To4 sip of
                             Some v4 \<Rightarrow> out\<lparr>SrcIP := Some v4, DstIP := To4 dip, HFamily := FamilyTCP4\<rparr>
                           | None \<Rightarrow> out\<lparr>SrcIP := sip, DstIP := dip, HFamily := FamilyTCP6\<rparr>)
               in if version = 2 then Inr (out', SourceV2) else Inr (out', SourceV1)))"

section \<open>Writing\<close>

text \<open>The library header the adapter builds before calling its \<open>WriteTo\<close>.\<close>

datatype gop_header =
    GopUnknownV1
  | GopLocalV2
  | GopProxyFromAddrs nat net_addr net_addr

definition stream_header :: "nat \<Rightarrow> Header \<Rightarrow> gop_header" where
  "stream_header version hdr =
     (if HFamily hdr = FamilyUnspec then
        (if version = 1 then GopUnknownV1 else GopLocalV2)
      else GopProxyFromAddrs version
             (TCPAddr (SrcIP hdr) (uint (SrcPort hdr)) [])
             (TCPAddr (DstIP hdr) (uint (DstPort hdr)) []))"

text \<open>\<open>wr\<close> stands for the library's \<open>(*Header).WriteTo\<close>: the bytes written, or its error.\<close>

definition stream_WriteTo ::
    "(gop_header \<Rightarrow> string + bytes) \<Rightarrow> nat \<Rightarrow> Header \<Rightarrow> string + bytes" where
  "stream_WriteTo wr version hdr = wr (stream_header version hdr)"

section \<open>What a read header can look like\<close>

lemma stream_Read_direct:
  "stream_Read r = Inr (h, SourceDirect) \<Longrightarrow> h = zero_header \<and> (r = GopNoProxyProtocol \<or> r = GopTimeout)"
  by (auto simp: stream_Read_def Let_def split: gop_read.splits option.splits if_splits)

lemma stream_Read_fields:
  assumes "stream_Read (GopHeader v (Some ((sip, sp), (dip, dp)))) = Inr (h, s)"
  shows "HFamily h = (if is_v4 sip then FamilyTCP4 else FamilyTCP6)"
    and "SrcIP h = (if is_v4 sip then To4 sip else sip)"
    and "DstIP h = (if is_v4 sip then To4 dip else dip)"
    and "SrcPort h = word_of_int sp" and "DstPort h = word_of_int dp" and "TLVs h = []"
    and "s = (if v = 2 then SourceV2 else SourceV1)"
  using assms
  by (auto simp: stream_Read_def Let_def is_v4_def split: option.splits if_splits)

text \<open>
  A header read from the wire passes the family check exactly when its two ends are of
  one family: both IPv4 (in either byte form) or both genuine IPv6. Every mixed-family
  header a peer can craft is caught, and no consistent one is.
\<close>

theorem stream_Read_family:
  assumes "stream_Read (GopHeader v (Some ((sip, sp), (dip, dp)))) = Inr (h, s)"
  shows "FamilyMatchesAddrs h \<longleftrightarrow> (is_v4 sip \<and> is_v4 dip) \<or> (is_v6 sip \<and> is_v6 dip)"
proof (cases "is_v4 sip")
  case True
  then show ?thesis
    using stream_Read_fields [OF assms] by (simp add: FamilyMatchesAddrs_simps is_v4_not_v6)
next
  case False
  then show ?thesis
    using stream_Read_fields [OF assms] by (simp add: FamilyMatchesAddrs_simps)
qed

theorem stream_Read_family_witness:
  "\<exists>h. stream_Read (GopHeader 2 (Some ((Some (v4_in_v6_prefix @ [10, 0, 0, 7]), 4000),
                                        (Some (replicate 16 1), 80)))) = Inr (h, SourceV2) \<and>
       \<not> FamilyMatchesAddrs h"
proof -
  let ?r = "GopHeader 2 (Some ((Some (v4_in_v6_prefix @ [10, 0, 0, 7]), 4000),
                               (Some (replicate 16 1), 80)))"
  obtain h where h: "stream_Read ?r = Inr (h, SourceV2)"
    by (simp add: stream_Read_def Let_def)
  have "\<not> is_v4 (Some (replicate 16 (1 :: byte)))"
    by (simp add: is_v4_def To4_def v4_in_v6_prefix_def replicate_numeral)
  moreover have "is_v4 (Some (v4_in_v6_prefix @ [10, 0, 0, 7]))"
    by (simp add: is_v4_def)
  ultimately show ?thesis
    using stream_Read_family [OF h] h is_v4_not_v6 by blast
qed

text \<open>The zero header, which replaces a contradictory one, asks for the address-less form.\<close>

lemma stream_header_zero:
  "stream_header v zero_header = (if v = 1 then GopUnknownV1 else GopLocalV2)"
  by (simp add: stream_header_def)

end
