(* ===== verification/Steps.thy ===== *)
theory Steps
  imports Main
begin

text \<open>
  Step relations: the runs of interleaved goroutines, and the three things proved of them. A
  relation with an invariant keeps it along every run; one with a measure has bounded runs;
  one that is never stuck before its goal reaches it. The relations themselves are in the
  component theories, which interpret the locales below.
\<close>

section \<open>Paths\<close>

inductive stepn :: "('s \<Rightarrow> 's \<Rightarrow> bool) \<Rightarrow> nat \<Rightarrow> 's \<Rightarrow> 's \<Rightarrow> bool" for step :: "'s \<Rightarrow> 's \<Rightarrow> bool" where
  stepn_refl: "stepn step 0 s s"
| stepn_more: "stepn step n s t \<Longrightarrow> step t u \<Longrightarrow> stepn step (Suc n) s u"

definition reaches :: "('s \<Rightarrow> 's \<Rightarrow> bool) \<Rightarrow> 's \<Rightarrow> 's \<Rightarrow> bool" where
  "reaches step s t \<longleftrightarrow> (\<exists>n. stepn step n s t)"

lemma reaches_refl: "reaches step s s"
  unfolding reaches_def by (blast intro: stepn_refl)

lemma reaches_step: "reaches step s t \<Longrightarrow> step t u \<Longrightarrow> reaches step s u"
  unfolding reaches_def by (blast intro: stepn_more)

lemma reaches_induct [consumes 1, case_names refl step]:
  assumes "reaches step s t" and "P s"
    and "\<And>t u. reaches step s t \<Longrightarrow> P t \<Longrightarrow> step t u \<Longrightarrow> P u"
  shows "P t"
proof -
  obtain n where "stepn step n s t" using assms(1) unfolding reaches_def by blast
  then have "P s \<longrightarrow> (\<forall>t u. reaches step s t \<longrightarrow> P t \<longrightarrow> step t u \<longrightarrow> P u) \<longrightarrow> P t"
    by (induction rule: stepn.induct) (auto simp: reaches_def)
  then show ?thesis using assms(2,3) by blast
qed

lemma reaches_trans:
  assumes "reaches step s t" and "reaches step t u"
  shows "reaches step s u"
  using assms(2,1) by (induction rule: reaches_induct) (auto intro: reaches_step)

lemma stepn_reaches: "stepn step n s t \<Longrightarrow> reaches step s t"
  unfolding reaches_def by blast

lemma stepn_first: "stepn step n t u \<Longrightarrow> step s t \<Longrightarrow> stepn step (Suc n) s u"
proof (induction rule: stepn.induct)
  case (stepn_refl t)
  then show ?case by (rule stepn.stepn_more [OF stepn.stepn_refl])
qed (blast intro: stepn.stepn_more)

section \<open>Invariants\<close>

locale preserved =
  fixes step :: "'s \<Rightarrow> 's \<Rightarrow> bool" and inv :: "'s \<Rightarrow> bool"
  assumes inv_step: "step s t \<Longrightarrow> inv s \<Longrightarrow> inv t"
begin

lemma inv_reaches: "reaches step s t \<Longrightarrow> inv s \<Longrightarrow> inv t"
proof (induction rule: reaches_induct)
  case (step t u)
  then show ?case using inv_step [of t u] by simp
qed

lemma inv_stepn: "stepn step n s t \<Longrightarrow> inv s \<Longrightarrow> inv t"
  by (rule inv_reaches [OF stepn_reaches])

end

section \<open>Termination\<close>

text \<open>A measure that every step decreases, while the invariant holds.\<close>

locale bounded = preserved step inv for step :: "'s \<Rightarrow> 's \<Rightarrow> bool" and inv +
  fixes left :: "'s \<Rightarrow> nat"
  assumes left_step: "step s t \<Longrightarrow> inv s \<Longrightarrow> left t < left s"
begin

lemma left_stepn: "stepn step n s t \<Longrightarrow> inv s \<Longrightarrow> n + left t \<le> left s"
proof (induction rule: stepn.induct)
  case (stepn_more n s t u)
  then show ?case using left_step [of t u] inv_stepn [of n s t] by fastforce
qed simp

lemma stepn_bound: "stepn step n s t \<Longrightarrow> inv s \<Longrightarrow> n \<le> left s"
  using left_stepn by fastforce

end

text \<open>A bounded system that is stuck only where it may be.\<close>

locale finishing = bounded step inv left for step :: "'s \<Rightarrow> 's \<Rightarrow> bool" and inv left +
  fixes finished :: "'s \<Rightarrow> bool"
  assumes stuck_finished: "inv s \<Longrightarrow> \<nexists>t. step s t \<Longrightarrow> finished s"
begin

text \<open>Every run can be continued to a finished state, and every run that cannot be is one.\<close>

lemma can_finish: "inv s \<Longrightarrow> \<exists>n t. stepn step n s t \<and> finished t"
proof (induction "left s" arbitrary: s rule: less_induct)
  case less
  show ?case
  proof (cases "\<exists>t. step s t")
    case True
    then obtain t where t: "step s t" by blast
    with less left_step inv_step obtain n u where "stepn step n t u" "finished u" by blast
    then show ?thesis using stepn_first [of step n t u s] t by blast
  next
    case False
    then show ?thesis using stuck_finished [OF less.prems] stepn_refl [of step s] by blast
  qed
qed

lemma stuck_stepn: "stepn step n s t \<Longrightarrow> inv s \<Longrightarrow> \<nexists>u. step t u \<Longrightarrow> finished t"
  using stuck_finished inv_stepn by blast

end

end
