(* ===== verification/Tcp_Gateway.thy ===== *)
theory Tcp_Gateway
  imports Decide Stream Steps
begin

text \<open>
  \<open>internal/gateway/gateway.go\<close>: the TCP gateway. \<open>handle\<close> is modelled as the trace of
  effects one connection causes, given what its reader, dialer and writer return; \<open>Serve\<close>
  as the interleaving of the accept loop with the handler goroutines on the shared counter.
\<close>

section \<open>The gateway's configuration\<close>

datatype FamilyMismatchAction = FamilyMismatchReject | FamilyMismatchUnknown | FamilyMismatchLegacy

fun FamilyMismatchAction_String :: "FamilyMismatchAction \<Rightarrow> string" where
  "FamilyMismatchAction_String FamilyMismatchReject = ''reject''"
| "FamilyMismatchAction_String FamilyMismatchUnknown = ''unknown''"
| "FamilyMismatchAction_String FamilyMismatchLegacy = ''legacy''"

record Gateway =
  g_policy :: Policy
  g_upstream :: string
  g_detectTimeout :: duration
  g_pipeIdleTimeout :: duration
  g_trust :: "TrustChecker option"
  g_untrusted :: UntrustedAction
  g_mixedFamily :: FamilyMismatchAction
  g_maxConns :: int

section \<open>One connection: handle\<close>

datatype log_level = LevelDebug | LevelInfo | LevelWarn | LevelError

text \<open>
  The effects of \<open>handle\<close> in order. A read deadline is set to a duration from now or
  cleared; \<open>Pipe\<close> is the call of \<open>pipeStream\<close> with its idle timeout; the two closes are
  the deferred ones.
\<close>

datatype tcp_effect =
    SetReadDeadline "duration option"
  | ReadHeader
  | Log log_level string
  | Dial string
  | WriteHeader Header
  | Pipe duration
  | CloseUpstream
  | CloseClient

text \<open>What the outside answers: the injected reader, dialer and writer.\<close>

record tcp_env =
  env_addrs :: AddrConn
  env_read :: "read_error + Header \<times> Source"
  env_dial_err :: "string option"
  env_write_err :: "Header \<Rightarrow> string option"

definition rejection_log :: "string \<Rightarrow> tcp_effect list" where
  "rejection_log reason =
     (if reason = ''untrusted'' then [Log LevelInfo ''rejected: untrusted source with PROXY header'']
      else if reason = ''policy:forbids'' then [Log LevelInfo ''rejected: policy forbids PROXY header'']
      else if reason = ''policy:requires'' then [Log LevelInfo ''rejected: policy requires PROXY header'']
      else [])"

text \<open>From the dial to the pipe, with the deferred close of the upstream.\<close>

definition forward :: "Gateway \<Rightarrow> tcp_env \<Rightarrow> Header \<Rightarrow> tcp_effect list" where
  "forward g env hdr =
     [Log LevelInfo ''accept'', Dial (g_upstream g)] @
     (case env_dial_err env of
        Some e \<Rightarrow> [Log LevelWarn ''downstream dial failed'']
      | None \<Rightarrow>
          [WriteHeader hdr] @
          (case env_write_err env hdr of
             Some e \<Rightarrow> [Log LevelError ''write header to downstream'']
           | None \<Rightarrow> [Pipe (g_pipeIdleTimeout g)]) @
          [CloseUpstream])"

text \<open>The address-family guard on the header after \<open>Decide\<close>.\<close>

definition family_guard :: "Gateway \<Rightarrow> tcp_env \<Rightarrow> Header \<Rightarrow> tcp_effect list" where
  "family_guard g env hdr =
     (if g_mixedFamily g \<noteq> FamilyMismatchLegacy \<and> \<not> FamilyMatchesAddrs hdr then
        (if g_mixedFamily g = FamilyMismatchReject
         then [Log LevelInfo ''rejected: header family contradicts its addresses'']
         else Log LevelInfo ''family mismatch: forwarding address-less header'' #
              forward g env zero_header)
      else forward g env hdr)"

definition after_read :: "Gateway \<Rightarrow> tcp_env \<Rightarrow> Header \<Rightarrow> Source \<Rightarrow> tcp_effect list" where
  "after_read g env hdr0 src0 =
     (let c = env_addrs env;
          (hdr, src, allow, reason) =
            Decide (g_policy g) (g_trust g) (g_untrusted g) src0 hdr0 (RemoteIP c) c
      in (if reason = ''strip'' then [Log LevelInfo ''stripped: untrusted source PROXY header''] else []) @
         (if \<not> allow then rejection_log reason else family_guard g env hdr))"

definition handle_body :: "Gateway \<Rightarrow> tcp_env \<Rightarrow> tcp_effect list" where
  "handle_body g env =
     (if g_detectTimeout g > 0 then [SetReadDeadline (Some (g_detectTimeout g))] else []) @
     [ReadHeader] @
     (if g_detectTimeout g > 0 then [SetReadDeadline None] else []) @
     (case env_read env of
        Inl e \<Rightarrow> [Log LevelError ''malformed upstream header'']
      | Inr (hdr, src) \<Rightarrow> after_read g env hdr src)"

text \<open>The whole handler: its body, then the deferred close of the client.\<close>

definition handle :: "Gateway \<Rightarrow> tcp_env \<Rightarrow> tcp_effect list" where
  "handle g env = handle_body g env @ [CloseClient]"

section \<open>Accepting connections: Serve\<close>

text \<open>
  Errors of \<open>Accept\<close> and \<open>ReadFromUDP\<close>: an errno, a \<open>net.Error\<close> that is a timeout,
  \<open>net.ErrClosed\<close>, or anything else. An errno is itself a \<open>net.Error\<close>, whose \<open>Timeout()\<close>
  holds for the second set.
\<close>

datatype net_err = ErrErrno string | ErrTimeout | ErrNetClosed | ErrOther string

definition IsTemporaryNetError :: "net_err \<Rightarrow> bool" where
  "IsTemporaryNetError e =
     (case e of
        ErrErrno n \<Rightarrow>
          n \<in> {''EINTR'', ''EAGAIN'', ''EMFILE'', ''ENFILE''} \<or>
          n \<in> {''EAGAIN'', ''EWOULDBLOCK'', ''ETIMEDOUT''}
      | ErrTimeout \<Rightarrow> True
      | _ \<Rightarrow> False)"

text \<open>
  The accept loop's position between two atomic actions. \<open>Counted c n\<close> is after
  \<open>active.Add(1)\<close> returned \<open>n\<close>; \<open>Returned None\<close> is the nil result on a closed listener.
\<close>

datatype serve_pc =
    Accepting
  | Counted nat int
  | RollingBack nat
  | Spawning nat
  | Sleeping
  | Returned "net_err option"

text \<open>
  The shared state: the atomic counter, the connections whose handler runs, those whose
  handler has returned but whose deferred decrement has not run, the connections closed over
  the limit, and how many handlers have finished completely.
\<close>

record serve_state =
  active :: int
  live :: "nat list"
  deferring :: "nat list"
  refused :: "nat list"
  finished :: nat
  serve_pc :: serve_pc

definition serve_init :: serve_state where
  "serve_init = \<lparr>active = 0, live = [], deferring = [], refused = [], finished = 0,
                 serve_pc = Accepting\<rparr>"

inductive serve_step :: "int \<Rightarrow> serve_state \<Rightarrow> serve_state \<Rightarrow> bool" for maxConns :: int where
  accept_counted:
    "serve_pc s = Accepting \<Longrightarrow> maxConns > 0 \<Longrightarrow>
     serve_step maxConns s (s\<lparr>active := active s + 1, serve_pc := Counted c (active s + 1)\<rparr>)"
| accept_uncounted:
    "serve_pc s = Accepting \<Longrightarrow> \<not> maxConns > 0 \<Longrightarrow>
     serve_step maxConns s (s\<lparr>serve_pc := Spawning c\<rparr>)"
| over_limit:
    "serve_pc s = Counted c n \<Longrightarrow> n > maxConns \<Longrightarrow>
     serve_step maxConns s (s\<lparr>active := active s - 1, serve_pc := RollingBack c\<rparr>)"
| refuse:
    "serve_pc s = RollingBack c \<Longrightarrow>
     serve_step maxConns s (s\<lparr>refused := c # refused s, serve_pc := Accepting\<rparr>)"
| within_limit:
    "serve_pc s = Counted c n \<Longrightarrow> \<not> n > maxConns \<Longrightarrow>
     serve_step maxConns s (s\<lparr>serve_pc := Spawning c\<rparr>)"
| spawn:
    "serve_pc s = Spawning c \<Longrightarrow>
     serve_step maxConns s (s\<lparr>live := c # live s, serve_pc := Accepting\<rparr>)"
| accept_temporary:
    "serve_pc s = Accepting \<Longrightarrow> e \<noteq> ErrNetClosed \<Longrightarrow> IsTemporaryNetError e \<Longrightarrow>
     serve_step maxConns s (s\<lparr>serve_pc := Sleeping\<rparr>)"
| wake:
    "serve_pc s = Sleeping \<Longrightarrow> serve_step maxConns s (s\<lparr>serve_pc := Accepting\<rparr>)"
| accept_closed:
    "serve_pc s = Accepting \<Longrightarrow> serve_step maxConns s (s\<lparr>serve_pc := Returned None\<rparr>)"
| accept_failed:
    "serve_pc s = Accepting \<Longrightarrow> e \<noteq> ErrNetClosed \<Longrightarrow> \<not> IsTemporaryNetError e \<Longrightarrow>
     serve_step maxConns s (s\<lparr>serve_pc := Returned (Some e)\<rparr>)"
| handler_returns:
    "live s = xs @ c # ys \<Longrightarrow>
     serve_step maxConns s (s\<lparr>live := xs @ ys, deferring := c # deferring s\<rparr>)"
| handler_decrements:
    "deferring s = xs @ c # ys \<Longrightarrow>
     serve_step maxConns s
       (s\<lparr>deferring := xs @ ys, active := active s - 1, finished := Suc (finished s)\<rparr>)"

abbreviation serve_reachable :: "int \<Rightarrow> serve_state \<Rightarrow> bool" where
  "serve_reachable maxConns s \<equiv> reaches (serve_step maxConns) serve_init s"

inductive_cases serve_stepE: "serve_step maxConns s t"


section \<open>The connection cap\<close>

definition in_flight :: "serve_state \<Rightarrow> int" where
  "in_flight s = int (length (live s)) + int (length (deferring s))"

definition cap_inv :: "int \<Rightarrow> serve_state \<Rightarrow> bool" where
  "cap_inv maxConns s \<longleftrightarrow>
     (case serve_pc s of
        Counted c n \<Rightarrow> active s = in_flight s + 1 \<and> active s \<le> n \<and> in_flight s \<le> maxConns
      | Spawning c \<Rightarrow> active s = in_flight s + 1 \<and> active s \<le> maxConns
      | _ \<Rightarrow> active s = in_flight s \<and> in_flight s \<le> maxConns)"

lemma cap_inv_init: "maxConns > 0 \<Longrightarrow> cap_inv maxConns serve_init"
  by (simp add: cap_inv_def serve_init_def in_flight_def)

lemma cap_inv_step:
  "serve_step maxConns s t \<Longrightarrow> maxConns > 0 \<Longrightarrow> cap_inv maxConns s \<Longrightarrow> cap_inv maxConns t"
  by (induction rule: serve_step.induct)
     (auto simp: cap_inv_def in_flight_def split: serve_pc.splits)

interpretation capped: preserved "serve_step maxConns" "\<lambda>s. maxConns > 0 \<and> cap_inv maxConns s"
  for maxConns
  by unfold_locales (blast intro: cap_inv_step)

lemma reachable_cap_inv: "serve_reachable maxConns s \<Longrightarrow> maxConns > 0 \<Longrightarrow> cap_inv maxConns s"
  using capped.inv_reaches cap_inv_init by blast

text \<open>
  C6. With \<open>tcp.max-connections\<close> positive, no interleaving of the accept loop with finishing
  handlers ever runs more handlers than the cap, and whenever the loop is back at accept the
  counter is the exact number of handlers that have not fully finished.
\<close>

theorem connection_cap:
  assumes "serve_reachable maxConns s" and "maxConns > 0"
  shows "int (length (live s)) + int (length (deferring s)) \<le> maxConns \<and>
         (serve_pc s = Accepting \<longrightarrow> active s = int (length (live s)) + int (length (deferring s)))"
  using reachable_cap_inv [OF assms]
  by (auto simp: cap_inv_def in_flight_def split: serve_pc.splits)

text \<open>
  A connection is counted as over the limit only when exactly the cap's number of handlers
  is in flight: below the cap none is refused.
\<close>

theorem refused_only_at_cap:
  assumes "serve_reachable maxConns s" and "maxConns > 0"
    and "serve_pc s = Accepting" and "serve_step maxConns s t" and "serve_pc t = Counted c n"
  shows "n > maxConns \<longleftrightarrow> int (length (live s)) + int (length (deferring s)) = maxConns"
  using reachable_cap_inv [OF assms(1,2)] assms(3-5)
  by (auto elim!: serve_stepE simp: cap_inv_def in_flight_def)

definition uncapped_inv :: "serve_state \<Rightarrow> bool" where
  "uncapped_inv s \<longleftrightarrow> active s = - int (finished s) \<and> (\<forall>c n. serve_pc s \<noteq> Counted c n)"

lemma uncapped_inv_step:
  "serve_step maxConns s t \<Longrightarrow> maxConns \<le> 0 \<Longrightarrow> uncapped_inv s \<Longrightarrow> uncapped_inv t"
  by (induction rule: serve_step.induct) (auto simp: uncapped_inv_def)

interpretation uncapped: preserved "serve_step maxConns" "\<lambda>s. maxConns \<le> 0 \<and> uncapped_inv s"
  for maxConns
  by unfold_locales (blast intro: uncapped_inv_step)

lemma reachable_uncapped_inv:
  assumes "serve_reachable maxConns s" and "maxConns \<le> 0"
  shows "uncapped_inv s"
proof -
  have "uncapped_inv serve_init" by (simp add: uncapped_inv_def serve_init_def)
  with uncapped.inv_reaches [OF assms(1)] assms(2) show ?thesis by blast
qed

text \<open>
  With the cap disabled the counter is decremented by every finished handler and never
  incremented: it is minus the number of finished handlers, not the number of live ones.
\<close>

theorem uncapped_counter_negative:
  assumes "serve_reachable maxConns s" and "maxConns \<le> 0"
  shows "active s = - int (finished s)"
  using reachable_uncapped_inv [OF assms] by (simp add: uncapped_inv_def)

section \<open>What one connection does\<close>

lemmas handle_defs =
  handle_def handle_body_def after_read_def family_guard_def forward_def rejection_log_def Let_def

lemma handle_body_no_close: "CloseClient \<notin> set (handle_body g env)"
  by (auto simp: handle_defs split: prod.splits option.splits sum.splits)

lemma close_upstream_iff:
  "CloseUpstream \<in> set (handle_body g env) \<longleftrightarrow>
   Dial (g_upstream g) \<in> set (handle_body g env) \<and> env_dial_err env = None"
  by (auto simp: handle_defs split: prod.splits option.splits sum.splits if_splits)

text \<open>
  The client connection is closed on every path, exactly once and last; the upstream is
  closed exactly when it was dialled successfully.
\<close>

theorem handle_closes:
  "(\<exists>pre. handle g env = pre @ [CloseClient] \<and> CloseClient \<notin> set pre) \<and>
   (CloseUpstream \<in> set (handle g env) \<longleftrightarrow>
      Dial (g_upstream g) \<in> set (handle g env) \<and> env_dial_err env = None)"
  using handle_body_no_close [of g env] close_upstream_iff [of g env] by (auto simp: handle_def)


text \<open>
  The header a connection is answered for downstream: nothing, the admitted header, or the
  address-less one. The handler is this decision followed by the dial.
\<close>

definition outgoing :: "Gateway \<Rightarrow> tcp_env \<Rightarrow> Header option" where
  "outgoing g env =
     (case env_read env of
        Inl e \<Rightarrow> None
      | Inr (hdr0, src0) \<Rightarrow>
          (case Decide (g_policy g) (g_trust g) (g_untrusted g) src0 hdr0
                  (RemoteIP (env_addrs env)) (env_addrs env) of
             (hdr, src, allow, reason) \<Rightarrow>
               if \<not> allow then None
               else if g_mixedFamily g = FamilyMismatchLegacy \<or> FamilyMatchesAddrs hdr then Some hdr
               else if g_mixedFamily g = FamilyMismatchReject then None
               else Some zero_header))"

text \<open>The effects that touch neither the upstream nor the close of the client.\<close>

fun local_effect :: "tcp_effect \<Rightarrow> bool" where
  "local_effect (SetReadDeadline d) = True"
| "local_effect ReadHeader = True"
| "local_effect (Log l m) = True"
| "local_effect _ = False"

lemma rejection_log_local: "list_all local_effect (rejection_log r)"
  by (simp add: rejection_log_def)

lemma family_guard_split:
  "\<exists>pre. family_guard g env h =
     pre @ (if g_mixedFamily g = FamilyMismatchLegacy \<or> FamilyMatchesAddrs h then forward g env h
            else if g_mixedFamily g = FamilyMismatchReject then []
            else forward g env zero_header) \<and> list_all local_effect pre"
proof -
  consider (ok) "g_mixedFamily g = FamilyMismatchLegacy \<or> FamilyMatchesAddrs h"
    | (reject) "g_mixedFamily g = FamilyMismatchReject" "\<not> FamilyMatchesAddrs h"
    | (unknown) "g_mixedFamily g = FamilyMismatchUnknown" "\<not> FamilyMatchesAddrs h"
    by (cases "g_mixedFamily g") auto
  then show ?thesis
  proof cases
    case ok
    then show ?thesis by (intro exI [of _ "[]"]) (auto simp: family_guard_def)
  next
    case reject
    then show ?thesis
      by (intro exI [of _ "[Log LevelInfo ''rejected: header family contradicts its addresses'']"])
         (simp add: family_guard_def)
  next
    case unknown
    then show ?thesis
      by (intro exI [of _ "[Log LevelInfo ''family mismatch: forwarding address-less header'']"])
         (simp add: family_guard_def)
  qed
qed

lemma after_read_split:
  assumes "env_read env = Inr (h0, s0)"
  shows "\<exists>pre. after_read g env h0 s0 =
     pre @ (case outgoing g env of None \<Rightarrow> [] | Some h \<Rightarrow> forward g env h) \<and>
     list_all local_effect pre"
proof -
  let ?dec = "Decide (g_policy g) (g_trust g) (g_untrusted g) s0 h0
      (RemoteIP (env_addrs env)) (env_addrs env)"
  obtain h s a m where d: "?dec = (h, s, a, m)"
    by (cases ?dec) auto
  let ?l = "if m = ''strip'' then [Log LevelInfo ''stripped: untrusted source PROXY header''] else []"
  show ?thesis
  proof (cases a)
    case False
    then show ?thesis
      by (intro exI [of _ "?l @ rejection_log m"])
         (simp add: after_read_def outgoing_def assms d rejection_log_local)
  next
    case True
    obtain pre where "family_guard g env h =
       pre @ (if g_mixedFamily g = FamilyMismatchLegacy \<or> FamilyMatchesAddrs h then forward g env h
              else if g_mixedFamily g = FamilyMismatchReject then []
              else forward g env zero_header)" and "list_all local_effect pre"
      using family_guard_split by blast
    with True show ?thesis
      by (intro exI [of _ "?l @ pre"])
         (simp add: after_read_def outgoing_def assms d)
  qed
qed

lemma handle_body_split:
  "\<exists>pre. handle_body g env = pre @ (case outgoing g env of None \<Rightarrow> [] | Some h \<Rightarrow> forward g env h) \<and>
         list_all local_effect pre"
proof (cases "env_read env")
  case (Inl e)
  then show ?thesis
    by (intro exI [of _ "handle_body g env"]) (simp add: handle_body_def outgoing_def)
next
  case (Inr r)
  obtain h0 s0 where r: "r = (h0, s0)" by (cases r)
  from after_read_split [OF Inr [unfolded r]] obtain pre where
    "after_read g env h0 s0 = pre @ (case outgoing g env of None \<Rightarrow> [] | Some h \<Rightarrow> forward g env h)"
    and "list_all local_effect pre"
    by blast
  then show ?thesis
    by (intro exI [of _ "(if g_detectTimeout g > 0 then [SetReadDeadline (Some (g_detectTimeout g))] else []) @
       [ReadHeader] @ (if g_detectTimeout g > 0 then [SetReadDeadline None] else []) @ pre"])
       (simp add: handle_body_def Inr r)
qed

text \<open>
  The handler dials exactly when there is a header to send, writes that header and no
  other as the first bytes downstream, and pipes only after the header was written: the
  effects after the decision are, in this order, dial, header, pipe, close, close.
\<close>

theorem handle_forwards:
  "\<exists>pre. handle g env =
     pre @ (case outgoing g env of
              None \<Rightarrow> []
            | Some h \<Rightarrow>
                [Log LevelInfo ''accept'', Dial (g_upstream g)] @
                (case env_dial_err env of
                   Some e \<Rightarrow> [Log LevelWarn ''downstream dial failed'']
                 | None \<Rightarrow>
                     WriteHeader h #
                     (case env_write_err env h of
                        Some e \<Rightarrow> [Log LevelError ''write header to downstream'']
                      | None \<Rightarrow> [Pipe (g_pipeIdleTimeout g)]) @ [CloseUpstream])) @
     [CloseClient] \<and>
     list_all local_effect pre"
proof -
  from handle_body_split [of g env] obtain pre where
    "handle_body g env = pre @ (case outgoing g env of None \<Rightarrow> [] | Some h \<Rightarrow> forward g env h)" and
    "list_all local_effect pre"
    by blast
  then show ?thesis
    by (intro exI [of _ pre]) (simp add: handle_def forward_def split: option.split)
qed

lemma WriteHeader_outgoing: "WriteHeader h \<in> set (handle g env) \<Longrightarrow> outgoing g env = Some h"
proof -
  assume *: "WriteHeader h \<in> set (handle g env)"
  obtain pre where
    "handle_body g env = pre @ (case outgoing g env of None \<Rightarrow> [] | Some h \<Rightarrow> forward g env h)" and
    "list_all local_effect pre"
    using handle_body_split [of g env] by blast
  with * show ?thesis
    by (auto simp: handle_def forward_def list_all_iff split: option.splits)
qed

lemma outgoing_decided:
  assumes "outgoing g env = Some h"
  obtains h0 s0 h' s' r where "env_read env = Inr (h0, s0)"
    and "Decide (g_policy g) (g_trust g) (g_untrusted g) s0 h0
           (RemoteIP (env_addrs env)) (env_addrs env) = (h', s', True, r)"
    and "h = h' \<and> (g_mixedFamily g = FamilyMismatchLegacy \<or> FamilyMatchesAddrs h') \<or>
         h = zero_header \<and> g_mixedFamily g = FamilyMismatchUnknown \<and> \<not> FamilyMatchesAddrs h'"
  using assms that
  by (auto simp: outgoing_def split: sum.splits prod.splits if_splits)
     (metis FamilyMismatchAction.exhaust)+

text \<open>
  C28. Unless the legacy mode is chosen, what the writer is given downstream is either the
  address-less form or a pair of addresses of one family: the library's silent coercion of
  mixed families is never reached.
\<close>

theorem no_mixed_family_downstream:
  assumes "g_mixedFamily g \<noteq> FamilyMismatchLegacy" and "WriteHeader h \<in> set (handle g env)"
  shows "stream_header v h \<in> {GopUnknownV1, GopLocalV2} \<or>
         (\<exists>s sp d dp. stream_header v h = GopProxyFromAddrs v (TCPAddr s sp []) (TCPAddr d dp []) \<and>
            (is_v4 s \<and> is_v4 d \<or> is_v6 s \<and> is_v6 d))"
proof -
  from WriteHeader_outgoing [OF assms(2)] have "FamilyMatchesAddrs h \<or> h = zero_header"
    by (rule outgoing_decided) (use assms(1) in blast)
  then show ?thesis
    by (cases "HFamily h") (auto simp: stream_header_def FamilyMatchesAddrs_simps)
qed

lemma untrusted_tcp:
  assumes "\<not> IsTrusted (g_trust g) (RemoteIP (env_addrs env))"
    and "WriteHeader h \<in> set (handle g env)"
  shows "h = HeaderFromConn (env_addrs env) \<or>
         h = zero_header \<and> \<not> FamilyMatchesAddrs (HeaderFromConn (env_addrs env))"
proof -
  from WriteHeader_outgoing [OF assms(2)] obtain h0 s0 h' s' r where
    d: "Decide (g_policy g) (g_trust g) (g_untrusted g) s0 h0
          (RemoteIP (env_addrs env)) (env_addrs env) = (h', s', True, r)"
    and h: "h = h' \<or> h = zero_header \<and> \<not> FamilyMatchesAddrs h'"
    by (rule outgoing_decided) blast
  from adm.untrusted_socket_header [OF d assms(1)] h show ?thesis by auto
qed

text \<open>
  C2. End to end on TCP: when the peer's socket address is not trusted, a header written
  downstream is the one built from the socket, whatever header the peer sent.
\<close>

theorem tcp_no_spoofing:
  assumes "\<not> IsTrusted (g_trust g) (RemoteIP (env_addrs env))"
    and "WriteHeader h \<in> set (handle g env)"
  shows "h = HeaderFromConn (env_addrs env) \<or>
         h = zero_header \<and> \<not> FamilyMatchesAddrs (HeaderFromConn (env_addrs env))"
  using assms by (rule untrusted_tcp)

section \<open>Witnesses\<close>

definition direct_env :: tcp_env where
  "direct_env = \<lparr>env_addrs = peer_conn, env_read = Inr (zero_header, SourceDirect),
                 env_dial_err = None, env_write_err = (\<lambda>_. None)\<rparr>"

definition plain_gateway :: Gateway where
  "plain_gateway = \<lparr>g_policy = PolicyUse, g_upstream = ''127.0.0.1:9001'',
     g_detectTimeout = 1000000000, g_pipeIdleTimeout = 300000000000, g_trust = Some net10,
     g_untrusted = UntrustedReject, g_mixedFamily = FamilyMismatchReject, g_maxConns = 2\<rparr>"

lemma peer_conn_header:
  "HeaderFromConn peer_conn = mk_peer_header \<Longrightarrow> FamilyMatchesAddrs mk_peer_header"
  by (auto simp: peer_conn_def HeaderFromConn_def FamilyMatchesAddrs_simps)

lemma plain_writes: "WriteHeader (HeaderFromConn peer_conn) \<in> set (handle plain_gateway direct_env)"
  using peer_conn_header
  by (auto simp: handle_defs plain_gateway_def direct_env_def decide_defs)

theorem no_mixed_family_downstream_witness:
  "stream_header 2 (HeaderFromConn peer_conn) \<in> {GopUnknownV1, GopLocalV2} \<or>
   (\<exists>s sp d dp. stream_header 2 (HeaderFromConn peer_conn) =
        GopProxyFromAddrs 2 (TCPAddr s sp []) (TCPAddr d dp []) \<and>
        (is_v4 s \<and> is_v4 d \<or> is_v6 s \<and> is_v6 d))"
  by (rule no_mixed_family_downstream [OF _ plain_writes]) (simp add: plain_gateway_def)

text \<open>A peer outside the trusted network that sends a header, under the strip setting.\<close>

definition strip_gateway :: Gateway where
  "strip_gateway = plain_gateway\<lparr>g_untrusted := UntrustedStrip\<rparr>"

definition spoof_env :: tcp_env where
  "spoof_env = direct_env\<lparr>env_read :=
     Inr (zero_header\<lparr>HFamily := FamilyTCP4, SrcIP := Some [1, 2, 3, 4], DstIP := Some [5, 6, 7, 8]\<rparr>,
          SourceV2)\<rparr>"

lemma spoof_writes: "\<exists>h. WriteHeader h \<in> set (handle strip_gateway spoof_env)"
  using peer_conn_header peer_conn_untrusted
  by (auto simp: handle_defs strip_gateway_def spoof_env_def plain_gateway_def direct_env_def decide_defs)

theorem tcp_no_spoofing_witness:
  "\<exists>h. WriteHeader h \<in> set (handle strip_gateway spoof_env) \<and>
       (h = HeaderFromConn peer_conn \<or> h = zero_header \<and> \<not> FamilyMatchesAddrs (HeaderFromConn peer_conn))"
proof -
  obtain h where h: "WriteHeader h \<in> set (handle strip_gateway spoof_env)"
    using spoof_writes by blast
  have "env_addrs spoof_env = peer_conn" by (simp add: spoof_env_def direct_env_def)
  with tcp_no_spoofing [OF _ h] peer_conn_untrusted h show ?thesis
    by (auto simp: strip_gateway_def plain_gateway_def)
qed

text \<open>A run of the accept loop with a cap of one: two connections, the second refused.\<close>

lemma serve_counted:
  "serve_reachable 1 (serve_init\<lparr>active := 1, serve_pc := Counted 7 1\<rparr>)"
  using serve_step.accept_counted [of serve_init 1 7]
  by (intro reaches_step [OF reaches_refl]) (simp add: serve_init_def)

lemma serve_one_live:
  "serve_reachable 1 (serve_init\<lparr>active := 1, live := [7]\<rparr>)"
proof -
  have "serve_reachable 1 (serve_init\<lparr>active := 1, serve_pc := Spawning 7\<rparr>)"
    using serve_step.within_limit [of "serve_init\<lparr>active := 1, serve_pc := Counted 7 1\<rparr>" 7 1 1]
    by (intro reaches_step [OF serve_counted]) (simp add: serve_init_def)
  moreover have "serve_step 1 (serve_init\<lparr>active := 1, serve_pc := Spawning 7\<rparr>)
      (serve_init\<lparr>active := 1, live := [7]\<rparr>)"
    using serve_step.spawn [of "serve_init\<lparr>active := 1, serve_pc := Spawning 7\<rparr>" 7 1]
    by (simp add: serve_init_def)
  ultimately show ?thesis by (rule reaches_step)
qed

theorem connection_cap_witness:
  "int (length (live (serve_init\<lparr>active := 1, live := [7]\<rparr>))) +
   int (length (deferring (serve_init\<lparr>active := 1, live := [7]\<rparr>))) \<le> 1"
  using connection_cap [OF serve_one_live] by simp

theorem refused_only_at_cap_witness:
  "(2 :: int) > 1 \<longleftrightarrow>
   int (length (live (serve_init\<lparr>active := 1, live := [7]\<rparr>))) +
   int (length (deferring (serve_init\<lparr>active := 1, live := [7]\<rparr>))) = 1"
proof -
  let ?s = "serve_init\<lparr>active := 1, live := [7]\<rparr>"
  let ?t = "?s\<lparr>active := active ?s + 1, serve_pc := Counted 8 (active ?s + 1)\<rparr>"
  have pc: "serve_pc ?s = Accepting" by (simp add: serve_init_def)
  have st: "serve_step 1 ?s ?t"
    by (rule serve_step.accept_counted) (simp_all add: serve_init_def)
  have "serve_pc ?t = Counted 8 2" by simp
  from refused_only_at_cap [OF serve_one_live _ pc st this] show ?thesis by simp
qed

lemma serve_one_finished:
  "serve_reachable 0 (serve_init\<lparr>active := -1, finished := 1\<rparr>)"
proof -
  let ?a = "serve_init\<lparr>serve_pc := Spawning 7\<rparr>" and ?b = "serve_init\<lparr>live := [7]\<rparr>"
    and ?c = "serve_init\<lparr>deferring := [7]\<rparr>"
  have "serve_step 0 serve_init ?a"
    by (rule serve_step.accept_uncounted) (simp_all add: serve_init_def)
  then have a: "serve_reachable 0 ?a" by (rule reaches_step [OF reaches_refl])
  have "serve_step 0 ?a ?b"
    using serve_step.spawn [of ?a 7 0] by (simp add: serve_init_def)
  with a have b: "serve_reachable 0 ?b" by (rule reaches_step)
  have "serve_step 0 ?b ?c"
    using serve_step.handler_returns [of ?b "[]" 7 "[]" 0] by (simp add: serve_init_def)
  with b have c: "serve_reachable 0 ?c" by (rule reaches_step)
  have "serve_step 0 ?c (serve_init\<lparr>active := -1, finished := 1\<rparr>)"
    using serve_step.handler_decrements [of ?c "[]" 7 "[]" 0] by (simp add: serve_init_def)
  with c show ?thesis by (rule reaches_step)
qed

theorem uncapped_counter_negative_witness:
  "active (serve_init\<lparr>active := -1, finished := 1\<rparr>) =
   - int (finished (serve_init\<lparr>active := -1, finished := 1\<rparr>))"
  by (rule uncapped_counter_negative [OF serve_one_finished]) simp

end
