(* ===== verification/Udp_Gateway.thy ===== *)
theory Udp_Gateway
  imports Udp_Manager Tcp_Gateway
begin

text \<open>
  \<open>internal/udp/gateway.go\<close>: the receive loop \<open>Serve\<close> and the ten-step pipeline of
  \<open>handleDatagram\<close>, as a function from the manager's state and one datagram to the new state
  and the effects caused.
\<close>

section \<open>The gateway\<close>

datatype OutputMode = OutputEveryDatagram | OutputFirstDatagram

fun OutputMode_String :: "OutputMode \<Rightarrow> string" where
  "OutputMode_String OutputEveryDatagram = ''every_datagram''"
| "OutputMode_String OutputFirstDatagram = ''first_datagram''"

text \<open>The injected reader is a field, as in the code; the writer is \<open>FormatDatagram\<close> over the
  library's encoder \<open>ug_format\<close>.\<close>

record UDPGateway =
  ug_localAddr :: net_addr
  ug_upstreamAddr :: net_addr
  ug_reader :: "bytes \<Rightarrow> dg_error + Header \<times> bytes \<times> Source"
  ug_format :: gop_format
  ug_policy :: Policy
  ug_trust :: "TrustChecker option"
  ug_untrusted :: UntrustedAction
  ug_outputMode :: OutputMode
  ug_idleTimeout :: duration
  ug_maxDatagramSize :: int

text \<open>
  \<open>New\<close>: \<open>resolved\<close> and \<open>bound\<close> are what \<open>net.ResolveUDPAddr\<close> and \<open>ListenPacket\<close> return for the
  upstream and the listen address.
\<close>

definition New ::
    "string + net_addr \<Rightarrow> string + net_addr \<Rightarrow> gop_format \<Rightarrow> Policy \<Rightarrow> TrustChecker option \<Rightarrow>
     UntrustedAction \<Rightarrow> OutputMode \<Rightarrow> duration \<Rightarrow> int \<Rightarrow> int \<Rightarrow> string + UDPGateway \<times> Manager" where
  "New resolved bound fmt policy trust untrusted mode idle maxSessions maxSize =
     bindE resolved (\<lambda>upstreamUDP. bindE bound (\<lambda>localAddr. Inr
     (\<lparr>ug_localAddr = localAddr, ug_upstreamAddr = upstreamUDP, ug_reader = ParseDatagram, ug_format = fmt, ug_policy = policy,
       ug_trust = trust, ug_untrusted = untrusted, ug_outputMode = mode, ug_idleTimeout = idle,
       ug_maxDatagramSize = maxSize\<rparr>,
      NewUDPSessionManager maxSessions)))"

section \<open>Receiving\<close>

text \<open>
  \<open>make([]byte, n)\<close> for a 64-bit \<open>n\<close>: the length of the slice, or \<open>None\<close> for the run-time panic on
  a length that is negative or beyond the address space of the runtime. The receive buffer of
  \<open>Serve\<close> is made with the limit plus one, an addition that wraps around.
\<close>

definition make_bytes :: "int \<Rightarrow> nat option" where
  "make_bytes n = (if n < 0 \<or> n > 2 ^ 48 then None else Some (nat n))"

definition recv_buffer :: "int \<Rightarrow> nat option" where
  "recv_buffer maxSize =
     (if maxSize > 0 then make_bytes (sint (word_of_int (maxSize + 1) :: 64 word)) else make_bytes 65535)"

text \<open>What the loop hands on: \<open>ReadFromUDP\<close> fills at most the buffer, of \<open>buf\<close> bytes; an
  oversized datagram is dropped.\<close>

definition receive_into :: "nat \<Rightarrow> UDPGateway \<Rightarrow> bytes \<Rightarrow> bytes option" where
  "receive_into buf g raw =
     (let maxSize = ug_maxDatagramSize g;
          n = min (length raw) buf
      in if maxSize > 0 \<and> int n > maxSize then None else Some (take n raw))"

definition receive :: "UDPGateway \<Rightarrow> bytes \<Rightarrow> bytes option" where
  "receive g raw =
     (case recv_buffer (ug_maxDatagramSize g) of
        None \<Rightarrow> None
      | Some buf \<Rightarrow> receive_into buf g raw)"

section \<open>handleDatagram\<close>

datatype udp_effect =
    ULog log_level string
  | UDial
  | UCloseSocket
  | UStartReader sessionKey
  | UWrite sessionKey bytes
  | USleep duration

record udp_env =
  ue_dial_err :: "string option"
  ue_write_err :: "string option"

definition peer_addrs :: "UDPGateway \<Rightarrow> net_addr \<Rightarrow> AddrConn" where
  "peer_addrs g peer = \<lparr>LocalAddr = ug_localAddr g, RemoteAddr = peer\<rparr>"

text \<open>Step 2: an expired session is treated as absent.\<close>

definition lookup_session :: "Manager \<Rightarrow> sessionKey \<Rightarrow> UDPSession option" where
  "lookup_session m key =
     (case Load m key of
        None \<Rightarrow> None
      | Some s \<Rightarrow> if us_done s then None else Some s)"

text \<open>Step 3: the stored header and source of a headerless datagram's session.\<close>

definition recover_source ::
    "UDPSession option \<Rightarrow> Header \<Rightarrow> Source \<Rightarrow> Header \<times> Source" where
  "recover_source sess hdr src =
     (case sess of
        None \<Rightarrow> (hdr, src)
      | Some s \<Rightarrow>
          if src = SourceDirect then
            (case us_inputSource s of
               None \<Rightarrow> (hdr, src)
             | Some storedHdr \<Rightarrow>
                 (case us_inputSrcKind s of
                    None \<Rightarrow> (hdr, src)
                  | Some storedSrc \<Rightarrow> (storedHdr, storedSrc)))
          else (hdr, src))"

text \<open>Step 6: the session to use, created when there is none; \<open>None\<close> is a drop.\<close>

definition obtain_session ::
    "UDPGateway \<Rightarrow> udp_env \<Rightarrow> Manager \<Rightarrow> sessionKey \<Rightarrow> net_addr \<Rightarrow> UDPSession option \<Rightarrow>
     Manager \<times> udp_effect list \<times> UDPSession option" where
  "obtain_session g env m key peer sess =
     (case sess of
        Some s \<Rightarrow> (m, [ULog LevelDebug ''datagram''], Some s)
      | None \<Rightarrow>
          (case ue_dial_err env of
             Some e \<Rightarrow> (m, [UDial, ULog LevelWarn ''upstream dial failed''], None)
           | None \<Rightarrow>
               (case Create m key peer (ug_idleTimeout g) of
                  (m', Inl ErrMaxSessions) \<Rightarrow>
                    (m', [UDial, UCloseSocket, ULog LevelDebug ''max sessions reached, dropping''], None)
                | (m', Inr (s, started)) \<Rightarrow>
                    let made = [UDial, if started then UStartReader key else UCloseSocket]
                    in if us_done s
                       then (m', made @ [ULog LevelDebug ''session expired during creation race, dropping''], None)
                       else (m', made @ [ULog LevelInfo ''accept''], Some s))))"

text \<open>Step 7.\<close>

definition persist_source :: "UDPSession \<Rightarrow> Header \<Rightarrow> Source \<Rightarrow> UDPSession" where
  "persist_source s hdr src =
     (if src \<noteq> SourceDirect \<and> us_inputSource s = None then StoreInputSource s hdr src else s)"

text \<open>Step 8: in first-datagram mode \<open>headerSent.Swap(true)\<close> comes before the encoding.\<close>

definition encode_output ::
    "UDPGateway \<Rightarrow> UDPSession \<Rightarrow> Header \<Rightarrow> bytes \<Rightarrow> UDPSession \<times> (dg_error + bytes)" where
  "encode_output g s hdr payload =
     (if ug_outputMode g = OutputEveryDatagram then (s, FormatDatagram (ug_format g) hdr payload)
      else if \<not> us_headerSent s
           then (s\<lparr>us_headerSent := True\<rparr>, FormatDatagram (ug_format g) hdr payload)
           else (s\<lparr>us_headerSent := True\<rparr>, Inr payload))"

text \<open>Steps 7 to 10 on the session obtained.\<close>

definition emit ::
    "UDPGateway \<Rightarrow> udp_env \<Rightarrow> Manager \<Rightarrow> UDPSession \<Rightarrow> Header \<Rightarrow> Source \<Rightarrow> bytes \<Rightarrow>
     Manager \<times> udp_effect list" where
  "emit g env m s hdr src payload =
     (let s1 = persist_source s hdr src;
          (s2, out) = encode_output g s1 hdr payload
      in case out of
           Inl e \<Rightarrow> (put_session m s2, [ULog LevelError ''format datagram''])
         | Inr encoded \<Rightarrow>
             (put_session m (refresh s2),
              UWrite (us_key s2) encoded #
              (case ue_write_err env of
                 None \<Rightarrow> []
               | Some e \<Rightarrow> [ULog LevelDebug ''upstream write failed''])))"

definition udp_rejection_log :: "string \<Rightarrow> udp_effect list" where
  "udp_rejection_log reason =
     (if reason = ''untrusted'' then [ULog LevelInfo ''rejected: untrusted source with PROXY header'']
      else if reason = ''policy:forbids'' then [ULog LevelInfo ''rejected: policy forbids PROXY header'']
      else if reason = ''policy:requires'' then [ULog LevelInfo ''rejected: policy requires PROXY header'']
      else [])"

text \<open>Steps 3 and 4: the admission decision for a parsed datagram.\<close>

definition decide_datagram ::
    "UDPGateway \<Rightarrow> net_addr \<Rightarrow> UDPSession option \<Rightarrow> Header \<Rightarrow> Source \<Rightarrow>
     Header \<times> Source \<times> bool \<times> string" where
  "decide_datagram g peer sess hdr0 src0 =
     (let (hdr1, src1) = recover_source sess hdr0 src0;
          ac = peer_addrs g peer
      in Decide (ug_policy g) (ug_trust g) (ug_untrusted g) src1 hdr1 (RemoteIP ac) ac)"

definition handleDatagram ::
    "UDPGateway \<Rightarrow> udp_env \<Rightarrow> Manager \<Rightarrow> bytes \<Rightarrow> net_addr \<Rightarrow> Manager \<times> udp_effect list" where
  "handleDatagram g env m data peer =
     (case ug_reader g data of
        Inl e \<Rightarrow> (m, [ULog LevelDebug ''malformed PROXY header''])
      | Inr (hdr0, payload, src0) \<Rightarrow>
          let key = keyFromUDPAddr peer;
              sess = lookup_session m key;
              (hdr, src, allow, reason) = decide_datagram g peer sess hdr0 src0;
              logs = (if reason = ''strip''
                      then [ULog LevelInfo ''stripped: untrusted source PROXY header''] else [])
          in if \<not> allow then (m, logs @ udp_rejection_log reason)
             else
               (case obtain_session g env m key peer sess of
                  (m1, eff, None) \<Rightarrow> (m1, logs @ eff)
                | (m1, eff, Some s) \<Rightarrow>
                    let (m2, out) = emit g env m1 s hdr src payload
                    in (m2, logs @ eff @ out)))"

text \<open>A sequence of received datagrams, as the body of \<open>Serve\<close>'s loop processes them one after the other.\<close>

fun serve_datagrams ::
    "UDPGateway \<Rightarrow> Manager \<Rightarrow> (udp_env \<times> bytes \<times> net_addr) list \<Rightarrow> Manager \<times> udp_effect list" where
  "serve_datagrams g m [] = (m, [])"
| "serve_datagrams g m ((env, raw, peer) # rest) =
     (case receive g raw of
        None \<Rightarrow>
          let (m', out) = serve_datagrams g m rest
          in (m', ULog LevelDebug ''oversized datagram dropped'' # out)
      | Some data \<Rightarrow>
          let (m1, eff) = handleDatagram g env m data peer;
              (m2, out) = serve_datagrams g m1 rest
          in (m2, eff @ out))"

text \<open>
  The loop on what its successive \<open>ReadFromUDP\<close> calls return, and whether it still reads, has
  returned nil or an error, or has panicked.
\<close>

datatype udp_recv = RecvDatagram udp_env bytes net_addr | RecvError net_err

datatype serve_end = StillReading | ServeNil | ServeErr net_err | ServePanic

fun serve_loop ::
    "UDPGateway \<Rightarrow> Manager \<Rightarrow> udp_recv list \<Rightarrow> Manager \<times> udp_effect list \<times> serve_end" where
  "serve_loop g m [] = (m, [], StillReading)"
| "serve_loop g m (RecvError e # rest) =
     (if e = ErrNetClosed then (m, [], ServeNil)
      else if IsTemporaryNetError e then
        let (m', out, res) = serve_loop g m rest
        in (m', ULog LevelDebug ''transient read error'' # USleep 5000000 # out, res)
      else (m, [], ServeErr e))"
| "serve_loop g m (RecvDatagram env raw peer # rest) =
     (case receive g raw of
        None \<Rightarrow>
          let (m', out, res) = serve_loop g m rest
          in (m', ULog LevelDebug ''oversized datagram dropped'' # out, res)
      | Some data \<Rightarrow>
          let (m1, eff) = handleDatagram g env m data peer;
              (m2, out, res) = serve_loop g m1 rest
          in (m2, eff @ out, res))"

definition udp_Serve ::
    "UDPGateway \<Rightarrow> Manager \<Rightarrow> udp_recv list \<Rightarrow> Manager \<times> udp_effect list \<times> serve_end" where
  "udp_Serve g m rs =
     (case recv_buffer (ug_maxDatagramSize g) of
        None \<Rightarrow> (m, [], ServePanic)
      | Some buf \<Rightarrow> serve_loop g m rs)"

text \<open>\<open>Close\<close>, after the listener: \<open>ExpireAll\<close> in the order of \<open>Range\<close>.\<close>

definition Close :: "sessionKey list \<Rightarrow> Manager \<Rightarrow> Manager" where
  "Close keys m = ExpireAll keys m"

section \<open>Size limit\<close>

lemma recv_buffer_Some:
  "maxSize < 2 ^ 48 \<Longrightarrow> recv_buffer maxSize = Some (if maxSize > 0 then nat (maxSize + 1) else 65535)"
proof -
  assume small: "maxSize < 2 ^ 48"
  have "sint (word_of_int (maxSize + 1) :: 64 word) = maxSize + 1" if "maxSize > 0"
    unfolding sint_sbintrunc' by (rule signed_take_bit_int_eq_self) (use small that in simp_all)
  with small show ?thesis unfolding recv_buffer_def make_bytes_def by simp
qed

lemma serve_loop_no_panic: "snd (snd (serve_loop g m rs)) \<noteq> ServePanic"
proof (induction rs arbitrary: m)
  case (Cons r rs)
  then show ?case by (cases r) (auto simp: case_prod_beta split: option.splits)
qed simp

text \<open>For the values of a 64-bit \<open>int\<close> the buffer is made exactly below \<open>2 ^ 48\<close>.\<close>

lemma recv_buffer_None:
  assumes "maxSize < 2 ^ 63"
  shows "recv_buffer maxSize = None \<longleftrightarrow> 2 ^ 48 \<le> maxSize"
proof (cases "maxSize = 2 ^ 63 - 1 \<or> maxSize < 2 ^ 48")
  case True
  moreover have "recv_buffer (2 ^ 63 - 1) = None"
    unfolding recv_buffer_def make_bytes_def sint_sbintrunc' by simp
  ultimately show ?thesis using recv_buffer_Some [of maxSize] by auto
next
  case False
  then have "sint (word_of_int (maxSize + 1) :: 64 word) = maxSize + 1"
    unfolding sint_sbintrunc' by (intro signed_take_bit_int_eq_self) (use assms in simp_all)
  with False show ?thesis unfolding recv_buffer_def make_bytes_def by simp
qed

text \<open>
  With a positive limit a datagram is dropped exactly when it is longer than the limit,
  and otherwise handed on whole: nothing is ever truncated. With the limit off, every
  datagram that fits UDP's 16-bit length is handed on whole.
\<close>

theorem receive_whole:
  assumes "ug_maxDatagramSize g < 2 ^ 48"
  shows "receive g raw =
     (if ug_maxDatagramSize g > 0 then
        (if int (length raw) > ug_maxDatagramSize g then None else Some raw)
      else Some (take 65535 raw))"
  using recv_buffer_Some [OF assms]
  by (auto simp: receive_def receive_into_def Let_def min_def)

section \<open>One datagram: state and isolation\<close>

lemma lookup_session_Some:
  "lookup_session m k = Some s \<longleftrightarrow> m_sessions m k = Some s \<and> \<not> us_done s"
  by (auto simp: lookup_session_def split: option.splits)

lemma persist_source_simps [simp]:
  "us_key (persist_source s h x) = us_key s" "us_done (persist_source s h x) = us_done s"
  "us_client (persist_source s h x) = us_client s"
  "us_headerSent (persist_source s h x) = us_headerSent s"
  by (simp_all add: persist_source_def StoreInputSource_def)

lemma encode_output_simps [simp]:
  "us_key (fst (encode_output g s h p)) = us_key s"
  "us_done (fst (encode_output g s h p)) = us_done s"
  "us_client (fst (encode_output g s h p)) = us_client s"
  "us_inputSource (fst (encode_output g s h p)) = us_inputSource s"
  "us_inputSrcKind (fst (encode_output g s h p)) = us_inputSrcKind s"
  by (auto simp: encode_output_def)

lemma session_ok_persist: "session_ok s \<Longrightarrow> session_ok (persist_source s h x)"
  by (simp add: persist_source_def session_ok_store)

lemma session_ok_encode: "session_ok s \<Longrightarrow> session_ok (fst (encode_output g s h p))"
  by (auto simp: encode_output_def session_ok_def)

lemma emit_manager:
  "\<exists>s'. fst (emit g env m s h x p) = put_session m s' \<and> us_key s' = us_key s \<and>
        us_done s' = us_done s \<and> us_client s' = us_client s \<and>
        us_inputSource s' = us_inputSource (persist_source s h x) \<and>
        us_inputSrcKind s' = us_inputSrcKind (persist_source s h x) \<and>
        (session_ok s \<longrightarrow> session_ok s')"
proof -
  obtain s2 out where e: "encode_output g (persist_source s h x) h p = (s2, out)" by fastforce
  have s2: "us_key s2 = us_key s" "us_done s2 = us_done s" "us_client s2 = us_client s"
    "us_inputSource s2 = us_inputSource (persist_source s h x)"
    "us_inputSrcKind s2 = us_inputSrcKind (persist_source s h x)"
    "session_ok s \<longrightarrow> session_ok s2"
    using encode_output_simps [of g "persist_source s h x" h p]
      session_ok_encode [of "persist_source s h x" g h p] session_ok_persist [of s h x]
    by (simp_all add: e)
  show ?thesis
  proof (cases out)
    case (Inl e')
    with s2 show ?thesis by (intro exI [of _ s2]) (simp add: emit_def e)
  next
    case (Inr b)
    with s2 session_ok_refresh [of s2] show ?thesis
      by (intro exI [of _ "refresh s2"]) (simp add: emit_def e)
  qed
qed

lemma obtain_session_ok:
  assumes "obtain_session g env m key peer sess = (m', eff, so)"
    and "mgr_ok m" and "sess = lookup_session m key"
  shows "mgr_ok m' \<and> m_max m' = m_max m \<and> (\<forall>k. k \<noteq> key \<longrightarrow> m_sessions m' k = m_sessions m k) \<and>
         (so = None \<or> m_sessions m' key = so \<and> (\<forall>s. so = Some s \<longrightarrow> \<not> us_done s))"
proof (cases sess)
  case (Some s)
  moreover have "lookup_session m key = Some s" using Some assms(3) by simp
  ultimately show ?thesis
    using assms(1,2) by (auto simp: obtain_session_def lookup_session_Some)
next
  case None
  obtain m1 r where c: "Create m key peer (ug_idleTimeout g) = (m1, r)" by fastforce
  note keeps = mgr.create_keeps [OF c assms(2)] mgr.create_other_keys [OF c]
  show ?thesis
  proof (cases "ue_dial_err env")
    case (Some e)
    with assms None show ?thesis by (auto simp: obtain_session_def)
  next
    case dial: None
    show ?thesis
    proof (cases r)
      case (Inl e)
      with assms(1,2) None dial c keeps show ?thesis
        by (cases e) (auto simp: obtain_session_def)
    next
      case (Inr p)
      obtain s b where p: "p = (s, b)" by (cases p)
      have "m_sessions m1 key = Some s"
        using mgr.create_loads [of m key peer "ug_idleTimeout g" m1 s b] c Inr p by simp
      with assms(1,2) None dial c keeps Inr p show ?thesis
        by (auto simp: obtain_session_def Let_def split: if_splits)
    qed
  qed
qed

lemma handleDatagram_ok:
  assumes "mgr_ok m"
  shows "mgr_ok (fst (handleDatagram g env m data peer)) \<and>
         m_max (fst (handleDatagram g env m data peer)) = m_max m \<and>
         (\<forall>k. k \<noteq> keyFromUDPAddr peer \<longrightarrow>
              m_sessions (fst (handleDatagram g env m data peer)) k = m_sessions m k)"
proof (cases "ug_reader g data")
  case (Inl e)
  with assms show ?thesis by (simp add: handleDatagram_def)
next
  case (Inr r)
  obtain h0 p x0 where r: "r = (h0, p, x0)" by (cases r)
  let ?k = "keyFromUDPAddr peer"
  let ?sess = "lookup_session m ?k"
  obtain h x a why where d: "decide_datagram g peer ?sess h0 x0 = (h, x, a, why)"
    by (cases "decide_datagram g peer ?sess h0 x0") auto
  obtain m1 eff so where o: "obtain_session g env m ?k peer ?sess = (m1, eff, so)"
    by (cases "obtain_session g env m ?k peer ?sess") auto
  from obtain_session_ok [OF o assms refl] have
    m1: "mgr_ok m1" "m_max m1 = m_max m" "\<forall>k. k \<noteq> ?k \<longrightarrow> m_sessions m1 k = m_sessions m k"
    and so: "so = None \<or> m_sessions m1 ?k = so \<and> (\<forall>s. so = Some s \<longrightarrow> \<not> us_done s)"
    by auto
  show ?thesis
  proof (cases "a \<and> so \<noteq> None")
    case False
    with assms m1 show ?thesis
      by (auto simp: handleDatagram_def Inr r d o Let_def)
  next
    case True
    then obtain s where s: "so = Some s" "a" by auto
    with so m1(1) have s_ok: "m_sessions m1 ?k = Some s" "\<not> us_done s" "us_key s = ?k" "session_ok s"
      by (auto simp: mgr_ok_def)
    obtain s' out where e: "emit g env m1 s h x p = (put_session m1 s', out)"
      and s': "us_key s' = us_key s" "us_done s' = us_done s" "session_ok s'"
      using emit_manager [of g env m1 s h x p] s_ok(4) by (metis prod.collapse)
    have "mgr_ok (put_session m1 s')"
      using s' s_ok by (intro mgr_ok_put [OF m1(1)]) simp_all
    moreover have "fst (handleDatagram g env m data peer) = put_session m1 s'"
      using e s by (simp add: handleDatagram_def Inr r d o Let_def)
    ultimately show ?thesis
      using m1(2,3) s'(1) s_ok(3) by (simp add: put_session_def)
  qed
qed

text \<open>
  C11. Every datagram keeps the manager's invariant (exact counter, cap, keys, live sessions)
  and touches no session but the one of the peer that sent it.
\<close>

theorem handleDatagram_invariant:
  assumes "mgr_ok m"
  shows "mgr_ok (fst (handleDatagram g env m data peer)) \<and>
         m_max (fst (handleDatagram g env m data peer)) = m_max m \<and>
         (\<forall>k. k \<noteq> keyFromUDPAddr peer \<longrightarrow>
              m_sessions (fst (handleDatagram g env m data peer)) k = m_sessions m k)"
  using assms by (rule handleDatagram_ok)

text \<open>A gateway on UDP 0.0.0.0:53, built by \<open>New\<close>.\<close>

definition ref_gateway :: "OutputMode \<Rightarrow> TrustChecker option \<Rightarrow> UDPGateway" where
  "ref_gateway mode trust =
     fst (projr (New (Inr (UDPAddr (Some [192, 0, 2, 1]) 53 []))
       (Inr (UDPAddr (Some [0, 0, 0, 0]) 53 []))
       ref_format PolicyUse trust UntrustedReject mode 30000000000 4 65535))"

lemma ref_gateway_simps [simp]:
  "ug_localAddr (ref_gateway mode trust) = UDPAddr (Some [0, 0, 0, 0]) 53 []"
  "ug_reader (ref_gateway mode trust) = ParseDatagram"
  "ug_format (ref_gateway mode trust) = ref_format"
  "ug_policy (ref_gateway mode trust) = PolicyUse"
  "ug_trust (ref_gateway mode trust) = trust"
  "ug_untrusted (ref_gateway mode trust) = UntrustedReject"
  "ug_outputMode (ref_gateway mode trust) = mode"
  "ug_idleTimeout (ref_gateway mode trust) = 30000000000"
  "ug_maxDatagramSize (ref_gateway mode trust) = 65535"
  by (simp_all add: ref_gateway_def New_def)

definition quiet_env :: udp_env where
  "quiet_env = \<lparr>ue_dial_err = None, ue_write_err = None\<rparr>"

theorem handleDatagram_invariant_witness:
  "mgr_ok (fst (handleDatagram (ref_gateway OutputEveryDatagram None) quiet_env one_session
     [1, 2, 3] client1))"
  using handleDatagram_invariant [OF one_session_ok] by blast

end
