(* ===== verification/Udp_Flow.thy ===== *)
theory Udp_Flow
  imports Udp_Gateway
begin

text \<open>
  What the UDP pipeline guarantees: a dropped datagram costs nothing, an untrusted peer is
  never believed, and a stored header came from a trusted peer. The lemmas decompose what one
  datagram, and one run, write upstream; theory Udp_Runs builds on them.
\<close>

section \<open>The pipeline taken apart\<close>

definition is_log :: "udp_effect \<Rightarrow> bool" where
  "is_log e = (case e of ULog l s \<Rightarrow> True | _ \<Rightarrow> False)"

lemma is_log_iff: "is_log e \<longleftrightarrow> (\<exists>l s. e = ULog l s)"
  by (cases e) (simp_all add: is_log_def)

text \<open>The datagrams written upstream on a session, in order.\<close>

fun writes_of :: "sessionKey \<Rightarrow> udp_effect list \<Rightarrow> bytes list" where
  "writes_of k [] = []"
| "writes_of k (UWrite k' b # es) = (if k' = k then b # writes_of k es else writes_of k es)"
| "writes_of k (e # es) = writes_of k es"

lemma writes_of_append [simp]: "writes_of k (xs @ ys) = writes_of k xs @ writes_of k ys"
proof (induction xs)
  case (Cons x xs)
  then show ?case by (cases x) simp_all
qed simp

lemma writes_of_set: "b \<in> set (writes_of k es) \<longleftrightarrow> UWrite k b \<in> set es"
proof (induction es)
  case (Cons e es)
  then show ?case by (cases e) auto
qed simp

lemma writes_of_logs: "list_all is_log es \<Longrightarrow> writes_of k es = []"
proof (induction es)
  case (Cons e es)
  then show ?case by (cases e) (auto simp: is_log_def)
qed simp

text \<open>What leaves steps 1 to 5: the header and source to use, and the payload.\<close>

definition admitted ::
    "UDPGateway \<Rightarrow> Manager \<Rightarrow> bytes \<Rightarrow> net_addr \<Rightarrow> (Header \<times> Source \<times> bytes) option" where
  "admitted g m data peer =
     (case ug_reader g data of
        Inl e \<Rightarrow> None
      | Inr (hdr0, payload, src0) \<Rightarrow>
          (case decide_datagram g peer (lookup_session m (keyFromUDPAddr peer)) hdr0 src0 of
             (hdr, src, allow, reason) \<Rightarrow> if allow then Some (hdr, src, payload) else None))"

lemma udp_rejection_log_logs: "list_all is_log (udp_rejection_log r)"
  by (simp add: udp_rejection_log_def is_log_def)

lemma handleDatagram_dropped:
  assumes "admitted g m data peer = None"
  shows "fst (handleDatagram g env m data peer) = m \<and>
         list_all is_log (snd (handleDatagram g env m data peer))"
  using assms udp_rejection_log_logs
  by (auto simp: admitted_def handleDatagram_def Let_def is_log_def
      split: sum.splits prod.splits if_splits)

lemma handleDatagram_admitted:
  assumes "admitted g m data peer = Some (h, x, p)"
  shows "\<exists>logs. list_all is_log logs \<and>
           handleDatagram g env m data peer =
             (case obtain_session g env m (keyFromUDPAddr peer) peer
                     (lookup_session m (keyFromUDPAddr peer)) of
                (m1, eff, None) \<Rightarrow> (m1, logs @ eff)
              | (m1, eff, Some s) \<Rightarrow>
                  (case emit g env m1 s h x p of (m2, out) \<Rightarrow> (m2, logs @ eff @ out)))"
proof -
  let ?sess = "lookup_session m (keyFromUDPAddr peer)"
  obtain h0 x0 where r: "ug_reader g data = Inr (h0, p, x0)"
    and d: "\<exists>why. decide_datagram g peer ?sess h0 x0 = (h, x, True, why)"
    using assms by (auto simp: admitted_def split: sum.splits prod.splits if_splits)
  then obtain why where d: "decide_datagram g peer ?sess h0 x0 = (h, x, True, why)" by blast
  let ?logs = "if why = ''strip'' then [ULog LevelInfo ''stripped: untrusted source PROXY header''] else []"
  have "list_all is_log ?logs" by (simp add: is_log_def)
  then show ?thesis
    by (intro exI [of _ ?logs]) (simp add: handleDatagram_def r d Let_def)
qed

text \<open>What admission means, by the contract of \<open>Decide\<close>.\<close>

lemma admitted_cases:
  assumes "admitted g m data peer = Some (h, x, p)"
  obtains (socket) h0 x0 where "ug_reader g data = Inr (h0, p, x0)" "x = SourceDirect"
      "h = HeaderFromConn (peer_addrs g peer)"
    | (proxy) h0 x0 where "ug_reader g data = Inr (h0, p, x0)" "x \<noteq> SourceDirect"
      "recover_source (lookup_session m (keyFromUDPAddr peer)) h0 x0 = (h, x)"
      "IsTrusted (ug_trust g) (RemoteIP (peer_addrs g peer))"
proof -
  let ?sess = "lookup_session m (keyFromUDPAddr peer)"
  obtain h0 x0 h1 x1 why where r: "ug_reader g data = Inr (h0, p, x0)"
    and rc: "recover_source ?sess h0 x0 = (h1, x1)"
    and d: "Decide (ug_policy g) (ug_trust g) (ug_untrusted g) x1 h1
              (RemoteIP (peer_addrs g peer)) (peer_addrs g peer) = (h, x, True, why)"
    using assms
    by (auto simp: admitted_def decide_datagram_def Let_def split: sum.splits prod.splits if_splits)
  from d show ?thesis
    by (rule adm.admitted_header_cases) (use that r rc in blast)+
qed

lemma emit_writes:
  "writes_of k (snd (emit g env m s h x p)) =
     (if k \<noteq> us_key s then []
      else if ug_outputMode g = OutputFirstDatagram \<and> us_headerSent s then [p]
      else case FormatDatagram (ug_format g) h p of Inl e \<Rightarrow> [] | Inr b \<Rightarrow> [b])"
  by (cases "ug_outputMode g")
     (auto simp: emit_def encode_output_def Let_def split: sum.splits option.splits)

lemma obtain_session_writes:
  "obtain_session g env m key peer sess = (m', eff, so) \<Longrightarrow> writes_of k eff = []"
  by (auto simp: obtain_session_def Let_def
      split: option.splits sum.splits prod.splits manager_error.splits if_splits)

text \<open>The session the datagram is written on, when there is one.\<close>

lemma obtain_session_key:
  assumes "obtain_session g env m key peer (lookup_session m key) = (m1, eff, Some s)" and "mgr_ok m"
  shows "m_sessions m1 key = Some s \<and> us_key s = key \<and> session_ok s \<and> \<not> us_done s \<and> mgr_ok m1"
  using obtain_session_ok [OF assms(1,2) refl] by (auto simp: mgr_ok_def)

lemma handleDatagram_writes:
  assumes "UWrite k b \<in> set (snd (handleDatagram g env m data peer))" and "mgr_ok m"
  obtains h x p m1 eff s where "admitted g m data peer = Some (h, x, p)"
    and "obtain_session g env m (keyFromUDPAddr peer) peer
           (lookup_session m (keyFromUDPAddr peer)) = (m1, eff, Some s)"
    and "k = keyFromUDPAddr peer"
    and "FormatDatagram (ug_format g) h p = Inr b \<or>
         ug_outputMode g = OutputFirstDatagram \<and> us_headerSent s \<and> b = p"
proof (cases "admitted g m data peer")
  case None
  with handleDatagram_dropped [OF None, of env] assms(1) have False
    by (auto simp: list_all_iff is_log_def)
  then show ?thesis ..
next
  case (Some r)
  let ?o = "obtain_session g env m (keyFromUDPAddr peer) peer (lookup_session m (keyFromUDPAddr peer))"
  obtain h x p where r: "r = (h, x, p)" by (cases r)
  obtain m1 eff so where o: "?o = (m1, eff, so)" by (cases ?o) auto
  obtain logs where "list_all is_log logs" and
    hd: "handleDatagram g env m data peer = (case so of None \<Rightarrow> (m1, logs @ eff)
       | Some s \<Rightarrow> (case emit g env m1 s h x p of (m2, out) \<Rightarrow> (m2, logs @ eff @ out)))"
    using handleDatagram_admitted [OF Some [unfolded r], of env] o by auto
  have "b \<in> set (writes_of k (snd (handleDatagram g env m data peer)))"
    using assms(1) by (simp add: writes_of_set)
  moreover have "writes_of k (logs @ eff) = []"
    using obtain_session_writes [OF o] writes_of_logs [OF \<open>list_all is_log logs\<close>] by simp
  ultimately obtain s where s: "so = Some s" and
    "b \<in> set (writes_of k (snd (emit g env m1 s h x p)))"
    using hd by (cases so) (auto split: prod.splits)
  with obtain_session_key [OF o [unfolded s] assms(2)] that [OF Some [unfolded r] o [unfolded s]]
  show ?thesis
    by (auto simp: emit_writes split: if_splits sum.splits)
qed

section \<open>Trust\<close>

text \<open>
  C33. A datagram that does not parse, or that trust and policy reject, consumes nothing: no
  socket is opened, nothing is written and the session table is untouched. This covers every
  reason for dropping before step 6, the recovered source of a headerless datagram included.
\<close>

theorem dropped_consumes_nothing:
  assumes "case ug_reader g data of
             Inl e \<Rightarrow> True
           | Inr (h, p, x) \<Rightarrow>
               let x' = snd (recover_source (lookup_session m (keyFromUDPAddr peer)) h x) in
               if x' = SourceDirect then ug_policy g = PolicyRequire
               else if IsTrusted (ug_trust g) (RemoteIP (peer_addrs g peer))
                 then ug_policy g = PolicyReject
               else ug_untrusted g = UntrustedReject \<or> ug_policy g = PolicyRequire"
  shows "fst (handleDatagram g env m data peer) = m \<and>
         (\<forall>e \<in> set (snd (handleDatagram g env m data peer)). \<exists>l s. e = ULog l s)"
proof -
  have "admitted g m data peer = None"
    using assms
    by (auto simp: admitted_def decide_datagram_def decide_defs
        split: sum.splits prod.splits if_splits UntrustedAction.splits)
  from handleDatagram_dropped [OF this, of env] show ?thesis
    by (simp add: list_all_iff is_log_iff)
qed

lemma untrusted_udp:
  assumes "mgr_ok m" and "\<not> IsTrusted (ug_trust g) (RemoteIP (peer_addrs g peer))"
    and "UWrite k b \<in> set (snd (handleDatagram g env m data peer))"
  shows "k = keyFromUDPAddr peer \<and>
         (\<exists>h0 p x0. ug_reader g data = Inr (h0, p, x0) \<and>
            (FormatDatagram (ug_format g) (HeaderFromConn (peer_addrs g peer)) p = Inr b \<or>
             ug_outputMode g = OutputFirstDatagram \<and> b = p))"
proof -
  obtain h x p m1 eff s where a: "admitted g m data peer = Some (h, x, p)"
    and k: "k = keyFromUDPAddr peer"
    and w: "FormatDatagram (ug_format g) h p = Inr b \<or> ug_outputMode g = OutputFirstDatagram \<and> b = p"
    by (rule handleDatagram_writes [OF assms(3,1)]) blast
  from a show ?thesis
    by (rule admitted_cases) (use assms(2) k w in auto)
qed

text \<open>
  C3. End to end on UDP: whatever an untrusted peer sends, what is written upstream for it is
  the payload under the header built from its socket, or, on a session whose one header has
  gone out in first-datagram mode, the bare payload; and it is written on its own session.
\<close>

theorem udp_no_spoofing:
  assumes "mgr_ok m" and "\<not> IsTrusted (ug_trust g) (RemoteIP (peer_addrs g peer))"
    and "UWrite k b \<in> set (snd (handleDatagram g env m data peer))"
  shows "k = keyFromUDPAddr peer \<and>
         (\<exists>h0 p x0. ug_reader g data = Inr (h0, p, x0) \<and>
            (FormatDatagram (ug_format g) (HeaderFromConn (peer_addrs g peer)) p = Inr b \<or>
             ug_outputMode g = OutputFirstDatagram \<and> b = p))"
  using assms by (rule untrusted_udp)

section \<open>Stored input sources\<close>

text \<open>
  The sessions' stored headers: each came from a peer that trust admits under the session's
  own address, and has the shape the parser gives.
\<close>

definition sources_ok :: "TrustChecker option \<Rightarrow> Manager \<Rightarrow> bool" where
  "sources_ok t m \<longleftrightarrow>
     (\<forall>k s h. m_sessions m k = Some s \<longrightarrow> us_inputSource s = Some h \<longrightarrow>
        wf_v2 h \<and> IsTrusted t (Some (key_ip k)))"

lemma RemoteIP_key:
  assumes "To16 (addr_ip peer) \<noteq> None" and "peer \<noteq> OtherAddr"
  shows "IsTrusted t (Some (key_ip (keyFromUDPAddr peer))) =
         IsTrusted t (RemoteIP (peer_addrs g peer))"
proof -
  obtain bs where bs: "To16 (addr_ip peer) = Some bs" using assms(1) by blast
  then have "IsTrusted t (Some bs) = IsTrusted t (addr_ip peer)" by (rule IsTrusted_To16)
  moreover have "RemoteIP (peer_addrs g peer) = addr_ip peer"
    using assms(2) by (cases peer) (simp_all add: RemoteIP_def peer_addrs_def)
  ultimately show ?thesis
    by (simp add: keyFromUDPAddr_def bs)
qed

lemma Create_source:
  assumes "Create m key c d = (m', r)" and "m_sessions m' k = Some s"
  shows "m_sessions m k = Some s \<or> us_inputSource s = None"
  using assms by (auto simp: Create_def newSession_def Let_def split: if_splits option.splits)

lemma obtain_session_source:
  assumes "obtain_session g env m key peer sess = (m', eff, so)" and "m_sessions m' k = Some s"
  shows "m_sessions m k = Some s \<or> us_inputSource s = None"
  using assms Create_source [of m key peer "ug_idleTimeout g" m' _ k s]
  by (auto simp: obtain_session_def Let_def
      split: option.splits sum.splits prod.splits manager_error.splits if_splits)

text \<open>An admitted PROXY header is well formed and its peer is trusted.\<close>

lemma admitted_proxy_ok:
  assumes "admitted g m data peer = Some (h, x, p)" and "x \<noteq> SourceDirect"
    and "ug_reader g = ParseDatagram" and "sources_ok (ug_trust g) m"
  shows "wf_v2 h \<and> IsTrusted (ug_trust g) (RemoteIP (peer_addrs g peer))"
  using assms(1)
proof (cases rule: admitted_cases)
  case (socket h0 x0)
  with assms(2) show ?thesis by simp
next
  case (proxy h0 x0)
  have "wf_v2 h"
  proof (cases "x0 = SourceDirect")
    case False
    then have "h = h0" using proxy(3) by (auto simp: recover_source_def split: option.splits)
    with False proxy(1) assms(3) show ?thesis using dgr.not_direct_wf by metis
  next
    case True
    with proxy(2,3) obtain s where "lookup_session m (keyFromUDPAddr peer) = Some s"
      and "us_inputSource s = Some h"
      by (auto simp: recover_source_def split: option.splits)
    with assms(4) show ?thesis by (auto simp: sources_ok_def lookup_session_Some)
  qed
  with proxy(4) show ?thesis by blast
qed

lemma persist_source_cases:
  "us_inputSource (persist_source s h x) =
     (if x \<noteq> SourceDirect \<and> us_inputSource s = None then Some (cloneHeader h) else us_inputSource s)"
  by (simp add: persist_source_def StoreInputSource_def)

lemma handleDatagram_sources:
  assumes "mgr_ok m" and "sources_ok (ug_trust g) m" and "ug_reader g = ParseDatagram"
    and "To16 (addr_ip peer) \<noteq> None" and "peer \<noteq> OtherAddr"
  shows "sources_ok (ug_trust g) (fst (handleDatagram g env m data peer))"
proof (cases "admitted g m data peer")
  case None
  with handleDatagram_dropped [OF None, of env] assms(2) show ?thesis by simp
next
  case (Some r)
  let ?k = "keyFromUDPAddr peer"
  let ?o = "obtain_session g env m ?k peer (lookup_session m ?k)"
  obtain h x p where r: "r = (h, x, p)" by (cases r)
  note adm = Some [unfolded r]
  obtain m1 eff so where o: "?o = (m1, eff, so)" by (cases ?o) auto
  from obtain_session_source [OF o] assms(2) have m1: "sources_ok (ug_trust g) m1"
    unfolding sources_ok_def by (metis option.distinct(1))
  show ?thesis
  proof (cases so)
    case None
    with handleDatagram_admitted [OF adm, of env] o m1 show ?thesis by auto
  next
    case s: (Some s)
    note so = obtain_session_key [OF o [unfolded s] assms(1)]
    obtain s' out where e: "emit g env m1 s h x p = (put_session m1 s', out)"
      and s': "us_key s' = us_key s" "us_inputSource s' = us_inputSource (persist_source s h x)"
      using emit_manager [of g env m1 s h x p] by (metis prod.collapse)
    have "fst (handleDatagram g env m data peer) = put_session m1 s'"
      using handleDatagram_admitted [OF adm, of env] o s e by auto
    moreover have "wf_v2 h' \<and> IsTrusted (ug_trust g) (Some (key_ip ?k))"
      if "us_inputSource s' = Some h'" for h'
    proof (cases "x \<noteq> SourceDirect \<and> us_inputSource s = None")
      case True
      with that s'(2) have "h' = cloneHeader h" by (simp add: persist_source_cases)
      with True admitted_proxy_ok [OF adm _ assms(3,2)] RemoteIP_key [OF assms(4,5)]
      show ?thesis by (simp add: cloneHeader_wf)
    next
      case False
      with that s'(2) have "us_inputSource s = Some h'" by (simp add: persist_source_cases)
      with so m1 show ?thesis by (auto simp: sources_ok_def)
    qed
    ultimately show ?thesis
      using m1 so s'(1) by (auto simp: sources_ok_def put_session_def)
  qed
qed

text \<open>A run of the receive loop keeps every property that each datagram keeps.\<close>

lemma serve_datagrams_invariant:
  assumes "P m" and "\<And>m env raw data peer. (env, raw, peer) \<in> set ds \<Longrightarrow>
                       P m \<Longrightarrow> P (fst (handleDatagram g env m data peer))"
  shows "P (fst (serve_datagrams g m ds))"
  using assms
proof (induction g m ds rule: serve_datagrams.induct)
  case (2 g m env raw peer rest)
  show ?case
  proof (cases "receive g raw")
    case None
    have "P (fst (serve_datagrams g m rest))"
      by (rule "2.IH"(1) [OF None "2.prems"(1)], rule "2.prems"(2), rule list.set_intros(2))
    with None show ?thesis by (auto split: prod.splits)
  next
    case (Some data)
    obtain m1 eff where h: "handleDatagram g env m data peer = (m1, eff)" by fastforce
    have "P m1" using "2.prems"(2) [of env raw peer m data] "2.prems"(1) h by simp
    have "P (fst (serve_datagrams g m1 rest))"
      by (rule "2.IH"(2) [OF Some refl h [symmetric] \<open>P m1\<close>], rule "2.prems"(2),
          rule list.set_intros(2))
    with Some h show ?thesis by (auto simp: split: prod.splits)
  qed
qed simp

text \<open>
  C15. Starting from an empty table, after any sequence of datagrams the table is within the
  cap with an exact counter and every session live under its own key, and every stored input
  source is a well-formed header under an address that trust admits: no untrusted metadata
  is ever persisted.
\<close>

theorem stored_sources_trusted:
  assumes "ug_reader g = ParseDatagram"
    and "\<forall>(env, raw, peer) \<in> set ds. To16 (addr_ip peer) \<noteq> None \<and> peer \<noteq> OtherAddr"
    and "fst (serve_datagrams g (NewUDPSessionManager n) ds) = m"
  shows "mgr_ok m \<and>
         (\<forall>k s h. m_sessions m k = Some s \<longrightarrow> us_inputSource s = Some h \<longrightarrow>
            wf_v2 h \<and> IsTrusted (ug_trust g) (Some (key_ip k)))"
proof -
  let ?P = "\<lambda>m. mgr_ok m \<and> sources_ok (ug_trust g) m"
  have "?P (NewUDPSessionManager n)"
    using mgr_ok_new by (simp add: sources_ok_def NewUDPSessionManager_def)
  then have "?P m"
    unfolding assms(3) [symmetric]
    by (rule serve_datagrams_invariant)
       (use assms(1,2) handleDatagram_ok handleDatagram_sources in fast)
  then show ?thesis by (simp add: sources_ok_def)
qed

section \<open>One datagram on its own session\<close>

text \<open>What a datagram does to the session of its peer, and what it writes there.\<close>

lemma handleDatagram_on_session:
  assumes "admitted g m data peer = Some (h, x, p)" and "mgr_ok m"
    and "obtain_session g env m (keyFromUDPAddr peer) peer
           (lookup_session m (keyFromUDPAddr peer)) = (m1, eff, Some s)"
  shows "m_sessions (fst (handleDatagram g env m data peer)) (keyFromUDPAddr peer) =
           m_sessions (fst (emit g env m1 s h x p)) (keyFromUDPAddr peer) \<and>
         writes_of k (snd (handleDatagram g env m data peer)) =
           writes_of k (snd (emit g env m1 s h x p))"
proof -
  obtain logs where "list_all is_log logs" and
    "handleDatagram g env m data peer =
       (case emit g env m1 s h x p of (m2, out) \<Rightarrow> (m2, logs @ eff @ out))"
    using handleDatagram_admitted [OF assms(1), of env] assms(3) by auto
  then show ?thesis
    using obtain_session_writes [OF assms(3)] writes_of_logs by (auto split: prod.splits)
qed

lemma handleDatagram_no_session:
  assumes "admitted g m data peer = Some (h, x, p)"
    and "obtain_session g env m (keyFromUDPAddr peer) peer
           (lookup_session m (keyFromUDPAddr peer)) = (m1, eff, None)"
  shows "fst (handleDatagram g env m data peer) = m1 \<and>
         writes_of k (snd (handleDatagram g env m data peer)) = []"
proof -
  obtain logs where "list_all is_log logs" and
    "handleDatagram g env m data peer = (m1, logs @ eff)"
    using handleDatagram_admitted [OF assms(1), of env] assms(2) by auto
  then show ?thesis
    using obtain_session_writes [OF assms(2)] writes_of_logs by simp
qed

lemma handleDatagram_other:
  assumes "mgr_ok m" and "k \<noteq> keyFromUDPAddr peer"
  shows "m_sessions (fst (handleDatagram g env m data peer)) k = m_sessions m k \<and>
         writes_of k (snd (handleDatagram g env m data peer)) = []"
proof -
  have "UWrite k b \<notin> set (snd (handleDatagram g env m data peer))" for b
    using handleDatagram_writes [of k b g env m data peer] assms by blast
  then have "writes_of k (snd (handleDatagram g env m data peer)) = []"
    by (metis writes_of_set list.set_intros(1) neq_Nil_conv)
  then show ?thesis
    using handleDatagram_ok [OF assms(1)] assms(2) by simp
qed

text \<open>A new session for a key that has none; there is none under a done one in a sound table.\<close>

lemma lookup_ok: "mgr_ok m \<Longrightarrow> lookup_session m k = m_sessions m k"
  by (auto simp: lookup_session_def mgr_ok_def split: option.splits)

lemma obtain_existing:
  "obtain_session g env m key peer (Some s) = (m, [ULog LevelDebug ''datagram''], Some s)"
  by (simp add: obtain_session_def)

lemma obtain_created:
  assumes "obtain_session g env m key peer None = (m1, eff, Some s)" and "m_sessions m key = None"
  shows "s = newSession key peer (ug_idleTimeout g)"
  using assms
  by (auto simp: obtain_session_def Create_def Let_def
      split: option.splits sum.splits prod.splits manager_error.splits if_splits)

lemma obtain_new:
  assumes "mgr_ok m" and "m_sessions m key = None" and "ue_dial_err env = None"
    and "m_max m \<le> 0 \<or> int (card (dom (m_sessions m))) < m_max m"
  shows "\<exists>m1. obtain_session g env m key peer None =
           (m1, [UDial, UStartReader key, ULog LevelInfo ''accept''],
            Some (newSession key peer (ug_idleTimeout g))) \<and>
         m_sessions m1 = (m_sessions m)(key \<mapsto> newSession key peer (ug_idleTimeout g)) \<and> mgr_ok m1"
proof -
  let ?s = "newSession key peer (ug_idleTimeout g)"
  from mgr.create_available [of m key peer "ug_idleTimeout g"] assms(1,4)
  obtain m1 s b where c: "Create m key peer (ug_idleTimeout g) = (m1, Inr (s, b))" by auto
  from c assms(2) have sb: "s = ?s" "b" "m_sessions m1 = (m_sessions m)(key \<mapsto> ?s)"
    by (auto simp: Create_def Let_def split: if_splits)
  moreover have "mgr_ok m1" using mgr.create_keeps [OF c assms(1)] by simp
  moreover have "\<not> us_done ?s" by (simp add: newSession_def)
  ultimately show ?thesis
    using assms(3) c by (auto simp: obtain_session_def Let_def)
qed

lemma emit_session:
  "m_sessions (fst (emit g env m s h x p)) (us_key s) =
     Some (let s2 = fst (encode_output g (persist_source s h x) h p)
           in case snd (encode_output g (persist_source s h x) h p) of
                Inl e \<Rightarrow> s2 | Inr b \<Rightarrow> refresh s2)"
  by (auto simp: emit_def put_session_def encode_output_def Let_def split: sum.splits)

section \<open>One header per session\<close>

definition header_sent :: "Manager \<Rightarrow> sessionKey \<Rightarrow> bool" where
  "header_sent m k = (\<exists>s. m_sessions m k = Some s \<and> us_headerSent s)"

text \<open>The payloads a run's datagrams carry.\<close>

definition payloads :: "UDPGateway \<Rightarrow> (udp_env \<times> bytes \<times> net_addr) list \<Rightarrow> bytes set" where
  "payloads g ds = {p. \<exists>(env, raw, peer) \<in> set ds. \<exists>data h x.
     receive g raw = Some data \<and> ug_reader g data = Inr (h, p, x)}"

lemma emit_first_mode:
  assumes "ug_outputMode g = OutputFirstDatagram"
  shows "header_sent (fst (emit g env m s h x p)) (us_key s)"
  using assms by (auto simp: header_sent_def emit_session encode_output_def Let_def split: sum.splits)

lemma first_mode_step:
  fixes env :: udp_env and data :: bytes and peer :: net_addr
  assumes "ug_outputMode g = OutputFirstDatagram" and "mgr_ok m"
  defines "r \<equiv> handleDatagram g env m data peer"
  shows "(header_sent m k \<longrightarrow> header_sent (fst r) k \<and>
            (\<forall>b \<in> set (writes_of k (snd r)). \<exists>h x. ug_reader g data = Inr (h, b, x))) \<and>
         (\<not> header_sent m k \<longrightarrow> writes_of k (snd r) = [] \<or>
            header_sent (fst r) k \<and>
            (\<exists>h b p h0 x. writes_of k (snd r) = [b] \<and> FormatDatagram (ug_format g) h p = Inr b \<and>
                     ug_reader g data = Inr (h0, p, x)))"
proof (cases "k = keyFromUDPAddr peer")
  case False
  with handleDatagram_other [OF assms(2) False, of g env data] show ?thesis
    by (simp add: r_def header_sent_def)
next
  case True
  show ?thesis
  proof (cases "admitted g m data peer")
    case None
    from handleDatagram_dropped [OF None, of env] show ?thesis
      by (simp add: r_def writes_of_logs)
  next
    case (Some t)
    obtain h x p where t: "t = (h, x, p)" by (cases t)
    note adm = Some [unfolded t]
    obtain h0 x0 where rd: "ug_reader g data = Inr (h0, p, x0)"
      using adm by (rule admitted_cases) blast+
    let ?o = "obtain_session g env m k peer (lookup_session m k)"
    obtain m1 eff so where o: "?o = (m1, eff, so)" by (cases ?o) auto
    show ?thesis
    proof (cases so)
      case None
      have "m_sessions m k = None"
        using o None lookup_ok [OF assms(2), of k]
        by (cases "m_sessions m k") (auto simp: obtain_existing)
      moreover from handleDatagram_no_session [OF adm o [unfolded None True]]
      have "writes_of k (snd r) = []" by (simp add: r_def)
      ultimately show ?thesis by (simp add: header_sent_def)
    next
      case s: (Some s)
      note ses = obtain_session_key [OF o [unfolded s] assms(2)]
      have same: "us_headerSent s = header_sent m k"
      proof (cases "m_sessions m k")
        case None
        with o s lookup_ok [OF assms(2), of k] have "s = newSession k peer (ug_idleTimeout g)"
          by (auto intro: obtain_created)
        with None show ?thesis by (simp add: header_sent_def newSession_def)
      next
        case (Some s0)
        with o s lookup_ok [OF assms(2), of k] show ?thesis
          by (simp add: obtain_existing header_sent_def)
      qed
      from handleDatagram_on_session [OF adm assms(2) o [unfolded s True]]
      have "m_sessions (fst r) k = m_sessions (fst (emit g env m1 s h x p)) k"
        and w: "writes_of k (snd r) = writes_of k (snd (emit g env m1 s h x p))"
        by (simp_all add: r_def True)
      then have "header_sent (fst r) k"
        using emit_first_mode [OF assms(1), of env m1 s h x p] ses by (simp add: header_sent_def)
      with w same rd ses assms(1) show ?thesis
        by (auto simp: emit_writes split: sum.splits)
    qed
  qed
qed

end
