(* ===== verification/Udp_Runs.thy ===== *)
theory Udp_Runs
  imports Udp_Flow
begin

text \<open>
  Whole runs of the UDP receive loop: the state of first-datagram mode, the recovery
  of a header for headerless datagrams, and the independence of peers when the session cap
  is off.
\<close>

section \<open>First-datagram mode\<close>

lemma serve_datagrams_Some:
  assumes "receive g raw = Some data"
  shows "serve_datagrams g m ((env, raw, peer) # rest) =
    (fst (serve_datagrams g (fst (handleDatagram g env m data peer)) rest),
     snd (handleDatagram g env m data peer) @
       snd (serve_datagrams g (fst (handleDatagram g env m data peer)) rest))"
  using assms by (simp add: split: prod.splits)

lemma serve_datagrams_None:
  assumes "receive g raw = None"
  shows "serve_datagrams g m ((env, raw, peer) # rest) =
    (fst (serve_datagrams g m rest),
     ULog LevelDebug ''oversized datagram dropped'' # snd (serve_datagrams g m rest))"
  using assms by (simp add: split: prod.splits)

declare serve_datagrams.simps(2) [simp del]

lemma payloads_Cons: "payloads g ds \<subseteq> payloads g (d # ds)"
  unfolding payloads_def by (rule Collect_mono) simp

lemma payloads_hd:
  "receive g raw = Some data \<Longrightarrow> ug_reader g data = Inr (h, p, x) \<Longrightarrow>
   p \<in> payloads g ((env, raw, peer) # ds)"
  unfolding payloads_def by fastforce

lemma serve_after_header:
  assumes "ug_outputMode g = OutputFirstDatagram" and "mgr_ok m" and "header_sent m k"
  shows "set (writes_of k (snd (serve_datagrams g m ds))) \<subseteq> payloads g ds"
  using assms(2,3)
proof (induction ds arbitrary: m)
  case (Cons d ds)
  obtain env raw peer where d: "d = (env, raw, peer)" by (cases d)
  show ?case
  proof (cases "receive g raw")
    case None
    with Cons payloads_Cons [of g ds d] show ?thesis
      by (auto simp: d serve_datagrams_None [OF None])
  next
    case (Some data)
    let ?r = "handleDatagram g env m data peer"
    from first_mode_step [OF assms(1) Cons.prems(1), where k = k and env = env and data = data and peer = peer]
      Cons.prems(2)
    have "header_sent (fst ?r) k"
      and w: "\<forall>b \<in> set (writes_of k (snd ?r)). \<exists>h x. ug_reader g data = Inr (h, b, x)"
      by blast+
    with Cons.IH [of "fst ?r"] handleDatagram_ok [OF Cons.prems(1), of g env data peer]
    have "set (writes_of k (snd (serve_datagrams g (fst ?r) ds))) \<subseteq> payloads g (d # ds)"
      using payloads_Cons by blast
    moreover have "set (writes_of k (snd ?r)) \<subseteq> payloads g (d # ds)"
      using w payloads_hd [OF Some] by (auto simp: d)
    ultimately show ?thesis
      by (simp add: d serve_datagrams_Some [OF Some])
  qed
qed simp

definition header_first :: "UDPGateway \<Rightarrow> bytes set \<Rightarrow> bytes list \<Rightarrow> bool" where
  "header_first g ps bs \<longleftrightarrow>
     (\<exists>first raws. bs = first @ raws \<and> length first \<le> 1 \<and> set raws \<subseteq> ps \<and>
        (\<forall>b \<in> set first. \<exists>h. \<exists>p \<in> ps. FormatDatagram (ug_format g) h p = Inr b))"

lemma header_first_mono: "header_first g ps bs \<Longrightarrow> ps \<subseteq> qs \<Longrightarrow> header_first g qs bs"
proof -
  assume "header_first g ps bs" and sub: "ps \<subseteq> qs"
  then obtain first raws where "bs = first @ raws" "length first \<le> 1" "set raws \<subseteq> ps"
    and "\<forall>b \<in> set first. \<exists>h. \<exists>p \<in> ps. FormatDatagram (ug_format g) h p = Inr b"
    unfolding header_first_def by blast
  moreover from this(3,4) sub have "set raws \<subseteq> qs"
    and "\<forall>b \<in> set first. \<exists>h. \<exists>p \<in> qs. FormatDatagram (ug_format g) h p = Inr b"
    by blast+
  ultimately show ?thesis unfolding header_first_def by blast
qed

lemma header_first_raw: "set bs \<subseteq> ps \<Longrightarrow> header_first g ps bs"
  unfolding header_first_def by (rule exI [of _ "[]"]) auto

lemma header_first_Cons:
  "FormatDatagram (ug_format g) h p = Inr b \<Longrightarrow> p \<in> ps \<Longrightarrow> set bs \<subseteq> ps \<Longrightarrow>
   header_first g ps (b # bs)"
  unfolding header_first_def by (rule exI [of _ "[b]"]) auto

lemma serve_first_mode:
  assumes "ug_outputMode g = OutputFirstDatagram" and "mgr_ok m"
  shows "header_first g (payloads g ds) (writes_of k (snd (serve_datagrams g m ds)))"
  using assms(2)
proof (induction ds arbitrary: m)
  case Nil
  show ?case by (simp add: header_first_raw)
next
  case (Cons d ds)
  obtain env raw peer where d: "d = (env, raw, peer)" by (cases d)
  show ?case
  proof (cases "header_sent m k")
    case True
    from serve_after_header [OF assms(1) Cons.prems True, of "d # ds"] show ?thesis
      by (rule header_first_raw)
  next
    case no: False
    show ?thesis
    proof (cases "receive g raw")
      case None
      from header_first_mono [OF Cons.IH [OF Cons.prems] payloads_Cons [of g ds d]] show ?thesis
        by (simp add: d serve_datagrams_None [OF None])
    next
      case (Some data)
      let ?r = "handleDatagram g env m data peer"
      let ?rest = "writes_of k (snd (serve_datagrams g (fst ?r) ds))"
      have ok: "mgr_ok (fst ?r)" using handleDatagram_ok [OF Cons.prems] by blast
      have split: "writes_of k (snd (serve_datagrams g m (d # ds))) = writes_of k (snd ?r) @ ?rest"
        by (simp add: d serve_datagrams_Some [OF Some])
      from first_mode_step [OF assms(1) Cons.prems, where k = k and env = env and data = data and peer = peer] no
      consider (quiet) "writes_of k (snd ?r) = []"
        | (sent) h b p h0 x where "header_sent (fst ?r) k" "writes_of k (snd ?r) = [b]"
            "FormatDatagram (ug_format g) h p = Inr b" "ug_reader g data = Inr (h0, p, x)"
        by blast
      then show ?thesis
      proof cases
        case quiet
        from header_first_mono [OF Cons.IH [OF ok] payloads_Cons [of g ds d]] show ?thesis
          unfolding split quiet by simp
      next
        case sent
        have "set ?rest \<subseteq> payloads g (d # ds)"
          using serve_after_header [OF assms(1) ok sent(1), of ds] payloads_Cons by blast
        moreover have "p \<in> payloads g (d # ds)"
          using payloads_hd [OF Some sent(4)] by (simp add: d)
        ultimately show ?thesis
          unfolding split sent(2) using header_first_Cons [OF sent(3)] by simp
      qed
    qed
  qed
qed

text \<open>
  When encoding the one header of first-datagram mode fails, the datagram is lost and so
  is the header: the session is marked as having sent it, and the next admitted datagram goes
  upstream as a bare payload.
\<close>

theorem failed_first_header_is_lost:
  assumes "ug_outputMode g = OutputFirstDatagram" and "mgr_ok m"
    and "m_sessions m (keyFromUDPAddr peer) = Some s" and "\<not> us_headerSent s"
    and "admitted g m data peer = Some (h, x, p)" and "FormatDatagram (ug_format g) h p = Inl e"
    and "m' = fst (handleDatagram g env m data peer)"
    and "admitted g m' data2 peer = Some (h2, x2, p2)"
  shows "writes_of (keyFromUDPAddr peer) (snd (handleDatagram g env m data peer)) = [] \<and>
         writes_of (keyFromUDPAddr peer) (snd (handleDatagram g env2 m' data2 peer)) = [p2]"
proof -
  let ?k = "keyFromUDPAddr peer"
  have l: "lookup_session m ?k = Some s" using assms(2,3) by (simp add: lookup_ok)
  have key: "us_key s = ?k" using assms(2,3) by (simp add: mgr_ok_def)
  have o: "obtain_session g env m ?k peer (lookup_session m ?k) =
             (m, [ULog LevelDebug ''datagram''], Some s)"
    unfolding l by (rule obtain_existing)
  note on = handleDatagram_on_session [OF assms(5,2) o]
  have w1: "writes_of ?k (snd (handleDatagram g env m data peer)) = []"
    using on assms(1,4,6) by (simp add: emit_writes)
  have "header_sent m' ?k"
    using on emit_first_mode [OF assms(1), of env m s h x p] key assms(7) by (simp add: header_sent_def)
  then obtain s' where s': "m_sessions m' ?k = Some s'" "us_headerSent s'"
    by (auto simp: header_sent_def)
  have ok': "mgr_ok m'" using handleDatagram_ok [OF assms(2)] assms(7) by blast
  then have key': "us_key s' = ?k" using s' by (simp add: mgr_ok_def)
  have "obtain_session g env2 m' ?k peer (lookup_session m' ?k) =
             (m', [ULog LevelDebug ''datagram''], Some s')"
    unfolding lookup_ok [OF ok'] s'(1) by (rule obtain_existing)
  from handleDatagram_on_session [OF assms(8) ok' this]
  have "writes_of ?k (snd (handleDatagram g env2 m' data2 peer)) = [p2]"
    using assms(1) s'(2) key' by (simp add: emit_writes)
  with w1 show ?thesis by blast
qed

section \<open>Header recovery\<close>

text \<open>A session that remembers a header.\<close>

definition remembers :: "Manager \<Rightarrow> sessionKey \<Rightarrow> Header \<Rightarrow> bool" where
  "remembers m k h \<longleftrightarrow>
     (\<exists>s. m_sessions m k = Some s \<and> us_inputSource s = Some h \<and> us_inputSrcKind s = Some SourceV2)"

lemma emit_every:
  assumes "ug_outputMode g = OutputEveryDatagram"
    and "addrsFromHeader h = (src, dst)" and "ug_format g 2 src dst = Inr hb"
  shows "writes_of (us_key s) (snd (emit g env m s h x p)) = [hb @ p]"
  using assms by (simp add: emit_writes FormatDatagram_def)

lemma emit_remembers:
  assumes "ug_outputMode g = OutputEveryDatagram" and "wf_v2 h"
    and "us_inputSource s = None \<or> us_inputSource s = Some h \<and> us_inputSrcKind s = Some SourceV2"
  shows "remembers (fst (emit g env m s h SourceV2 p)) (us_key s) h"
  using assms
  by (auto simp: remembers_def emit_session encode_output_def persist_source_def StoreInputSource_def
      cloneHeader_wf split: sum.splits)

lemma decide_trusted:
  assumes "IsTrusted (ug_trust g) (RemoteIP (peer_addrs g peer))" and "ug_policy g \<noteq> PolicyReject"
  shows "Decide (ug_policy g) (ug_trust g) (ug_untrusted g) SourceV2 h
           (RemoteIP (peer_addrs g peer)) (peer_addrs g peer) = (h, SourceV2, True, [])"
  using assms by (simp add: decide_defs)

lemma remembered_step:
  assumes "ug_outputMode g = OutputEveryDatagram" and "ug_reader g = ParseDatagram"
    and "IsTrusted (ug_trust g) (RemoteIP (peer_addrs g peer))" and "ug_policy g \<noteq> PolicyReject"
    and "mgr_ok m" and "remembers m (keyFromUDPAddr peer) h" and "wf_v2 h"
    and "addrsFromHeader h = (src, dst)" and "ug_format g 2 src dst = Inr hb"
    and "ParseDatagram d = Inr (zero_header, d, SourceDirect)"
  shows "remembers (fst (handleDatagram g env m d peer)) (keyFromUDPAddr peer) h \<and>
         writes_of (keyFromUDPAddr peer) (snd (handleDatagram g env m d peer)) = [hb @ d]"
proof -
  let ?k = "keyFromUDPAddr peer"
  from assms(6) obtain s where s: "m_sessions m ?k = Some s" "us_inputSource s = Some h"
      "us_inputSrcKind s = Some SourceV2"
    by (auto simp: remembers_def)
  have l: "lookup_session m ?k = Some s" using s(1) assms(5) by (simp add: lookup_ok)
  have key: "us_key s = ?k" using s(1) assms(5) by (simp add: mgr_ok_def)
  have "admitted g m d peer = Some (h, SourceV2, d)"
    using decide_trusted [OF assms(3,4)] s
    by (simp add: admitted_def assms(2,10) l decide_datagram_def recover_source_def Let_def)
  moreover have "obtain_session g env m ?k peer (lookup_session m ?k) =
                   (m, [ULog LevelDebug ''datagram''], Some s)"
    unfolding l by (rule obtain_existing)
  ultimately have "m_sessions (fst (handleDatagram g env m d peer)) ?k =
      m_sessions (fst (emit g env m s h SourceV2 d)) ?k"
    and "writes_of ?k (snd (handleDatagram g env m d peer)) =
      writes_of ?k (snd (emit g env m s h SourceV2 d))"
    using handleDatagram_on_session [OF _ assms(5)] by blast+
  with emit_every [OF assms(1,8,9), of s] emit_remembers [OF assms(1,7), of s env m d] s(2,3) key
  show ?thesis by (simp add: remembers_def)
qed

text \<open>
  When every datagram of a peer writes one datagram and keeps what makes it do so, the run
  writes them one by one, whatever other peers send in between.
\<close>

lemma steady_run:
  assumes "mgr_ok m" and "keeps m"
    and own: "\<And>m env raw. mgr_ok m \<Longrightarrow> keeps m \<Longrightarrow> R env raw \<Longrightarrow>
           keeps (fst (handleDatagram g env m raw peer)) \<and>
           writes_of (keyFromUDPAddr peer) (snd (handleDatagram g env m raw peer)) = [out raw]"
    and others: "\<And>m env raw q. mgr_ok m \<Longrightarrow> keeps m \<Longrightarrow> keyFromUDPAddr q \<noteq> keyFromUDPAddr peer \<Longrightarrow>
           keeps (fst (handleDatagram g env m raw q))"
    and ds: "\<forall>(env, raw, q) \<in> set ds. keyFromUDPAddr q = keyFromUDPAddr peer \<longrightarrow>
           q = peer \<and> receive g raw = Some raw \<and> R env raw"
  shows "writes_of (keyFromUDPAddr peer) (snd (serve_datagrams g m ds)) =
         [out raw. (env, raw, q) \<leftarrow> ds, keyFromUDPAddr q = keyFromUDPAddr peer]"
  using assms(1,2) ds
proof (induction ds arbitrary: m)
  case (Cons d ds)
  obtain env raw q where d: "d = (env, raw, q)" by (cases d)
  let ?k = "keyFromUDPAddr peer"
  show ?case
  proof (cases "receive g raw")
    case None
    with Cons.prems(3) have "keyFromUDPAddr q \<noteq> ?k" by (auto simp: d)
    with Cons.IH [OF Cons.prems(1,2)] Cons.prems(3) show ?thesis
      by (simp add: d serve_datagrams_None [OF None])
  next
    case (Some data)
    let ?r = "handleDatagram g env m data q"
    have ok: "mgr_ok (fst ?r)" using handleDatagram_ok [OF Cons.prems(1)] by blast
    have "keeps (fst ?r) \<and> writes_of ?k (snd ?r) = (if keyFromUDPAddr q = ?k then [out raw] else [])"
    proof (cases "keyFromUDPAddr q = ?k")
      case True
      with Cons.prems(3) Some have "q = peer" "data = raw" "R env raw"
        by (auto simp: d)
      with own [OF Cons.prems(1,2)] show ?thesis by simp
    next
      case False
      with handleDatagram_other [OF Cons.prems(1), of ?k q g env data] others [OF Cons.prems(1,2)]
      show ?thesis by simp
    qed
    with Cons.IH [OF ok] Cons.prems(3) show ?thesis
      by (simp add: d serve_datagrams_Some [OF Some])
  qed
qed simp

lemma remembered_run:
  assumes "ug_outputMode g = OutputEveryDatagram" and "ug_reader g = ParseDatagram"
    and "IsTrusted (ug_trust g) (RemoteIP (peer_addrs g peer))" and "ug_policy g \<noteq> PolicyReject"
    and "wf_v2 h" and "addrsFromHeader h = (src, dst)" and "ug_format g 2 src dst = Inr hb"
    and "mgr_ok m" and "remembers m (keyFromUDPAddr peer) h"
    and "\<forall>(env, raw, q) \<in> set ds. keyFromUDPAddr q = keyFromUDPAddr peer \<longrightarrow>
           q = peer \<and> receive g raw = Some raw \<and> ParseDatagram raw = Inr (zero_header, raw, SourceDirect)"
  shows "writes_of (keyFromUDPAddr peer) (snd (serve_datagrams g m ds)) =
         [hb @ raw. (env, raw, q) \<leftarrow> ds, keyFromUDPAddr q = keyFromUDPAddr peer]"
proof (rule steady_run [where keeps = "\<lambda>m. remembers m (keyFromUDPAddr peer) h",
      OF assms(8) assms(9) _ _ assms(10)])
  show "remembers (fst (handleDatagram g env m raw peer)) (keyFromUDPAddr peer) h \<and>
        writes_of (keyFromUDPAddr peer) (snd (handleDatagram g env m raw peer)) = [hb @ raw]"
    if "mgr_ok m" "remembers m (keyFromUDPAddr peer) h"
      "ParseDatagram raw = Inr (zero_header, raw, SourceDirect)" for m env raw
    using remembered_step [OF assms(1-4) that(1,2) assms(5-7) that(3)] .
  show "remembers (fst (handleDatagram g env m raw q)) (keyFromUDPAddr peer) h"
    if "mgr_ok m" "remembers m (keyFromUDPAddr peer) h" "keyFromUDPAddr q \<noteq> keyFromUDPAddr peer"
    for m env raw q
    using handleDatagram_other [OF that(1), of "keyFromUDPAddr peer" q g env raw] that(2,3)
    by (simp add: remembers_def)
qed


section \<open>Independence of peers\<close>

lemma Create_uncapped:
  assumes "m_max m \<le> 0" and "m_max m' \<le> 0" and "m_sessions m k = m_sessions m' k"
  shows "snd (Create m k c d) = snd (Create m' k c d) \<and>
         m_sessions (fst (Create m k c d)) k = m_sessions (fst (Create m' k c d)) k"
  using assms by (auto simp: Create_def Let_def split: option.splits)

lemma obtain_session_uncapped:
  assumes "m_max m \<le> 0" and "m_max m' \<le> 0" and "m_sessions m k = m_sessions m' k"
    and "obtain_session g env m k peer sess = (n, eff, so)"
    and "obtain_session g env m' k peer sess = (n', eff', so')"
  shows "eff = eff' \<and> so = so' \<and> m_sessions n k = m_sessions n' k"
proof -
  let ?d = "ug_idleTimeout g"
  obtain a r b r' where c: "Create m k peer ?d = (a, r)" "Create m' k peer ?d = (b, r')"
    by (cases "Create m k peer ?d", cases "Create m' k peer ?d") auto
  with Create_uncapped [OF assms(1-3), of peer ?d]
  have "r = r'" "m_sessions a k = m_sessions b k" by auto
  with c assms(3-5) show ?thesis
    by (cases sess; cases "ue_dial_err env"; cases r)
       (auto simp: obtain_session_def Let_def split: prod.splits manager_error.splits if_splits)
qed

lemma emit_same:
  "snd (emit g env m s h x p) = snd (emit g env m' s h x p)"
  by (simp add: emit_def Let_def split: prod.splits sum.splits)

lemma handleDatagram_uncapped:
  assumes "mgr_ok m" and "mgr_ok m'" and "m_max m \<le> 0" and "m_max m' \<le> 0"
    and "m_sessions m (keyFromUDPAddr peer) = m_sessions m' (keyFromUDPAddr peer)"
  shows "snd (handleDatagram g env m data peer) = snd (handleDatagram g env m' data peer) \<and>
         m_sessions (fst (handleDatagram g env m data peer)) (keyFromUDPAddr peer) =
         m_sessions (fst (handleDatagram g env m' data peer)) (keyFromUDPAddr peer)"
proof (cases "ug_reader g data")
  case (Inl e)
  with assms show ?thesis by (simp add: handleDatagram_def)
next
  case (Inr r)
  let ?k = "keyFromUDPAddr peer"
  obtain sess where sess: "m_sessions m ?k = sess" "m_sessions m' ?k = sess" using assms(5) by simp
  obtain h0 p x0 where r: "r = (h0, p, x0)" by (cases r)
  have l: "lookup_session m ?k = sess" "lookup_session m' ?k = sess"
    using assms(1,2) sess by (simp_all add: lookup_ok)
  obtain h x a why where d: "decide_datagram g peer sess h0 x0 = (h, x, a, why)"
    by (cases "decide_datagram g peer sess h0 x0") auto
  obtain n eff so n' eff' so' where o: "obtain_session g env m ?k peer sess = (n, eff, so)"
    and o': "obtain_session g env m' ?k peer sess = (n', eff', so')"
    by (cases "obtain_session g env m ?k peer sess", cases "obtain_session g env m' ?k peer sess") auto
  have same: "eff = eff'" "so = so'" "m_sessions n ?k = m_sessions n' ?k"
    using obtain_session_uncapped [OF assms(3,4,5) o o'] by auto
  show ?thesis
  proof (cases so)
    case None
    with same sess show ?thesis
      by (simp add: handleDatagram_def Inr r l d o o' Let_def)
  next
    case (Some s)
    have key: "us_key s = ?k"
      using obtain_session_key [of g env m ?k peer n eff s] o Some l(1) assms(1) by simp
    have "m_sessions (fst (emit g env n s h x p)) ?k = m_sessions (fst (emit g env n' s h x p)) ?k"
      using emit_session [of g env n s h x p] emit_session [of g env n' s h x p] key by simp
    with same sess Some emit_same [of g env n s h x p n'] show ?thesis
      by (auto simp: handleDatagram_def Inr r l d o o' Let_def split: prod.splits)
  qed
qed

lemma serve_uncapped:
  assumes "mgr_ok m" and "mgr_ok m'" and "m_max m \<le> 0" and "m_max m' \<le> 0"
    and "m_sessions m k = m_sessions m' k"
  shows "writes_of k (snd (serve_datagrams g m ds)) =
           writes_of k (snd (serve_datagrams g m' [d \<leftarrow> ds. keyFromUDPAddr (snd (snd d)) = k])) \<and>
         m_sessions (fst (serve_datagrams g m ds)) k =
           m_sessions (fst (serve_datagrams g m' [d \<leftarrow> ds. keyFromUDPAddr (snd (snd d)) = k])) k"
  using assms
proof (induction ds arbitrary: m m')
  case (Cons d ds)
  obtain env raw q where d: "d = (env, raw, q)" by (cases d)
  show ?case
  proof (cases "receive g raw")
    case None
    with Cons.IH [OF Cons.prems] show ?thesis
      by (simp add: d serve_datagrams_None [OF None])
  next
    case (Some data)
    let ?r = "handleDatagram g env m data q" and ?r' = "handleDatagram g env m' data q"
    have ok: "mgr_ok (fst ?r)" "mgr_ok (fst ?r')" "m_max (fst ?r) \<le> 0" "m_max (fst ?r') \<le> 0"
      using handleDatagram_ok [OF Cons.prems(1), of g env data q]
        handleDatagram_ok [OF Cons.prems(2), of g env data q] Cons.prems(3,4) by simp_all
    show ?thesis
    proof (cases "keyFromUDPAddr q = k")
      case True
      with handleDatagram_uncapped [OF Cons.prems(1-4), of q g env data] Cons.prems(5)
      have same: "snd ?r = snd ?r'" "m_sessions (fst ?r) k = m_sessions (fst ?r') k" by simp_all
      from Cons.IH [OF ok(1,2,3,4) same(2)] same(1) True show ?thesis
        by (simp add: d serve_datagrams_Some [OF Some])
    next
      case False
      with handleDatagram_other [OF Cons.prems(1), of k q g env data] Cons.prems(5)
      have "m_sessions (fst ?r) k = m_sessions m' k" "writes_of k (snd ?r) = []" by auto
      with Cons.IH [OF ok(1) Cons.prems(2) ok(3) Cons.prems(4)] False show ?thesis
        by (simp add: d serve_datagrams_Some [OF Some])
    qed
  qed
qed simp

text \<open>
  C14. With the session cap off, peers cannot influence each other: what a run sends upstream
  on a session, and the session it leaves, are those of the run that has only the datagrams
  of that session's own peer.
\<close>

theorem peers_independent:
  assumes "n \<le> 0"
  shows "writes_of k (snd (serve_datagrams g (NewUDPSessionManager n) ds)) =
           writes_of k (snd (serve_datagrams g (NewUDPSessionManager n)
             [d \<leftarrow> ds. keyFromUDPAddr (snd (snd d)) = k])) \<and>
         m_sessions (fst (serve_datagrams g (NewUDPSessionManager n) ds)) k =
           m_sessions (fst (serve_datagrams g (NewUDPSessionManager n)
             [d \<leftarrow> ds. keyFromUDPAddr (snd (snd d)) = k])) k"
  using serve_uncapped [OF mgr_ok_new mgr_ok_new, of n n] assms
  by (simp add: NewUDPSessionManager_def)

section \<open>The properties at concrete datagrams\<close>

definition relayed :: Header where
  "relayed = mk_header FamilyUDP4 [192, 0, 2, 7] [192, 0, 2, 1] 1234 53"

definition relayed_frame :: bytes where
  "relayed_frame = v2_frame relayed [] @ [9, 9]"

definition net192 :: TrustChecker where
  "net192 = \<lparr>nets = [\<lparr>NetIP = Some [192, 0, 2, 0], NetMask = [0xff, 0xff, 0xff, 0]\<rparr>],
             all_trusted = False\<rparr>"

lemma relayed_wf: "wf_v2 relayed"
  by (simp add: relayed_def wf_v2_def mk_header_def)

lemma parse_relayed: "ParseDatagram relayed_frame = Inr (relayed, [9, 9], SourceV2)"
  unfolding relayed_frame_def
  by (rule parse_frame [OF relayed_wf])
    (simp add: relayed_wf wf_v2_addr_block_length, simp add: relayed_def mk_header_def)

lemma parse_plain: "ParseDatagram [1, 2, 3] = Inr (zero_header, [1, 2, 3], SourceDirect)"
  by (simp add: ParseDatagram_def)

lemma client1_untrusted: "\<not> IsTrusted (Some net192) (RemoteIP (peer_addrs g client1))"
  by (simp add: IsTrusted_def net192_def client1_def peer_addrs_def RemoteIP_def Contains_def
      networkNumberAndMask_def Let_def)

lemma client1_trusted: "IsTrusted (Some net10) (RemoteIP (peer_addrs g client1))"
  by (simp add: IsTrusted_def net10_def client1_def peer_addrs_def RemoteIP_def Contains_def
      networkNumberAndMask_def Let_def)

lemma client1_valid: "To16 (addr_ip client1) \<noteq> None" "client1 \<noteq> OtherAddr"
  by (simp_all add: client1_def To16_def)

theorem dropped_consumes_nothing_witness:
  "fst (handleDatagram (ref_gateway OutputEveryDatagram (Some net192)) quiet_env one_session
          relayed_frame client1) = one_session"
proof -
  let ?g = "ref_gateway OutputEveryDatagram (Some net192)"
  have "recover_source s relayed SourceV2 = (relayed, SourceV2)" for s
    by (simp add: recover_source_def split: option.split)
  then show ?thesis
    using dropped_consumes_nothing [where g = ?g and data = relayed_frame and m = one_session
        and peer = client1 and env = quiet_env]
      client1_untrusted parse_relayed by (simp add: Let_def)
qed

lemma one_session_stored:
  "m_sessions one_session (keyFromUDPAddr client1) =
     Some (newSession (keyFromUDPAddr client1) client1 30000000000)"
  by (simp add: one_session_def Create_def NewUDPSessionManager_def Let_def)

lemma client1_key: "us_key (newSession (keyFromUDPAddr client1) client1 d) = keyFromUDPAddr client1"
  by (simp add: newSession_def)

text \<open>A headerless datagram of the untrusted client on its session.\<close>

lemma plain_admitted:
  "admitted (ref_gateway mode (Some net192)) one_session [1, 2, 3] client1 =
     Some (HeaderFromConn (peer_addrs (ref_gateway mode (Some net192)) client1), SourceDirect, [1, 2, 3])"
  by (simp add: admitted_def parse_plain decide_datagram_def lookup_ok [OF one_session_ok]
      one_session_stored recover_source_def newSession_def decide_defs)

lemma client1_header:
  "HeaderFromConn (peer_addrs (ref_gateway mode t) client1) =
     mk_header FamilyUDP4 [10, 0, 0, 7] [0, 0, 0, 0] 5353 53"
  by (simp add: HeaderFromConn_def peer_addrs_def client1_def mk_header_def buildAddrHeader_def Let_def
      zero_header_def)

lemma client1_format:
  "FormatDatagram ref_format (mk_header FamilyUDP4 [10, 0, 0, 7] [0, 0, 0, 0] 5353 53) p =
     Inr (v2_frame (mk_header FamilyUDP4 [10, 0, 0, 7] [0, 0, 0, 0] 5353 53) [] @ p)"
  by (rule Format_mk_header [OF ref_format_spec]) simp_all

lemma plain_written:
  "writes_of (keyFromUDPAddr client1)
     (snd (handleDatagram (ref_gateway mode (Some net192)) quiet_env one_session [1, 2, 3] client1)) =
   [v2_frame (mk_header FamilyUDP4 [10, 0, 0, 7] [0, 0, 0, 0] 5353 53) [] @ [1, 2, 3]]"
proof -
  let ?g = "ref_gateway mode (Some net192)" and ?k = "keyFromUDPAddr client1"
  have "obtain_session ?g quiet_env one_session ?k client1 (lookup_session one_session ?k) =
          (one_session, [ULog LevelDebug ''datagram''], Some (newSession ?k client1 30000000000))"
    unfolding lookup_ok [OF one_session_ok] one_session_stored by (rule obtain_existing)
  from handleDatagram_on_session [OF plain_admitted one_session_ok this] show ?thesis
    by (simp add: emit_writes client1_key client1_header client1_format)
      (simp add: newSession_def)
qed

theorem udp_no_spoofing_witness:
  "\<exists>b. UWrite (keyFromUDPAddr client1) b \<in>
         set (snd (handleDatagram (ref_gateway OutputEveryDatagram (Some net192)) quiet_env
           one_session [1, 2, 3] client1)) \<and>
       FormatDatagram ref_format
         (HeaderFromConn (peer_addrs (ref_gateway OutputEveryDatagram (Some net192)) client1))
         [1, 2, 3] = Inr b"
proof -
  let ?g = "ref_gateway OutputEveryDatagram (Some net192)"
  let ?b = "v2_frame (mk_header FamilyUDP4 [10, 0, 0, 7] [0, 0, 0, 0] 5353 53) [] @ [1, 2, 3]"
  have w: "UWrite (keyFromUDPAddr client1) ?b \<in>
      set (snd (handleDatagram ?g quiet_env one_session [1, 2, 3] client1))"
    using plain_written [of OutputEveryDatagram] by (simp add: writes_of_set [symmetric])
  have "\<not> IsTrusted (ug_trust ?g) (RemoteIP (peer_addrs ?g client1))"
    using client1_untrusted by simp
  from udp_no_spoofing [OF one_session_ok this w] w show ?thesis
    by (auto simp: parse_plain)
qed

definition relayed_run :: "(udp_env \<times> bytes \<times> net_addr) list" where
  "relayed_run = [(quiet_env, relayed_frame, client1), (quiet_env, [1, 2, 3], client1)]"

lemma relayed_run_valid:
  "\<forall>(env, raw, peer) \<in> set relayed_run. To16 (addr_ip peer) \<noteq> None \<and> peer \<noteq> OtherAddr"
  using client1_valid by (simp add: relayed_run_def)

theorem stored_sources_trusted_witness:
  "mgr_ok (fst (serve_datagrams (ref_gateway OutputEveryDatagram (Some net10))
     (NewUDPSessionManager 4) relayed_run))"
  using stored_sources_trusted [OF _ relayed_run_valid refl,
      of "ref_gateway OutputEveryDatagram (Some net10)" 4] by simp

theorem peers_independent_witness:
  "writes_of (keyFromUDPAddr client1)
     (snd (serve_datagrams (ref_gateway OutputEveryDatagram (Some net10)) (NewUDPSessionManager 0)
       ((quiet_env, [7], UDPAddr (Some [10, 0, 0, 8]) 99 []) # relayed_run))) =
   writes_of (keyFromUDPAddr client1)
     (snd (serve_datagrams (ref_gateway OutputEveryDatagram (Some net10)) (NewUDPSessionManager 0)
       [d \<leftarrow> (quiet_env, [7], UDPAddr (Some [10, 0, 0, 8]) 99 []) # relayed_run.
          keyFromUDPAddr (snd (snd d)) = keyFromUDPAddr client1]))"
  by (rule conjunct1 [OF peers_independent]) simp

lemma relayed_addrs:
  "addrsFromHeader relayed =
     (UDPAddr (Some [192, 0, 2, 7]) 1234 [], UDPAddr (Some [192, 0, 2, 1]) 53 [])"
  by (simp add: relayed_def addrsFromHeader_conn conn_addr_def)

lemma relayed_short: "length relayed_frame = 30"
  by (simp add: relayed_frame_def relayed_def v2_frame_def mk_header_def addr_block_def)


text \<open>A first-datagram gateway over an encoder that rejects every address.\<close>

definition mute_gateway :: UDPGateway where
  "mute_gateway = (ref_gateway OutputFirstDatagram (Some net192))
     \<lparr>ug_format := \<lambda>v src dst. Inl ''invalid address''\<rparr>"

lemma mute_simps:
  "ug_reader mute_gateway = ParseDatagram" "ug_policy mute_gateway = PolicyUse"
  "ug_trust mute_gateway = Some net192" "ug_outputMode mute_gateway = OutputFirstDatagram"
  by (simp_all add: mute_gateway_def)

lemma mute_admitted:
  assumes "mgr_ok m" and "m_sessions m (keyFromUDPAddr client1) = Some s" and "us_inputSource s = None"
  shows "admitted mute_gateway m [1, 2, 3] client1 =
           Some (HeaderFromConn (peer_addrs mute_gateway client1), SourceDirect, [1, 2, 3])"
  using assms
  by (simp add: admitted_def parse_plain decide_datagram_def lookup_ok recover_source_def
      mute_simps decide_defs)

theorem failed_first_header_is_lost_witness:
  "\<exists>m'. writes_of (keyFromUDPAddr client1)
          (snd (handleDatagram mute_gateway quiet_env one_session [1, 2, 3] client1)) = [] \<and>
        writes_of (keyFromUDPAddr client1)
          (snd (handleDatagram mute_gateway quiet_env m' [1, 2, 3] client1)) = [[1, 2, 3]]"
proof -
  let ?k = "keyFromUDPAddr client1" and ?g = mute_gateway
  let ?s = "newSession ?k client1 30000000000"
  let ?r = "handleDatagram ?g quiet_env one_session [1, 2, 3] client1"
  have s: "us_inputSource ?s = None" "\<not> us_headerSent ?s" "us_key ?s = ?k"
    by (simp_all add: newSession_def)
  note adm = mute_admitted [OF one_session_ok one_session_stored s(1)]
  have fmt: "FormatDatagram (ug_format ?g) (HeaderFromConn (peer_addrs ?g client1)) [1, 2, 3] =
      Inl (ErrFormat ''invalid address'')"
    by (simp add: FormatDatagram_def mute_gateway_def split: prod.split)
  have "obtain_session ?g quiet_env one_session ?k client1 (lookup_session one_session ?k) =
          (one_session, [ULog LevelDebug ''datagram''], Some ?s)"
    unfolding lookup_ok [OF one_session_ok] one_session_stored by (rule obtain_existing)
  note on = handleDatagram_on_session [OF adm one_session_ok this]
  have "m_sessions (fst ?r) ?k = Some (?s\<lparr>us_headerSent := True\<rparr>)"
    using on emit_session [of ?g quiet_env one_session ?s] s fmt
    by (simp add: encode_output_def persist_source_def mute_simps)
  moreover have "mgr_ok (fst ?r)" using handleDatagram_ok [OF one_session_ok] by blast
  ultimately have "admitted ?g (fst ?r) [1, 2, 3] client1 =
      Some (HeaderFromConn (peer_addrs ?g client1), SourceDirect, [1, 2, 3])"
    using mute_admitted s(1) by simp
  from failed_first_header_is_lost [OF mute_simps(4) one_session_ok one_session_stored s(2) adm fmt
      refl this] show ?thesis by blast
qed

end
