(* ===== verification/Udp_Serve.thy ===== *)
theory Udp_Serve
  imports Udp_Runs
begin

text \<open>
  \<open>Serve\<close> of \<open>internal/udp/gateway.go\<close> with the errors of \<open>ReadFromUDP\<close>: transient ones are
  invisible to the sessions, so what theories Udp_Flow and Udp_Runs prove of a run of datagrams
  holds of \<open>Serve\<close>; a closed socket ends it without an error and any other error is its result.
\<close>

section \<open>What the loop reads\<close>

definition ends_serve :: "udp_recv \<Rightarrow> bool" where
  "ends_serve r =
     (case r of
        RecvDatagram env raw peer \<Rightarrow> False
      | RecvError e \<Rightarrow> e = ErrNetClosed \<or> \<not> IsTemporaryNetError e)"

fun datagrams :: "udp_recv list \<Rightarrow> (udp_env \<times> bytes \<times> net_addr) list" where
  "datagrams [] = []"
| "datagrams (RecvDatagram env raw peer # rs) = (env, raw, peer) # datagrams rs"
| "datagrams (RecvError e # rs) = datagrams rs"

definition retry_effect :: "udp_effect \<Rightarrow> bool" where
  "retry_effect e \<longleftrightarrow> e = ULog LevelDebug ''transient read error'' \<or> (\<exists>d. e = USleep d)"

text \<open>The events \<open>Serve\<close> handles before it returns.\<close>

abbreviation handled :: "udp_recv list \<Rightarrow> udp_recv list" where
  "handled rs \<equiv> takeWhile (\<lambda>r. \<not> ends_serve r) rs"

section \<open>handleDatagram never retries\<close>

lemma no_retry_obtain:
  "obtain_session g env m key peer sess = (m', eff, so) \<Longrightarrow> \<forall>e \<in> set eff. \<not> retry_effect e"
  by (auto simp: obtain_session_def Let_def retry_effect_def
      split: option.splits prod.splits sum.splits manager_error.splits if_splits)

lemma no_retry_emit: "\<forall>e \<in> set (snd (emit g env m s h x p)). \<not> retry_effect e"
  by (auto simp: emit_def Let_def retry_effect_def split: option.splits prod.splits sum.splits)

lemma no_retry_rejection: "\<forall>e \<in> set (udp_rejection_log r). \<not> retry_effect e"
  by (simp add: udp_rejection_log_def retry_effect_def)

lemma no_retry_strip:
  "\<forall>e \<in> set (if b then [ULog LevelInfo ''stripped: untrusted source PROXY header''] else []). \<not> retry_effect e"
  by (simp add: retry_effect_def)

lemma no_retry_handle: "\<forall>e \<in> set (snd (handleDatagram g env m data peer)). \<not> retry_effect e"
proof (cases "ug_reader g data")
  case (Inl e)
  then show ?thesis by (simp add: handleDatagram_def retry_effect_def)
next
  case (Inr r)
  obtain h0 p x0 where r: "r = (h0, p, x0)" by (cases r)
  let ?sess = "lookup_session m (keyFromUDPAddr peer)"
  obtain h x a why where d: "decide_datagram g peer ?sess h0 x0 = (h, x, a, why)"
    by (cases "decide_datagram g peer ?sess h0 x0") auto
  obtain m1 eff so where o: "obtain_session g env m (keyFromUDPAddr peer) peer ?sess = (m1, eff, so)"
    by (cases "obtain_session g env m (keyFromUDPAddr peer) peer ?sess") auto
  note parts = no_retry_obtain [OF o] no_retry_rejection [of why] no_retry_strip [of "why = ''strip''"]
    no_retry_emit [of g env m1 _ h x p]
  have "snd (handleDatagram g env m data peer) =
      (if why = ''strip'' then [ULog LevelInfo ''stripped: untrusted source PROXY header''] else []) @
      (if \<not> a then udp_rejection_log why
       else eff @ (case so of None \<Rightarrow> [] | Some s \<Rightarrow> snd (emit g env m1 s h x p)))"
    by (cases so) (simp_all add: handleDatagram_def Inr r d o Let_def split: prod.split)
  with parts show ?thesis by (cases so) (simp_all add: ball_Un)
qed

lemma no_retry_run: "\<forall>e \<in> set (snd (serve_datagrams g m ds)). \<not> retry_effect e"
proof (induction ds arbitrary: m)
  case (Cons d ds)
  obtain env raw peer where d: "d = (env, raw, peer)" by (cases d)
  show ?case
  proof (cases "receive g raw")
    case None
    with Cons show ?thesis by (simp add: d serve_datagrams_None [OF None] retry_effect_def)
  next
    case (Some data)
    with Cons no_retry_handle show ?thesis by (auto simp: d serve_datagrams_Some [OF Some])
  qed
qed simp

section \<open>The loop\<close>

lemma ends_serve_simps [simp]:
  "\<not> ends_serve (RecvDatagram env raw peer)"
  "ends_serve (RecvError e) \<longleftrightarrow> e = ErrNetClosed \<or> \<not> IsTemporaryNetError e"
  by (simp_all add: ends_serve_def)

lemma retry_effect_simps [simp]:
  "retry_effect (ULog LevelDebug ''transient read error'')" "retry_effect (USleep d)"
  "\<not> retry_effect (ULog LevelDebug ''oversized datagram dropped'')"
  by (simp_all add: retry_effect_def)

lemma no_sleep: "\<forall>e \<in> set es. \<not> retry_effect e \<Longrightarrow> count_list es (USleep d) = 0"
  by (induction es) auto

text \<open>The result the first event that ends the loop gives.\<close>

definition end_of :: "net_err \<Rightarrow> serve_end" where
  "end_of e = (if e = ErrNetClosed then ServeNil else ServeErr e)"

definition serve_result :: "udp_recv list \<Rightarrow> serve_end" where
  "serve_result rs =
     (case dropWhile (\<lambda>r. \<not> ends_serve r) rs of
        RecvError e # later \<Rightarrow> end_of e
      | _ \<Rightarrow> StillReading)"

lemma serve_result_simps [simp]:
  "serve_result [] = StillReading"
  "serve_result (RecvDatagram env raw peer # rs) = serve_result rs"
  "serve_result (RecvError e # rs) =
     (if e = ErrNetClosed then ServeNil
      else if IsTemporaryNetError e then serve_result rs else ServeErr e)"
  by (simp_all add: serve_result_def end_of_def)

lemma serve_refines:
  "serve_loop g m rs = (m', out, res) \<Longrightarrow>
     m' = fst (serve_datagrams g m (datagrams (handled rs))) \<and>
     [e \<leftarrow> out. \<not> retry_effect e] = snd (serve_datagrams g m (datagrams (handled rs))) \<and>
     count_list out (USleep 5000000) = length [r \<leftarrow> handled rs. \<exists>e. r = RecvError e] \<and>
     res = serve_result rs"
proof (induction rs arbitrary: m m' out res)
  case (Cons r rs)
  show ?case
  proof (cases r)
    case (RecvError e)
    with Cons show ?thesis by (auto split: if_splits prod.splits)
  next
    case (RecvDatagram env raw peer)
    show ?thesis
    proof (cases "receive g raw")
      case None
      with Cons show ?thesis
        by (auto simp: RecvDatagram serve_datagrams_None [OF None] split: prod.splits)
    next
      case (Some data)
      let ?r = "handleDatagram g env m data peer"
      have "[e \<leftarrow> snd ?r. \<not> retry_effect e] = snd ?r" "count_list (snd ?r) (USleep 5000000) = 0"
        using no_retry_handle [of g env m data peer] by (simp_all add: no_sleep)
      moreover obtain out' where "serve_loop g (fst ?r) rs = (m', out', res)" "out = snd ?r @ out'"
        using Cons.prems Some by (auto simp: RecvDatagram split: prod.splits)
      ultimately show ?thesis
        using Cons.IH [of "fst ?r"] by (simp add: RecvDatagram serve_datagrams_Some [OF Some])
    qed
  qed
qed simp

lemma Serve_loop:
  assumes "udp_Serve g m rs = (m', out, res)" and "recv_buffer (ug_maxDatagramSize g) \<noteq> None"
  shows "serve_loop g m rs = (m', out, res)"
  using assms by (auto simp: udp_Serve_def split: option.splits)

lemma Serve_panic:
  "recv_buffer (ug_maxDatagramSize g) = None \<Longrightarrow> udp_Serve g m rs = (m, [], ServePanic)"
  by (simp add: udp_Serve_def)

lemma writes_of_filter: "writes_of k [e \<leftarrow> out. \<not> retry_effect e] = writes_of k out"
proof (induction out)
  case (Cons e out)
  then show ?case by (cases e) (auto simp: retry_effect_def)
qed simp

lemma serve_result_reading: "serve_result rs = StillReading \<longleftrightarrow> (\<forall>r \<in> set rs. \<not> ends_serve r)"
proof (induction rs)
  case (Cons r rs)
  then show ?case by (cases r) auto
qed simp

text \<open>
  C31. As long as the receive buffer can be made, \<open>Serve\<close> handles the datagrams it received
  before the first error that ends it, as if no transient error had come in between: the
  sessions, and every effect but the log and the 5 ms sleep that each transient error causes
  once, are those of the datagrams alone. It keeps reading as long as no error ends it; a closed
  socket makes it return nil, any other non-transient error is returned as it is, and nothing
  read afterwards has an effect. It never panics.
\<close>

theorem Serve_read_errors:
  assumes "udp_Serve g m rs = (m', out, res)" and "ug_maxDatagramSize g < 2 ^ 48"
  shows "m' = fst (serve_datagrams g m (datagrams (handled rs))) \<and>
         [e \<leftarrow> out. \<not> retry_effect e] = snd (serve_datagrams g m (datagrams (handled rs))) \<and>
         count_list out (USleep 5000000) = length [r \<leftarrow> handled rs. \<exists>e. r = RecvError e] \<and>
         (res = StillReading \<longleftrightarrow> (\<forall>r \<in> set rs. \<not> ends_serve r)) \<and>
         (\<forall>e later. rs = handled rs @ RecvError e # later \<longrightarrow>
            res = (if e = ErrNetClosed then ServeNil else ServeErr e)) \<and>
         res \<noteq> ServePanic"
proof -
  note run = serve_refines [OF Serve_loop [OF assms(1)]]
  have ok: "recv_buffer (ug_maxDatagramSize g) \<noteq> None" using recv_buffer_Some [OF assms(2)] by simp
  have ends: "\<forall>e later. rs = handled rs @ RecvError e # later \<longrightarrow> serve_result rs = end_of e"
  proof (intro allI impI)
    fix e later
    assume split: "rs = handled rs @ RecvError e # later"
    have "dropWhile (\<lambda>r. \<not> ends_serve r) rs = RecvError e # later"
      by (metis split append_same_eq same_append_eq takeWhile_dropWhile_id)
    then show "serve_result rs = end_of e"
      by (simp only: serve_result_def list.case udp_recv.case)
  qed
  have "serve_result rs \<noteq> ServePanic"
    by (simp add: serve_result_def end_of_def split: list.splits udp_recv.splits)
  then show ?thesis
    by (intro conjI) (use run [OF ok] ends serve_result_reading [of rs] in \<open>simp_all add: end_of_def\<close>)
qed

text \<open>
  C13. In first-datagram mode what a session sends upstream until \<open>Serve\<close> returns is at most
  one datagram with a PROXY header, and it comes first; everything after it is the bare payload
  of a received datagram. This holds for every session, whatever other peers send and whatever
  errors the reads return.
\<close>

theorem first_datagram_one_header:
  assumes "ug_outputMode g = OutputFirstDatagram"
    and "udp_Serve g (NewUDPSessionManager n) rs = (m, effects, res)"
  shows "\<exists>first raws. writes_of k effects = first @ raws \<and> length first \<le> 1 \<and>
           (\<forall>b \<in> set first. \<exists>h. \<exists>p \<in> payloads g (datagrams rs). FormatDatagram (ug_format g) h p = Inr b) \<and>
           (\<forall>b \<in> set raws. b \<in> payloads g (datagrams rs))"
proof -
  have "set (datagrams (handled rs)) \<subseteq> set (datagrams rs)"
    by (induction rs rule: datagrams.induct) auto
  then have "payloads g (datagrams (handled rs)) \<subseteq> payloads g (datagrams rs)"
    unfolding payloads_def by blast
  moreover have "header_first g (payloads g (datagrams (handled rs))) (writes_of k effects)"
  proof (cases "recv_buffer (ug_maxDatagramSize g)")
    case None
    then show ?thesis using assms(2) by (simp add: Serve_panic header_first_raw)
  next
    case (Some buf)
    with serve_refines [OF Serve_loop [OF assms(2)]] show ?thesis
      using serve_first_mode [OF assms(1) mgr_ok_new, of "datagrams (handled rs)" k n]
        writes_of_filter [of k effects] by simp
  qed
  ultimately have "header_first g (payloads g (datagrams rs)) (writes_of k effects)"
    by (metis header_first_mono)
  then show ?thesis unfolding header_first_def subset_iff by blast
qed

text \<open>A signal interrupts the first read; the socket is closed after one datagram.\<close>

theorem Serve_read_errors_witness:
  "\<exists>out. udp_Serve (ref_gateway OutputEveryDatagram None) one_session
       [RecvError (ErrErrno ''EINTR''), RecvDatagram quiet_env [1, 2, 3] client1,
        RecvError ErrNetClosed, RecvDatagram quiet_env [4] client1] =
       (fst (serve_datagrams (ref_gateway OutputEveryDatagram None) one_session
          [(quiet_env, [1, 2, 3], client1)]), out, ServeNil) \<and>
     count_list out (USleep 5000000) = 1"
proof -
  let ?g = "ref_gateway OutputEveryDatagram None"
  let ?rs = "[RecvError (ErrErrno ''EINTR''), RecvDatagram quiet_env [1, 2, 3] client1,
    RecvError ErrNetClosed, RecvDatagram quiet_env [4] client1]"
  have h: "handled ?rs = [RecvError (ErrErrno ''EINTR''), RecvDatagram quiet_env [1, 2, 3] client1]"
    by (simp add: IsTemporaryNetError_def)
  obtain m' out res where r: "udp_Serve ?g one_session ?rs = (m', out, res)"
    by (cases "udp_Serve ?g one_session ?rs") auto
  have "ug_maxDatagramSize ?g < 2 ^ 48" by simp
  from Serve_read_errors [OF r this] have
    "m' = fst (serve_datagrams ?g one_session [(quiet_env, [1, 2, 3], client1)])"
    "count_list out (USleep 5000000) = 1" "res = ServeNil"
    unfolding h by simp_all
  with r show ?thesis by blast
qed

theorem first_datagram_one_header_witness:
  "\<exists>first raws. writes_of (keyFromUDPAddr client1)
       (fst (snd (udp_Serve (ref_gateway OutputFirstDatagram (Some net10)) (NewUDPSessionManager 4)
          [RecvDatagram quiet_env relayed_frame client1, RecvError ErrTimeout,
           RecvDatagram quiet_env [1, 2, 3] client1]))) = first @ raws \<and> length first \<le> 1"
proof -
  let ?g = "ref_gateway OutputFirstDatagram (Some net10)"
  let ?rs = "[RecvDatagram quiet_env relayed_frame client1, RecvError ErrTimeout,
    RecvDatagram quiet_env [1, 2, 3] client1]"
  obtain m out res where r: "udp_Serve ?g (NewUDPSessionManager 4) ?rs = (m, out, res)"
    by (cases "udp_Serve ?g (NewUDPSessionManager 4) ?rs") auto
  from first_datagram_one_header [OF _ this, of "keyFromUDPAddr client1"]
  show ?thesis unfolding r fst_conv snd_conv by simp blast
qed

end
