(* ===== verification/Udp_Shutdown.thy ===== *)
theory Udp_Shutdown
  imports Udp_Manager Steps
begin

text \<open>
  The shutdown of the UDP gateway, \<open>UDPGateway.Close\<close> and \<open>UDPSessionManager.ExpireAll\<close>, among
  the goroutines it meets: the one inside \<open>Serve\<close>, which may be half-way through creating a
  session when the listener is closed, the readers, and the idle timers. Sessions are numbered
  in the order they are made; how a single \<open>Create\<close> or \<open>expire\<close> interleaves with others is in
  theory Udp_Race, so the steps here take \<open>expire\<close> whole, and a session's timer does not fire
  before the session is stored.
\<close>

section \<open>The goroutines\<close>

datatype serve_state =
    Reading            \<comment> \<open>in \<open>ReadFromUDP\<close>, or handling a datagram that creates nothing\<close>
  | Storing nat        \<comment> \<open>at \<open>LoadOrStore\<close> with a new session\<close>
  | Starting nat       \<comment> \<open>at \<open>startReader\<close>\<close>
  | ServeReturned

datatype close_state =
    NotClosed
  | ListenerClosed     \<comment> \<open>at \<open>ExpireAll\<close>\<close>
  | Ranging "nat set"  \<comment> \<open>the sessions \<open>Range\<close> still has to visit\<close>
  | WaitingReaders     \<comment> \<open>at \<open>wg.Wait()\<close>\<close>
  | CloseReturned

record shutdown =
  sd_listening :: bool
  sd_next :: nat
  sd_map :: "nat set"
  sd_expired :: "nat set"
  sd_wg :: nat
  sd_readers :: "nat set"
  sd_serve :: serve_state
  sd_close :: close_state

text \<open>
  \<open>Range\<close> visits every session stored when it starts and not removed since; it may visit one
  stored later. Visiting is expiring, which removes.
\<close>

inductive sd_step :: "shutdown \<Rightarrow> shutdown \<Rightarrow> bool" where
  receive: "sd_serve s = Reading \<Longrightarrow> sd_listening s \<Longrightarrow>
    sd_step s (s\<lparr>sd_serve := Storing (sd_next s), sd_next := Suc (sd_next s)\<rparr>)"
| store: "sd_serve s = Storing k \<Longrightarrow>
    sd_step s (s\<lparr>sd_serve := Starting k, sd_map := insert k (sd_map s)\<rparr>)"
| start_reader: "sd_serve s = Starting k \<Longrightarrow>
    sd_step s (s\<lparr>sd_serve := Reading, sd_wg := Suc (sd_wg s), sd_readers := insert k (sd_readers s)\<rparr>)"
| serve_returns: "sd_serve s = Reading \<Longrightarrow> \<not> sd_listening s \<Longrightarrow>
    sd_step s (s\<lparr>sd_serve := ServeReturned\<rparr>)"
| session_expires: "k \<in> sd_map s \<Longrightarrow>
    sd_step s (s\<lparr>sd_map := sd_map s - {k}, sd_expired := insert k (sd_expired s)\<rparr>)"
| reader_exits: "k \<in> sd_readers s \<Longrightarrow> k \<in> sd_expired s \<Longrightarrow>
    sd_step s (s\<lparr>sd_readers := sd_readers s - {k}, sd_wg := sd_wg s - 1\<rparr>)"
| close_listener: "sd_close s = NotClosed \<Longrightarrow>
    sd_step s (s\<lparr>sd_listening := False, sd_close := ListenerClosed\<rparr>)"
| range_starts: "sd_close s = ListenerClosed \<Longrightarrow> sd_step s (s\<lparr>sd_close := Ranging (sd_map s)\<rparr>)"
| visit: "sd_close s = Ranging todo \<Longrightarrow> k \<in> sd_map s \<Longrightarrow>
    sd_step s (s\<lparr>sd_map := sd_map s - {k}, sd_expired := insert k (sd_expired s),
                 sd_close := Ranging (todo - {k})\<rparr>)"
| range_ends: "sd_close s = Ranging todo \<Longrightarrow> todo \<inter> sd_map s = {} \<Longrightarrow>
    sd_step s (s\<lparr>sd_close := WaitingReaders\<rparr>)"
| wait_ends: "sd_close s = WaitingReaders \<Longrightarrow> sd_wg s = 0 \<Longrightarrow>
    sd_step s (s\<lparr>sd_close := CloseReturned\<rparr>)"

inductive_cases sd_stepE: "sd_step s t"

definition sd_init :: shutdown where
  "sd_init = \<lparr>sd_listening = True, sd_next = 0, sd_map = {}, sd_expired = {}, sd_wg = 0,
              sd_readers = {}, sd_serve = Reading, sd_close = NotClosed\<rparr>"

abbreviation sd_run :: "nat \<Rightarrow> shutdown \<Rightarrow> shutdown \<Rightarrow> bool" where
  "sd_run \<equiv> stepn sd_step"

lemmas sd_refl = stepn_refl [of sd_step]
lemmas sd_more = stepn_more [of sd_step]

section \<open>Invariant\<close>

text \<open>The session \<open>Serve\<close> is creating.\<close>

fun creating :: "serve_state \<Rightarrow> nat set" where
  "creating (Storing k) = {k}"
| "creating (Starting k) = {k}"
| "creating _ = {}"

text \<open>
  The wait group counts the readers; a stored session has its reader or is about to get it; a
  reader whose session is not stored any more can exit; ids are fresh.
\<close>

definition readers_ok :: "shutdown \<Rightarrow> bool" where
  "readers_ok s \<longleftrightarrow>
     finite (sd_readers s) \<and> finite (sd_map s) \<and> sd_wg s = card (sd_readers s) \<and>
     sd_map s \<subseteq> sd_readers s \<union> creating (sd_serve s) \<and>
     sd_readers s \<subseteq> sd_map s \<union> sd_expired s \<and>
     (\<forall>k \<in> sd_map s \<union> sd_readers s \<union> sd_expired s \<union> creating (sd_serve s). k < sd_next s) \<and>
     sd_readers s \<inter> creating (sd_serve s) = {} \<and>
     (\<forall>k. sd_serve s = Starting k \<longrightarrow> k \<in> sd_map s \<union> sd_expired s) \<and>
     sd_map s \<inter> sd_expired s = {} \<and>
     (\<forall>k. sd_serve s = Storing k \<longrightarrow> k \<notin> sd_map s \<union> sd_expired s)"

definition close_ok :: "shutdown \<Rightarrow> bool" where
  "close_ok s \<longleftrightarrow>
     (sd_close s = NotClosed \<longleftrightarrow> sd_listening s) \<and>
     (sd_serve s = ServeReturned \<longrightarrow> \<not> sd_listening s) \<and>
     (sd_close s = CloseReturned \<longrightarrow>
        card (sd_map s \<union> sd_readers s \<union> creating (sd_serve s)) \<le> 1)"

lemma readers_ok_step: "sd_step s t \<Longrightarrow> readers_ok s \<Longrightarrow> readers_ok t"
  unfolding readers_ok_def
  by (induction rule: sd_step.induct) (auto simp: card_Diff_singleton intro: less_SucI)

lemma card_le_one_subset: "finite A \<Longrightarrow> card A \<le> 1 \<Longrightarrow> B \<subseteq> A \<Longrightarrow> card B \<le> 1"
  by (meson card_mono le_trans)

lemma finite_creating [simp]: "finite (creating x)" "card (creating x) \<le> 1"
  by (cases x; simp)+

lemma close_ok_step:
  assumes "sd_step s t" and "readers_ok s" and "close_ok s"
  shows "close_ok t"
proof -
  let ?busy = "\<lambda>s. sd_map s \<union> sd_readers s \<union> creating (sd_serve s)"
  have fin: "finite (?busy s)" using assms(2) by (simp add: readers_ok_def)
  have "card (?busy t) \<le> 1" if "sd_close t = CloseReturned"
  proof (cases "sd_close s = CloseReturned")
    case True
    with assms(3) have "card (?busy s) \<le> 1" "\<not> sd_listening s" by (auto simp: close_ok_def)
    moreover from assms(1) True \<open>\<not> sd_listening s\<close> have "?busy t \<subseteq> ?busy s"
      by cases auto
    ultimately show ?thesis using card_le_one_subset [OF fin] by blast
  next
    case False
    with assms(1) that have "t = s\<lparr>sd_close := CloseReturned\<rparr>" "sd_wg s = 0"
      by (auto elim: sd_stepE)
    with assms(2) have "?busy t \<subseteq> creating (sd_serve s)" by (auto simp: readers_ok_def)
    then show ?thesis using card_le_one_subset [OF finite_creating] by blast
  qed
  with assms(1,3) show ?thesis by (auto simp: close_ok_def elim: sd_stepE)
qed

lemma sd_init_ok: "readers_ok sd_init \<and> close_ok sd_init"
  by (simp add: sd_init_def readers_ok_def close_ok_def)

interpretation sd: preserved sd_step "\<lambda>s. readers_ok s \<and> close_ok s"
  by unfold_locales (blast intro: readers_ok_step close_ok_step)

section \<open>Termination\<close>

fun serve_left :: "serve_state \<Rightarrow> nat" where
  "serve_left (Storing k) = 5"
| "serve_left (Starting k) = 3"
| "serve_left Reading = 1"
| "serve_left ServeReturned = 0"

fun close_left :: "close_state \<Rightarrow> nat" where
  "close_left NotClosed = 4"
| "close_left ListenerClosed = 3"
| "close_left (Ranging T) = 2"
| "close_left WaitingReaders = 1"
| "close_left CloseReturned = 0"

definition steps_left :: "shutdown \<Rightarrow> nat" where
  "steps_left s = serve_left (sd_serve s) + close_left (sd_close s) + card (sd_map s) + card (sd_readers s)"

lemma steps_left_step:
  assumes "sd_step s t" and "readers_ok s" and "\<not> sd_listening s"
  shows "steps_left t < steps_left s \<and> \<not> sd_listening t"
proof -
  have fin: "finite (sd_map s)" "finite (sd_readers s)" using assms(2) by (simp_all add: readers_ok_def)
  have pos: "k \<in> A \<Longrightarrow> finite A \<Longrightarrow> card A - Suc 0 < card A" for k and A :: "nat set"
    by (metis Suc_pred card_gt_0_iff empty_iff lessI)
  from assms fin show ?thesis
    by (cases rule: sd_step.cases)
       (auto simp: steps_left_def readers_ok_def card_insert_if card_Diff_singleton pos)
qed

text \<open>A closed gateway that can do nothing more has shut down completely.\<close>

lemma stuck_closed:
  assumes "readers_ok s" and "close_ok s" and "\<not> sd_listening s" and stuck: "\<nexists>t. sd_step s t"
  shows "sd_close s = CloseReturned \<and> sd_serve s = ServeReturned \<and> sd_map s = {} \<and> sd_readers s = {}"
proof -
  have serve: "sd_serve s = ServeReturned"
    using stuck assms(3) store start_reader serve_returns by (cases "sd_serve s") blast+
  have map: "sd_map s = {}" using stuck session_expires by blast
  have readers: "sd_readers s = {}" 
    using assms(1) map stuck reader_exits unfolding readers_ok_def by blast
  then have "sd_wg s = 0" using assms(1) by (simp add: readers_ok_def)
  moreover have "sd_close s \<noteq> NotClosed" using assms(2,3) by (simp add: close_ok_def)
  ultimately have "sd_close s = CloseReturned"
    using stuck map range_starts range_ends wait_ends by (cases "sd_close s") blast+
  with serve map readers show ?thesis by blast
qed

definition shut_down :: "shutdown \<Rightarrow> bool" where
  "shut_down s \<longleftrightarrow>
     sd_close s = CloseReturned \<and> sd_serve s = ServeReturned \<and> sd_map s = {} \<and> sd_readers s = {}"

definition closed_ok :: "shutdown \<Rightarrow> bool" where
  "closed_ok s \<longleftrightarrow> readers_ok s \<and> close_ok s \<and> \<not> sd_listening s"

interpretation closing: finishing sd_step closed_ok steps_left shut_down
proof
  show "closed_ok t" if "sd_step s t" "closed_ok s" for s t
    using that sd.inv_step [OF that(1)] steps_left_step [OF that(1)] by (simp add: closed_ok_def)
qed (simp_all add: closed_ok_def shut_down_def stuck_closed steps_left_step)

section \<open>What Close leaves behind\<close>

text \<open>\<open>Serve\<close> was not creating a session when \<open>Range\<close> started.\<close>

definition undisturbed :: "shutdown \<Rightarrow> bool" where
  "undisturbed s \<longleftrightarrow>
     \<not> sd_listening s \<and> creating (sd_serve s) = {} \<and>
     (case sd_close s of
        NotClosed \<Rightarrow> False
      | ListenerClosed \<Rightarrow> True
      | Ranging todo \<Rightarrow> sd_map s \<subseteq> todo
      | WaitingReaders \<Rightarrow> sd_map s = {}
      | CloseReturned \<Rightarrow> sd_map s = {} \<and> sd_readers s = {})"

lemma undisturbed_step:
  "sd_step s t \<Longrightarrow> readers_ok s \<Longrightarrow> undisturbed s \<Longrightarrow> undisturbed t"
  unfolding undisturbed_def readers_ok_def
  by (induction rule: sd_step.induct) (auto split: close_state.splits)

interpretation quiet_close: preserved sd_step "\<lambda>s. (readers_ok s \<and> close_ok s) \<and> undisturbed s"
  by unfold_locales (use sd.inv_step undisturbed_step in blast)


text \<open>A gateway with one session, closed between two datagrams.\<close>

definition one_reader :: shutdown where
  "one_reader = sd_init\<lparr>sd_next := 1, sd_map := {0}, sd_readers := {0}, sd_wg := 1,
     sd_listening := False, sd_close := ListenerClosed\<rparr>"

lemma one_reader_reached: "sd_run (Suc (Suc (Suc (Suc 0)))) sd_init one_reader"
proof -
  let ?a = "sd_init\<lparr>sd_serve := Storing 0, sd_next := 1\<rparr>"
  let ?b = "?a\<lparr>sd_serve := Starting 0, sd_map := {0}\<rparr>"
  let ?c = "?b\<lparr>sd_serve := Reading, sd_wg := 1, sd_readers := {0}\<rparr>"
  have a: "sd_step sd_init ?a" using receive [of sd_init] by (simp add: sd_init_def)
  have b: "sd_step ?a ?b" using store [of ?a 0] by (simp add: sd_init_def)
  have c: "sd_step ?b ?c" using start_reader [of ?b 0] by (simp add: sd_init_def)
  have "sd_step ?c one_reader" using close_listener [of ?c] by (simp add: sd_init_def one_reader_def)
  with a b c show ?thesis by (intro sd_more [OF sd_more [OF sd_more [OF sd_more [OF sd_refl]]]])
qed

text \<open>
  A datagram of a new peer is being handled when the gateway is closed: \<open>Close\<close> returns before
  the session is stored, which then lives on with its reader until its idle timeout.
\<close>

lemma close_outlived:
  "\<exists>n t. sd_run n sd_init t \<and> sd_close t = CloseReturned \<and> sd_map t = {0} \<and> sd_readers t = {0}"
proof -
  let ?a = "sd_init\<lparr>sd_serve := Storing 0, sd_next := 1\<rparr>"
  let ?b = "?a\<lparr>sd_listening := False, sd_close := ListenerClosed\<rparr>"
  let ?c = "?b\<lparr>sd_close := Ranging {}\<rparr>"
  let ?d = "?c\<lparr>sd_close := WaitingReaders\<rparr>"
  let ?e = "?d\<lparr>sd_close := CloseReturned\<rparr>"
  let ?f = "?e\<lparr>sd_serve := Starting 0, sd_map := {0}\<rparr>"
  let ?g = "?f\<lparr>sd_serve := Reading, sd_wg := 1, sd_readers := {0}\<rparr>"
  have a: "sd_step sd_init ?a" using receive [of sd_init] by (simp add: sd_init_def)
  have b: "sd_step ?a ?b" using close_listener [of ?a] by (simp add: sd_init_def)
  have c: "sd_step ?b ?c" using range_starts [of ?b] by (simp add: sd_init_def)
  have d: "sd_step ?c ?d" using range_ends [of ?c "{}"] by (simp add: sd_init_def)
  have e: "sd_step ?d ?e" using wait_ends [of ?d] by (simp add: sd_init_def)
  have f: "sd_step ?e ?f" using store [of ?e 0] by (simp add: sd_init_def)
  have g: "sd_step ?f ?g" using start_reader [of ?f 0] by (simp add: sd_init_def)
  from sd_refl a b c d e f g have "\<exists>n. sd_run n sd_init ?g"
    by (blast intro: sd_more)
  then show ?thesis by (intro exI [of _ ?g] ex_comm [THEN iffD1]) simp
qed


end
