(* ===== verification/Udp_Expiry.thy ===== *)
theory Udp_Expiry
  imports Udp_Runs Steps
begin

text \<open>
  One session between two goroutines: \<open>handleDatagram\<close> (\<open>internal/udp/gateway.go\<close>), which loads
  and stores the session's fields one at a time, and \<open>expire\<close> (\<open>session.go\<close>), which clears them
  one at a time, whoever calls it first (the timer, the reader or \<open>Close\<close>). Theory Udp_Gateway has the
  same steps in one piece; here they interleave at every atomic action.
\<close>

section \<open>The two goroutines\<close>

text \<open>
  Where the handler is. \<open>Creating\<close> is after \<open>Create\<close> has returned this session as a new one,
  with the datagram that caused it; \<open>Idle\<close> is between two datagrams, or working on another session.
\<close>

datatype handler_pc =
    Creating bytes
  | Idle
  | LoadingSource Header bytes
  | LoadingKind Header Header bytes
  | Deciding Header Source bytes
  | Persisting Header Source bytes
  | StoringSource Header Source bytes
  | StoringKind Header Source bytes
  | Encoding Header bytes
  | Writing bytes
  | Refreshing
  | Resetting

text \<open>How far the body of \<open>once.Do\<close> is.\<close>

datatype expire_pc =
    NotExpired | DoneClosed | TimerDone | SourceCleared | KindCleared | SocketClosed | Expired

text \<open>\<open>ex_seen\<close> are the datagrams taken up on the session and \<open>ex_sent\<close> those sent, newest first.\<close>

record expiry =
  ex_sess :: UDPSession
  ex_handler :: handler_pc
  ex_expire :: expire_pc
  ex_seen :: "bytes list"
  ex_sent :: "bytes list"

definition decide_for ::
    "UDPGateway \<Rightarrow> net_addr \<Rightarrow> Header \<Rightarrow> Source \<Rightarrow> Header \<times> Source \<times> bool \<times> string" where
  "decide_for g peer hdr src =
     Decide (ug_policy g) (ug_trust g) (ug_untrusted g) src hdr
       (RemoteIP (peer_addrs g peer)) (peer_addrs g peer)"

inductive ex_step :: "UDPGateway \<Rightarrow> net_addr \<Rightarrow> expiry \<Rightarrow> expiry \<Rightarrow> bool"
  for g :: UDPGateway and peer :: net_addr where
  created:
    "ex_handler s = Creating data \<Longrightarrow> \<not> us_done (ex_sess s) \<Longrightarrow>
     ug_reader g data = Inr (h0, p, x0) \<Longrightarrow> decide_for g peer h0 x0 = (h, x, True, why) \<Longrightarrow>
     ex_step g peer s (s\<lparr>ex_handler := Persisting h x p, ex_seen := data # ex_seen s\<rparr>)"
| created_expired:
    "ex_handler s = Creating data \<Longrightarrow> us_done (ex_sess s) \<Longrightarrow>
     ex_step g peer s (s\<lparr>ex_handler := Idle\<rparr>)"
| found:
    "ex_handler s = Idle \<Longrightarrow> \<not> us_done (ex_sess s) \<Longrightarrow> ug_reader g data = Inr (h0, p, x0) \<Longrightarrow>
     ex_step g peer s (s\<lparr>ex_seen := data # ex_seen s,
       ex_handler := if x0 = SourceDirect then LoadingSource h0 p else Deciding h0 x0 p\<rparr>)"
| load_source:
    "ex_handler s = LoadingSource h0 p \<Longrightarrow>
     ex_step g peer s (s\<lparr>ex_handler :=
       (case us_inputSource (ex_sess s) of
          None \<Rightarrow> Deciding h0 SourceDirect p | Some stored \<Rightarrow> LoadingKind h0 stored p)\<rparr>)"
| load_kind:
    "ex_handler s = LoadingKind h0 stored p \<Longrightarrow>
     ex_step g peer s (s\<lparr>ex_handler :=
       (case us_inputSrcKind (ex_sess s) of
          None \<Rightarrow> Deciding h0 SourceDirect p | Some kind \<Rightarrow> Deciding stored kind p)\<rparr>)"
| decide:
    "ex_handler s = Deciding h1 x1 p \<Longrightarrow> decide_for g peer h1 x1 = (h, x, allow, why) \<Longrightarrow>
     ex_step g peer s (s\<lparr>ex_handler := if allow then Persisting h x p else Idle\<rparr>)"
| check_stored:
    "ex_handler s = Persisting h x p \<Longrightarrow>
     ex_step g peer s (s\<lparr>ex_handler :=
       if x \<noteq> SourceDirect \<and> us_inputSource (ex_sess s) = None
       then StoringSource h x p else Encoding h p\<rparr>)"
| store_source:
    "ex_handler s = StoringSource h x p \<Longrightarrow>
     ex_step g peer s (s\<lparr>ex_sess := ex_sess s\<lparr>us_inputSource := Some (cloneHeader h)\<rparr>,
       ex_handler := StoringKind h x p\<rparr>)"
| store_kind:
    "ex_handler s = StoringKind h x p \<Longrightarrow>
     ex_step g peer s (s\<lparr>ex_sess := ex_sess s\<lparr>us_inputSrcKind := Some x\<rparr>, ex_handler := Encoding h p\<rparr>)"
| encode:
    "ex_handler s = Encoding h p \<Longrightarrow> encode_output g (ex_sess s) h p = (sess, out) \<Longrightarrow>
     ex_step g peer s (s\<lparr>ex_sess := sess,
       ex_handler := (case out of Inl e \<Rightarrow> Idle | Inr b \<Rightarrow> Writing b)\<rparr>)"
| write_sent:
    "ex_handler s = Writing b \<Longrightarrow> us_upstream_open (ex_sess s) \<Longrightarrow>
     ex_step g peer s (s\<lparr>ex_sent := b # ex_sent s, ex_handler := Refreshing\<rparr>)"
| write_failed:
    "ex_handler s = Writing b \<Longrightarrow> ex_step g peer s (s\<lparr>ex_handler := Refreshing\<rparr>)"
| refresh_done:
    "ex_handler s = Refreshing \<Longrightarrow> us_done (ex_sess s) \<Longrightarrow> ex_step g peer s (s\<lparr>ex_handler := Idle\<rparr>)"
| refresh_check:
    "ex_handler s = Refreshing \<Longrightarrow> \<not> us_done (ex_sess s) \<Longrightarrow>
     ex_step g peer s (s\<lparr>ex_handler := Resetting\<rparr>)"
| refresh_reset:
    "ex_handler s = Resetting \<Longrightarrow>
     ex_step g peer s (s\<lparr>ex_sess := ex_sess s\<lparr>us_timer := TimerArmed (us_idle (ex_sess s))\<rparr>,
       ex_handler := Idle\<rparr>)"
| close_done:
    "ex_expire s = NotExpired \<Longrightarrow>
     ex_step g peer s (s\<lparr>ex_sess := ex_sess s\<lparr>us_done := True, us_once := True\<rparr>, ex_expire := DoneClosed\<rparr>)"
| stop_timer:
    "ex_expire s = DoneClosed \<Longrightarrow>
     ex_step g peer s (s\<lparr>ex_sess := ex_sess s\<lparr>us_timer := TimerStopped\<rparr>, ex_expire := TimerDone\<rparr>)"
| clear_source:
    "ex_expire s = TimerDone \<Longrightarrow>
     ex_step g peer s (s\<lparr>ex_sess := ex_sess s\<lparr>us_inputSource := None\<rparr>, ex_expire := SourceCleared\<rparr>)"
| clear_kind:
    "ex_expire s = SourceCleared \<Longrightarrow>
     ex_step g peer s (s\<lparr>ex_sess := ex_sess s\<lparr>us_inputSrcKind := None\<rparr>, ex_expire := KindCleared\<rparr>)"
| close_socket:
    "ex_expire s = KindCleared \<Longrightarrow>
     ex_step g peer s (s\<lparr>ex_sess := ex_sess s\<lparr>us_upstream_open := False\<rparr>, ex_expire := SocketClosed\<rparr>)"
| on_expire:
    "ex_expire s = SocketClosed \<Longrightarrow> ex_step g peer s (s\<lparr>ex_expire := Expired\<rparr>)"

inductive_cases ex_stepE: "ex_step g peer s t"

definition ex_init :: "UDPGateway \<Rightarrow> net_addr \<Rightarrow> bytes \<Rightarrow> expiry" where
  "ex_init g peer data =
     \<lparr>ex_sess = newSession (keyFromUDPAddr peer) peer (ug_idleTimeout g), ex_handler = Creating data,
      ex_expire = NotExpired, ex_seen = [], ex_sent = []\<rparr>"

abbreviation ex_reaches :: "UDPGateway \<Rightarrow> net_addr \<Rightarrow> expiry \<Rightarrow> expiry \<Rightarrow> bool" where
  "ex_reaches g peer \<equiv> reaches (ex_step g peer)"

section \<open>Where the headers come from\<close>

text \<open>A header carried by a datagram taken up on the session, as parsed or cloned.\<close>

definition carried :: "UDPGateway \<Rightarrow> bytes list \<Rightarrow> Header \<Rightarrow> bool" where
  "carried g seen h \<longleftrightarrow>
     (\<exists>data \<in> set seen. \<exists>h0 p x0. ug_reader g data = Inr (h0, p, x0) \<and> x0 \<noteq> SourceDirect \<and>
        (h = h0 \<or> h = cloneHeader h0))"

text \<open>A header the session may use: the peer's socket, or one carried by a trusted peer's datagram.\<close>

definition presented :: "UDPGateway \<Rightarrow> net_addr \<Rightarrow> bytes list \<Rightarrow> Header \<Rightarrow> bool" where
  "presented g peer seen h \<longleftrightarrow> IsTrusted (ug_trust g) (RemoteIP (peer_addrs g peer)) \<and> carried g seen h"

definition describes :: "UDPGateway \<Rightarrow> net_addr \<Rightarrow> bytes list \<Rightarrow> Header \<Rightarrow> bool" where
  "describes g peer seen h \<longleftrightarrow> h = HeaderFromConn (peer_addrs g peer) \<or> presented g peer seen h"

definition payload_of :: "UDPGateway \<Rightarrow> bytes list \<Rightarrow> bytes \<Rightarrow> bool" where
  "payload_of g seen p \<longleftrightarrow> (\<exists>data \<in> set seen. \<exists>h0 x0. ug_reader g data = Inr (h0, p, x0))"

text \<open>What may be sent: a payload received, bare in first-datagram mode or under such a header.\<close>

definition accounted :: "UDPGateway \<Rightarrow> net_addr \<Rightarrow> bytes list \<Rightarrow> bytes \<Rightarrow> bool" where
  "accounted g peer seen b \<longleftrightarrow>
     (\<exists>p. payload_of g seen p \<and>
        (ug_outputMode g = OutputFirstDatagram \<and> b = p \<or>
         (\<exists>h. describes g peer seen h \<and> FormatDatagram (ug_format g) h p = Inr b)))"

lemma carried_more: "carried g seen h \<Longrightarrow> carried g (d # seen) h"
  unfolding carried_def by (meson list.set_intros(2))

lemma presented_more: "presented g peer seen h \<Longrightarrow> presented g peer (d # seen) h"
  by (simp add: presented_def carried_more)

lemma describes_more: "describes g peer seen h \<Longrightarrow> describes g peer (d # seen) h"
  by (auto simp: describes_def presented_more)

lemma payload_more: "payload_of g seen p \<Longrightarrow> payload_of g (d # seen) p"
  unfolding payload_of_def by (meson list.set_intros(2))

lemma accounted_more: "accounted g peer seen b \<Longrightarrow> accounted g peer (d # seen) b"
  unfolding accounted_def using payload_more describes_more by metis

lemmas seen_more = carried_more presented_more describes_more payload_more accounted_more

lemma clone_clone [simp]: "cloneHeader (cloneHeader h) = cloneHeader h"
  by (simp add: cloneHeader_def clone_slice_def ip_bytes_def split: option.splits)

lemma carried_clone: "carried g seen h \<Longrightarrow> carried g seen (cloneHeader h)"
  unfolding carried_def by (metis clone_clone)

text \<open>What each position of the handler knows.\<close>

fun handler_ok :: "UDPGateway \<Rightarrow> net_addr \<Rightarrow> bytes list \<Rightarrow> handler_pc \<Rightarrow> bool" where
  "handler_ok g peer seen (LoadingSource h0 p) \<longleftrightarrow> payload_of g seen p"
| "handler_ok g peer seen (LoadingKind h0 h p) \<longleftrightarrow> payload_of g seen p \<and> presented g peer seen h"
| "handler_ok g peer seen (Deciding h x p) \<longleftrightarrow>
     payload_of g seen p \<and> (x \<noteq> SourceDirect \<longrightarrow> carried g seen h)"
| "handler_ok g peer seen (Persisting h x p) \<longleftrightarrow>
     payload_of g seen p \<and> describes g peer seen h \<and> (x \<noteq> SourceDirect \<longrightarrow> presented g peer seen h)"
| "handler_ok g peer seen (StoringSource h x p) \<longleftrightarrow> payload_of g seen p \<and> presented g peer seen h"
| "handler_ok g peer seen (StoringKind h x p) \<longleftrightarrow> payload_of g seen p \<and> presented g peer seen h"
| "handler_ok g peer seen (Encoding h p) \<longleftrightarrow> payload_of g seen p \<and> describes g peer seen h"
| "handler_ok g peer seen (Writing b) \<longleftrightarrow> accounted g peer seen b"
| "handler_ok g peer seen _ \<longleftrightarrow> True"

definition sources_inv :: "UDPGateway \<Rightarrow> net_addr \<Rightarrow> expiry \<Rightarrow> bool" where
  "sources_inv g peer s \<longleftrightarrow>
     (\<forall>h. us_inputSource (ex_sess s) = Some h \<longrightarrow> presented g peer (ex_seen s) h) \<and>
     handler_ok g peer (ex_seen s) (ex_handler s) \<and>
     (\<forall>b \<in> set (ex_sent s). accounted g peer (ex_seen s) b)"

lemma decided:
  assumes "decide_for g peer h1 x1 = (h, x, True, why)" and "x1 \<noteq> SourceDirect \<longrightarrow> carried g seen h1"
  shows "describes g peer seen h \<and> (x \<noteq> SourceDirect \<longrightarrow> presented g peer seen h)"
proof -
  from assms(1) show ?thesis
    unfolding decide_for_def
    by (rule adm.admitted_header_cases) (use assms(2) in \<open>auto simp: describes_def presented_def\<close>)
qed

lemma encoded:
  assumes "encode_output g sess h p = (sess', Inr b)" and "describes g peer seen h" "payload_of g seen p"
  shows "accounted g peer seen b"
  using assms by (cases "ug_outputMode g") (auto simp: encode_output_def accounted_def split: if_splits)

lemma just_seen:
  "ug_reader g data = Inr (h0, p, x0) \<Longrightarrow> payload_of g (data # seen) p"
  "ug_reader g data = Inr (h0, p, x0) \<Longrightarrow> x0 \<noteq> SourceDirect \<Longrightarrow> carried g (data # seen) h0"
  by (auto simp: payload_of_def carried_def)

lemma sources_step: "ex_step g peer s t \<Longrightarrow> sources_inv g peer s \<Longrightarrow> sources_inv g peer t"
proof (induction rule: ex_step.induct)
  case (created s data h0 p x0 h x why)
  with decided [OF created(4), of "data # ex_seen s"] just_seen [OF created(3)] show ?case
    by (auto simp: sources_inv_def seen_more)
next
  case (found s data h0 p x0)
  with just_seen [OF found(3)] show ?case by (auto simp: sources_inv_def seen_more)
next
  case (decide s h1 x1 p h x allow why)
  with decided [of g peer h1 x1 h x why "ex_seen s"] show ?case
    by (cases allow) (auto simp: sources_inv_def)
next
  case (encode s h p sess out)
  have "us_inputSource sess = us_inputSource (ex_sess s)"
    using encode_output_simps(4) [of g "ex_sess s" h p] encode(2) by simp
  with encode encoded [of g "ex_sess s" h p sess] show ?case
    by (cases out) (auto simp: sources_inv_def)
qed (auto simp: sources_inv_def carried_clone presented_def describes_def split: option.splits)

interpretation ex: preserved "ex_step g peer" "sources_inv g peer" for g peer
  by unfold_locales (rule sources_step)

lemma sources_init: "sources_inv g peer (ex_init g peer data)"
  by (simp add: sources_inv_def ex_init_def newSession_def)

text \<open>
  C16. Whatever the timing of an expiry, a session never speaks for anybody else: every datagram
  it sends is a payload taken up on it, under the header of the peer's socket or one that the
  peer itself presented on this session while trusted (or bare, in first-datagram mode), and
  the stored source is always such a header.
\<close>

theorem sources_during_expiry:
  assumes "ex_reaches g peer (ex_init g peer data) t"
  shows "(\<forall>b \<in> set (ex_sent t). accounted g peer (ex_seen t) b) \<and>
         (\<forall>h. us_inputSource (ex_sess t) = Some h \<longrightarrow> presented g peer (ex_seen t) h)"
  using ex.inv_reaches [OF assms sources_init] by (simp add: sources_inv_def)

section \<open>The datagram in flight\<close>

fun in_flight_pc :: "handler_pc \<Rightarrow> nat" where
  "in_flight_pc (Creating data) = 0"
| "in_flight_pc Idle = 0"
| "in_flight_pc Refreshing = 0"
| "in_flight_pc Resetting = 0"
| "in_flight_pc _ = 1"

text \<open>What holds from a state in which \<open>done\<close> is closed, relative to what was seen and sent there.\<close>

definition after_done :: "bytes list \<Rightarrow> bytes list \<Rightarrow> nat \<Rightarrow> bool \<Rightarrow> expiry \<Rightarrow> bool" where
  "after_done seen sent n shut u \<longleftrightarrow>
     us_done (ex_sess u) \<and> ex_seen u = seen \<and> (shut \<longrightarrow> \<not> us_upstream_open (ex_sess u)) \<and>
     (\<exists>late. ex_sent u = late @ sent \<and> length late + in_flight_pc (ex_handler u) \<le> n \<and> (shut \<longrightarrow> late = []))"

lemma encode_output_open [simp]:
  "us_upstream_open (fst (encode_output g s h p)) = us_upstream_open s"
  by (auto simp: encode_output_def)

lemma after_done_step:
  "ex_step g peer s t \<Longrightarrow> after_done seen sent n shut s \<Longrightarrow> after_done seen sent n shut t"
proof (induction rule: ex_step.induct)
  case (encode s h p sess out)
  then show ?case
    using encode_output_simps(2) [of g "ex_sess s" h p] encode_output_open [of g "ex_sess s" h p]
    by (cases out) (auto simp: after_done_def)
next
  case (write_sent s b)
  then show ?case by (auto simp: after_done_def)
qed (auto simp: after_done_def split: option.splits)

interpretation dying: preserved "ex_step g peer" "after_done seen sent n shut" for g peer seen sent n shut
  by unfold_locales (rule after_done_step)

text \<open>
  C17. An expiry costs at most the one datagram in flight: once it has begun no further datagram
  is taken up on the session, at most one more is sent, the one the handler was working on, and
  none once the upstream socket is closed.
\<close>

theorem expiry_in_flight:
  assumes "us_done (ex_sess t)" and "ex_reaches g peer t u"
  shows "ex_seen u = ex_seen t \<and>
         (\<exists>late. ex_sent u = late @ ex_sent t \<and> length late \<le> in_flight_pc (ex_handler t) \<and>
            (\<not> us_upstream_open (ex_sess t) \<longrightarrow> late = []))"
proof -
  let ?inv = "after_done (ex_seen t) (ex_sent t) (in_flight_pc (ex_handler t))
    (\<not> us_upstream_open (ex_sess t))"
  have "?inv t" using assms(1) by (simp add: after_done_def)
  from dying.inv_reaches [OF assms(2) this] show ?thesis by (auto simp: after_done_def)
qed

section \<open>Without an expiry\<close>

text \<open>Single steps, as a chain: the handler alone, in a session that is not expired.\<close>

lemma ex_then: "ex_step g peer s t \<Longrightarrow> ex_reaches g peer t u \<Longrightarrow> ex_reaches g peer s u"
  using reaches_trans reaches_step [OF reaches_refl] by metis

lemma ex_one: "ex_step g peer s t \<Longrightarrow> ex_reaches g peer s t"
  by (rule reaches_step [OF reaches_refl])

lemma recover_run:
  assumes "ex_handler t = Idle" and "\<not> us_done (ex_sess t)" and "ug_reader g data = Inr (h0, p, x0)"
    and "recover_source (Some (ex_sess t)) h0 x0 = (h1, x1)"
  shows "ex_reaches g peer t (t\<lparr>ex_seen := data # ex_seen t, ex_handler := Deciding h1 x1 p\<rparr>)"
proof (cases "x0 = SourceDirect")
  case False
  with assms ex_step.found [OF assms(1,2,3)] show ?thesis
    by (auto simp: recover_source_def intro: ex_one)
next
  case True
  let ?t1 = "t\<lparr>ex_seen := data # ex_seen t, ex_handler := LoadingSource h0 p\<rparr>"
  have 1: "ex_step g peer t ?t1" using ex_step.found [OF assms(1,2,3)] True by simp
  have 2: "ex_step g peer ?t1 (?t1\<lparr>ex_handler := (case us_inputSource (ex_sess t) of
      None \<Rightarrow> Deciding h0 SourceDirect p | Some stored \<Rightarrow> LoadingKind h0 stored p)\<rparr>)"
    using ex_step.load_source [of ?t1 h0 p] by simp
  show ?thesis
  proof (cases "us_inputSource (ex_sess t)")
    case None
    with 2 assms(4) True show ?thesis
      by (intro ex_then [OF 1] ex_then [OF 2]) (simp add: recover_source_def reaches_refl)
  next
    case (Some stored)
    let ?t2 = "t\<lparr>ex_seen := data # ex_seen t, ex_handler := LoadingKind h0 stored p\<rparr>"
    have "ex_step g peer ?t2 (?t2\<lparr>ex_handler := Deciding h1 x1 p\<rparr>)"
      using ex_step.load_kind [of ?t2 h0 stored p] assms(4) True Some
      by (auto simp: recover_source_def split: option.splits)
    with 2 Some show ?thesis by (intro ex_then [OF 1] ex_then [OF 2]) (auto intro: ex_one)
  qed
qed

lemma persist_run:
  assumes "ex_handler t = Persisting h x p"
  shows "ex_reaches g peer t (t\<lparr>ex_sess := persist_source (ex_sess t) h x, ex_handler := Encoding h p\<rparr>)"
proof (cases "x \<noteq> SourceDirect \<and> us_inputSource (ex_sess t) = None")
  case False
  with ex_step.check_stored [OF assms] show ?thesis
    by (auto simp: persist_source_def intro: ex_one)
next
  case True
  let ?t1 = "t\<lparr>ex_handler := StoringSource h x p\<rparr>"
  let ?t2 = "?t1\<lparr>ex_sess := ex_sess t\<lparr>us_inputSource := Some (cloneHeader h)\<rparr>, ex_handler := StoringKind h x p\<rparr>"
  have 1: "ex_step g peer t ?t1" using ex_step.check_stored [OF assms] True by simp
  have 2: "ex_step g peer ?t1 ?t2" using ex_step.store_source [of ?t1 h x p] by simp
  show ?thesis
    using ex_step.store_kind [of ?t2 h x p] True
    by (intro ex_then [OF 1] ex_then [OF 2])
       (auto simp: persist_source_def StoreInputSource_def intro: ex_one)
qed

lemma write_run:
  assumes "ex_handler t = Writing b" and "\<not> us_done (ex_sess t)" and "us_upstream_open (ex_sess t)"
  shows "ex_reaches g peer t (t\<lparr>ex_sent := b # ex_sent t, ex_sess := refresh (ex_sess t), ex_handler := Idle\<rparr>)"
proof -
  let ?t1 = "t\<lparr>ex_sent := b # ex_sent t, ex_handler := Refreshing\<rparr>"
  let ?t2 = "?t1\<lparr>ex_handler := Resetting\<rparr>"
  have 1: "ex_step g peer t ?t1" using ex_step.write_sent [OF assms(1,3)] by simp
  have 2: "ex_step g peer ?t1 ?t2" using ex_step.refresh_check [of ?t1] assms(2) by simp
  show ?thesis
    using ex_step.refresh_reset [of ?t2] assms(2)
    by (intro ex_then [OF 1] ex_then [OF 2]) (auto simp: refresh_def intro: ex_one)
qed

lemma emit_run:
  assumes "ex_handler t = Persisting h x p" and "\<not> us_done (ex_sess t)" and "us_upstream_open (ex_sess t)"
    and "us_key (ex_sess t) = k"
  shows "\<exists>u. ex_reaches g peer t u \<and> ex_handler u = Idle \<and> ex_expire u = ex_expire t \<and>
    us_key (ex_sess u) = k \<and> \<not> us_done (ex_sess u) \<and>
    fst (emit g env m (ex_sess t) h x p) = put_session m (ex_sess u) \<and>
    ex_sent u = writes_of k (snd (emit g env m (ex_sess t) h x p)) @ ex_sent t"
proof -
  let ?t1 = "t\<lparr>ex_sess := persist_source (ex_sess t) h x, ex_handler := Encoding h p\<rparr>"
  obtain s2 out where e: "encode_output g (persist_source (ex_sess t) h x) h p = (s2, out)" by fastforce
  let ?t2 = "?t1\<lparr>ex_sess := s2, ex_handler := (case out of Inl e \<Rightarrow> Idle | Inr b \<Rightarrow> Writing b)\<rparr>"
  have s2: "\<not> us_done s2" "us_upstream_open s2" "us_key s2 = k"
    using assms encode_output_simps [of g "persist_source (ex_sess t) h x" h p]
      encode_output_open [of g "persist_source (ex_sess t) h x" h p]
    unfolding e by (simp_all add: persist_source_def StoreInputSource_def)
  have 2: "ex_step g peer ?t1 ?t2" using ex_step.encode [of ?t1 h p g s2 out] e by simp
  have run: "ex_reaches g peer t ?t2"
    by (rule reaches_step [OF persist_run [OF assms(1)] 2])
  show ?thesis
  proof (cases out)
    case (Inl err)
    with run show ?thesis
      using s2 by (intro exI [of _ ?t2]) (simp add: emit_def e)
  next
    case (Inr b)
    with s2 write_run [of ?t2 b g peer] have "ex_reaches g peer ?t2
        (?t2\<lparr>ex_sent := b # ex_sent t, ex_sess := refresh s2, ex_handler := Idle\<rparr>)" by simp
    from reaches_trans [OF run this] Inr s2 show ?thesis
      by (intro exI [of _ "?t2\<lparr>ex_sent := b # ex_sent t, ex_sess := refresh s2, ex_handler := Idle\<rparr>"])
         (simp add: emit_def e split: option.split)
  qed
qed

text \<open>
  C18. The sequential model of a datagram is a run of the interleaving: on a live session that
  exists, the session left in the table and the datagrams sent are those of some run of the
  handler's atomic steps with no step of an expiry.
\<close>

theorem sequential_datagram_is_a_run:
  assumes "mgr_ok m" and "lookup_session m (keyFromUDPAddr peer) = Some (ex_sess t)"
    and "ex_handler t = Idle" and "us_upstream_open (ex_sess t)" and "ug_reader g data = Inr r"
  shows "\<exists>u. ex_reaches g peer t u \<and> ex_handler u = Idle \<and> ex_expire u = ex_expire t \<and>
    lookup_session (fst (handleDatagram g env m data peer)) (keyFromUDPAddr peer) = Some (ex_sess u) \<and>
    ex_sent u = writes_of (keyFromUDPAddr peer) (snd (handleDatagram g env m data peer)) @ ex_sent t"
proof -
  let ?k = "keyFromUDPAddr peer"
  let ?s = "ex_sess t"
  obtain h0 p x0 where r: "ug_reader g data = Inr (h0, p, x0)" using assms(5) by (cases r) auto
  obtain h1 x1 where rc: "recover_source (Some ?s) h0 x0 = (h1, x1)" by fastforce
  obtain h x allow why where d: "decide_for g peer h1 x1 = (h, x, allow, why)"
    by (cases "decide_for g peer h1 x1") auto
  have live: "\<not> us_done ?s" and key: "us_key ?s = ?k"
    using assms(1,2) by (auto simp: lookup_session_Some mgr_ok_def)
  let ?t1 = "t\<lparr>ex_seen := data # ex_seen t, ex_handler := Deciding h1 x1 p\<rparr>"
  let ?t2 = "?t1\<lparr>ex_handler := if allow then Persisting h x p else Idle\<rparr>"
  have "ex_step g peer ?t1 ?t2" using ex_step.decide [of ?t1 h1 x1 p g peer h x allow why] d by simp
  with recover_run [OF assms(3) live r rc] have run: "ex_reaches g peer t ?t2" by (rule reaches_step)
  have dd: "decide_datagram g peer (Some ?s) h0 x0 = (h, x, allow, why)"
    using d by (simp add: decide_datagram_def decide_for_def rc)
  show ?thesis
  proof (cases allow)
    case False
    then have "admitted g m data peer = None" by (simp add: admitted_def r assms(2) dd)
    from handleDatagram_dropped [OF this, of env] False run assms(2) show ?thesis
      by (intro exI [of _ ?t2]) (simp add: writes_of_logs)
  next
    case True
    then have "admitted g m data peer = Some (h, x, p)" by (simp add: admitted_def r assms(2) dd)
    from handleDatagram_admitted [OF this, of env] obtain logs where logs: "list_all is_log logs"
      and hd: "handleDatagram g env m data peer = (case emit g env m ?s h x p of
        (m2, out) \<Rightarrow> (m2, logs @ [ULog LevelDebug ''datagram''] @ out))"
      by (auto simp: assms(2) obtain_session_def)
    from emit_run [of ?t2 h x p ?k g peer env m] True live assms(4) key obtain u where
      u: "ex_reaches g peer ?t2 u" "ex_handler u = Idle" "ex_expire u = ex_expire t"
        "us_key (ex_sess u) = ?k" "\<not> us_done (ex_sess u)"
        "fst (emit g env m ?s h x p) = put_session m (ex_sess u)"
        "ex_sent u = writes_of ?k (snd (emit g env m ?s h x p)) @ ex_sent t"
      by auto
    have "lookup_session (put_session m (ex_sess u)) ?k = Some (ex_sess u)"
      using u(4,5) by (simp add: lookup_session_Some put_session_def)
    with u logs reaches_trans [OF run u(1)] show ?thesis
      by (intro exI [of _ u]) (auto simp: hd writes_of_logs split: prod.splits)
  qed
qed

section \<open>A datagram that loses its source\<close>

text \<open>The first datagram of a session, which stores the source it presents.\<close>

definition stored_state :: "UDPGateway \<Rightarrow> net_addr \<Rightarrow> bytes \<Rightarrow> Header \<Rightarrow> bytes \<Rightarrow> expiry" where
  "stored_state g peer d h b =
     \<lparr>ex_sess = refresh (persist_source (newSession (keyFromUDPAddr peer) peer (ug_idleTimeout g)) h SourceV2),
      ex_handler = Idle, ex_expire = NotExpired, ex_seen = [d], ex_sent = [b]\<rparr>"

text \<open>The same session when the datagram is about to be written.\<close>

definition writing_state :: "UDPGateway \<Rightarrow> net_addr \<Rightarrow> bytes \<Rightarrow> Header \<Rightarrow> bytes \<Rightarrow> expiry" where
  "writing_state g peer d h b =
     \<lparr>ex_sess = persist_source (newSession (keyFromUDPAddr peer) peer (ug_idleTimeout g)) h SourceV2,
      ex_handler = Writing b, ex_expire = NotExpired, ex_seen = [d], ex_sent = []\<rparr>"

lemma writing_live:
  "\<not> us_done (ex_sess (writing_state g peer d h b))" "us_upstream_open (ex_sess (writing_state g peer d h b))"
  by (simp_all add: writing_state_def newSession_def persist_source_def StoreInputSource_def)

lemma writing_run:
  assumes "ug_outputMode g = OutputEveryDatagram" and "ug_policy g = PolicyUse"
    and "IsTrusted (ug_trust g) (RemoteIP (peer_addrs g peer))"
    and "ug_reader g d = Inr (h, p, SourceV2)" and "FormatDatagram (ug_format g) h p = Inr b"
  shows "ex_reaches g peer (ex_init g peer d) (writing_state g peer d h b)"
proof -
  let ?s = "newSession (keyFromUDPAddr peer) peer (ug_idleTimeout g)"
  let ?c0 = "ex_init g peer d"
  let ?c1 = "?c0\<lparr>ex_handler := Persisting h SourceV2 p, ex_seen := [d]\<rparr>"
  let ?c2 = "?c1\<lparr>ex_sess := persist_source ?s h SourceV2, ex_handler := Encoding h p\<rparr>"
  have "decide_for g peer h SourceV2 = (h, SourceV2, True, [])"
    using assms(2,3) by (simp add: decide_for_def decide_defs)
  then have 1: "ex_step g peer ?c0 ?c1"
    using ex_step.created [of ?c0 d g h p SourceV2 peer h SourceV2 "[]"] assms(4)
    by (simp add: ex_init_def newSession_def)
  have 2: "ex_reaches g peer ?c1 ?c2"
    using persist_run [of ?c1 h SourceV2 p g peer] by (simp add: ex_init_def)
  have "ex_step g peer ?c2 (writing_state g peer d h b)"
    using ex_step.encode [of ?c2 h p g "persist_source ?s h SourceV2" "Inr b"] assms(1,5)
    by (simp add: encode_output_def ex_init_def writing_state_def)
  with reaches_trans [OF ex_one [OF 1] 2] show ?thesis by (rule reaches_step)
qed

lemma stored_run:
  assumes "ug_outputMode g = OutputEveryDatagram" and "ug_policy g = PolicyUse"
    and "IsTrusted (ug_trust g) (RemoteIP (peer_addrs g peer))"
    and "ug_reader g d = Inr (h, p, SourceV2)" and "FormatDatagram (ug_format g) h p = Inr b"
  shows "ex_reaches g peer (ex_init g peer d) (stored_state g peer d h b)"
proof -
  have "ex_reaches g peer (writing_state g peer d h b) (stored_state g peer d h b)"
    using write_run [of "writing_state g peer d h b" b g peer] writing_live
    by (simp add: writing_state_def stored_state_def)
  with writing_run [OF assms] show ?thesis by (rule reaches_trans)
qed

text \<open>
  The check of \<open>done\<close> in \<open>refresh\<close> and the \<open>Reset\<close> after it are two actions: an expiry that runs
  between them stops the timer first, so the timer of an expired session is armed again. When it
  fires, \<open>once\<close> makes it do nothing.
\<close>

theorem expired_timer_armed:
  assumes "ug_outputMode g = OutputEveryDatagram" and "ug_policy g = PolicyUse"
    and "IsTrusted (ug_trust g) (RemoteIP (peer_addrs g peer))"
    and "ug_reader g d = Inr (h, p, SourceV2)" and "FormatDatagram (ug_format g) h p = Inr b"
  shows "\<exists>t. ex_reaches g peer (ex_init g peer d) t \<and> ex_expire t = Expired \<and>
    us_timer (ex_sess t) = TimerArmed (ug_idleTimeout g)"
proof -
  let ?w = "writing_state g peer d h b"
  let ?c1 = "?w\<lparr>ex_sent := b # ex_sent ?w, ex_handler := Refreshing\<rparr>"
  let ?c2 = "?c1\<lparr>ex_handler := Resetting\<rparr>"
  let ?c3 = "?c2\<lparr>ex_sess := ex_sess ?c2\<lparr>us_done := True, us_once := True\<rparr>, ex_expire := DoneClosed\<rparr>"
  let ?c4 = "?c3\<lparr>ex_sess := ex_sess ?c3\<lparr>us_timer := TimerStopped\<rparr>, ex_expire := TimerDone\<rparr>"
  let ?c5 = "?c4\<lparr>ex_sess := ex_sess ?c4\<lparr>us_inputSource := None\<rparr>, ex_expire := SourceCleared\<rparr>"
  let ?c6 = "?c5\<lparr>ex_sess := ex_sess ?c5\<lparr>us_inputSrcKind := None\<rparr>, ex_expire := KindCleared\<rparr>"
  let ?c7 = "?c6\<lparr>ex_sess := ex_sess ?c6\<lparr>us_upstream_open := False\<rparr>, ex_expire := SocketClosed\<rparr>"
  let ?c8 = "?c7\<lparr>ex_expire := Expired\<rparr>"
  let ?t = "?c8\<lparr>ex_sess := ex_sess ?c8\<lparr>us_timer := TimerArmed (us_idle (ex_sess ?c8))\<rparr>, ex_handler := Idle\<rparr>"
  have 1: "ex_step g peer ?w ?c1"
    by (rule ex_step.write_sent [OF _ writing_live(2)]) (simp add: writing_state_def)
  have 2: "ex_step g peer ?c1 ?c2" using writing_live(1) by (intro ex_step.refresh_check) simp_all
  have 3: "ex_step g peer ?c2 ?c3" by (rule ex_step.close_done) (simp add: writing_state_def)
  have 4: "ex_step g peer ?c3 ?c4" by (rule ex_step.stop_timer) simp
  have 5: "ex_step g peer ?c4 ?c5" by (rule ex_step.clear_source) simp
  have 6: "ex_step g peer ?c5 ?c6" by (rule ex_step.clear_kind) simp
  have 7: "ex_step g peer ?c6 ?c7" by (rule ex_step.close_socket) simp
  have 8: "ex_step g peer ?c7 ?c8" by (rule ex_step.on_expire) simp
  have 9: "ex_step g peer ?c8 ?t" by (rule ex_step.refresh_reset) simp
  have "ex_reaches g peer ?w ?t"
    by (intro ex_then [OF 1] ex_then [OF 2] ex_then [OF 3] ex_then [OF 4] ex_then [OF 5] ex_then [OF 6]
        ex_then [OF 7] ex_then [OF 8] ex_one [OF 9])
  from reaches_trans [OF writing_run [OF assms] this] show ?thesis
    by (intro exI [of _ ?t])
      (simp add: writing_state_def newSession_def persist_source_def StoreInputSource_def)
qed

text \<open>
  The window between clearing the stored source and closing the socket: a headerless
  datagram of a trusted peer that is taken up just before the expiry begins can be sent under
  the address of the peer's socket, the proxy's, although the session held the client's.
\<close>

theorem expiry_misattributes:
  assumes "ug_outputMode g = OutputEveryDatagram" and "ug_policy g = PolicyUse"
    and "IsTrusted (ug_trust g) (RemoteIP (peer_addrs g peer))"
    and "ug_reader g d1 = Inr (h1, p1, SourceV2)" and "FormatDatagram (ug_format g) h1 p1 = Inr b1"
    and "ug_reader g d2 = Inr (h2, p2, SourceDirect)"
    and "FormatDatagram (ug_format g) (HeaderFromConn (peer_addrs g peer)) p2 = Inr b2"
  shows "\<exists>t u. ex_reaches g peer (ex_init g peer d1) t \<and> ex_handler t = Idle \<and>
    us_inputSource (ex_sess t) = Some (cloneHeader h1) \<and> ex_sent t = [b1] \<and>
    ex_reaches g peer t u \<and> ex_seen u = [d2, d1] \<and> ex_sent u = [b2, b1]"
proof -
  let ?t = "stored_state g peer d1 h1 b1"
  let ?s = "ex_sess ?t" and ?h = "HeaderFromConn (peer_addrs g peer)"
  let ?c1 = "?t\<lparr>ex_seen := [d2, d1], ex_handler := LoadingSource h2 p2\<rparr>"
  let ?c2 = "?c1\<lparr>ex_sess := ?s\<lparr>us_done := True, us_once := True\<rparr>, ex_expire := DoneClosed\<rparr>"
  let ?c3 = "?c2\<lparr>ex_sess := ex_sess ?c2\<lparr>us_timer := TimerStopped\<rparr>, ex_expire := TimerDone\<rparr>"
  let ?c4 = "?c3\<lparr>ex_sess := ex_sess ?c3\<lparr>us_inputSource := None\<rparr>, ex_expire := SourceCleared\<rparr>"
  let ?c5 = "?c4\<lparr>ex_handler := Deciding h2 SourceDirect p2\<rparr>"
  let ?c6 = "?c4\<lparr>ex_handler := Persisting ?h SourceDirect p2\<rparr>"
  let ?c7 = "?c4\<lparr>ex_handler := Encoding ?h p2\<rparr>"
  let ?c8 = "?c7\<lparr>ex_sess := ex_sess ?c7, ex_handler := Writing b2\<rparr>"
  let ?u = "?c8\<lparr>ex_sent := [b2, b1], ex_handler := Refreshing\<rparr>"
  have t: "ex_handler ?t = Idle" "ex_expire ?t = NotExpired" "\<not> us_done ?s" "us_upstream_open ?s"
    "us_inputSource ?s = Some (cloneHeader h1)" "ex_seen ?t = [d1]" "ex_sent ?t = [b1]"
    by (simp_all add: stored_state_def newSession_def persist_source_def StoreInputSource_def)
  have "decide_for g peer h2 SourceDirect = (?h, SourceDirect, True, [])"
    using assms(2) by (simp add: decide_for_def decide_defs)
  then have 6: "ex_step g peer ?c5 ?c6"
    using ex_step.decide [of ?c5 h2 SourceDirect p2 g peer ?h SourceDirect True "[]"] by simp
  have 1: "ex_step g peer ?t ?c1" using ex_step.found [of ?t g d2 h2 p2 SourceDirect peer] t assms(6) by simp
  have 2: "ex_step g peer ?c1 ?c2" using ex_step.close_done [of ?c1] t by simp
  have 3: "ex_step g peer ?c2 ?c3" using ex_step.stop_timer [of ?c2] by simp
  have 4: "ex_step g peer ?c3 ?c4" using ex_step.clear_source [of ?c3] by simp
  have 5: "ex_step g peer ?c4 ?c5" using ex_step.load_source [of ?c4 h2 p2] by simp
  have 7: "ex_step g peer ?c6 ?c7" using ex_step.check_stored [of ?c6 ?h SourceDirect p2] by simp
  have 8: "ex_step g peer ?c7 ?c8"
    using ex_step.encode [of ?c7 ?h p2 g "ex_sess ?c7" "Inr b2"] assms(1,7) by (simp add: encode_output_def)
  have 9: "ex_step g peer ?c8 ?u" using ex_step.write_sent [of ?c8 b2] t by simp
  have "ex_reaches g peer ?t ?u"
    by (intro ex_then [OF 1] ex_then [OF 2] ex_then [OF 3] ex_then [OF 4] ex_then [OF 5] ex_then [OF 6]
        ex_then [OF 7] ex_then [OF 8] ex_one [OF 9])
  with stored_run [OF assms(1-5)] t show ?thesis
    by (intro exI [of _ ?t] exI [of _ ?u]) simp
qed

section \<open>A relayed client\<close>

lemma relayed_format:
  "\<exists>hb. \<forall>p. FormatDatagram ref_format relayed p = Inr (hb @ p)"
  using Format_mk_header [OF ref_format_spec, of FamilyUDP4 "[192, 0, 2, 7]" "[192, 0, 2, 1]" 1234 53]
  unfolding relayed_def by (intro exI allI) simp

theorem expiry_misattributes_witness:
  "\<exists>u b1. ex_reaches (ref_gateway OutputEveryDatagram (Some net10)) client1
       (ex_init (ref_gateway OutputEveryDatagram (Some net10)) client1 relayed_frame) u \<and>
     ex_sent u = [v2_frame (mk_header FamilyUDP4 [10, 0, 0, 7] [0, 0, 0, 0] 5353 53) [] @ [1, 2, 3], b1]"
proof -
  let ?g = "ref_gateway OutputEveryDatagram (Some net10)"
  obtain hb where hb: "\<forall>p. FormatDatagram ref_format relayed p = Inr (hb @ p)"
    using relayed_format by blast
  have "\<exists>t u. ex_reaches ?g client1 (ex_init ?g client1 relayed_frame) t \<and> ex_handler t = Idle \<and>
    us_inputSource (ex_sess t) = Some (cloneHeader relayed) \<and> ex_sent t = [hb @ [9, 9]] \<and>
    ex_reaches ?g client1 t u \<and> ex_seen u = [[1, 2, 3], relayed_frame] \<and>
    ex_sent u = [v2_frame (mk_header FamilyUDP4 [10, 0, 0, 7] [0, 0, 0, 0] 5353 53) [] @ [1, 2, 3], hb @ [9, 9]]"
    by (rule expiry_misattributes [where ?p1.0 = "[9, 9]" and ?h2.0 = zero_header and ?p2.0 = "[1, 2, 3]"])
      (use client1_trusted parse_relayed parse_plain hb in \<open>simp_all add: client1_header client1_format\<close>)
  then show ?thesis by (blast intro: reaches_trans)
qed

lemma relayed_stored_run:
  "\<exists>b. ex_reaches (ref_gateway OutputEveryDatagram (Some net10)) client1
        (ex_init (ref_gateway OutputEveryDatagram (Some net10)) client1 relayed_frame)
        (stored_state (ref_gateway OutputEveryDatagram (Some net10)) client1 relayed_frame relayed b)"
proof -
  obtain hb where "\<forall>p. FormatDatagram ref_format relayed p = Inr (hb @ p)"
    using relayed_format by blast
  then have "ex_reaches (ref_gateway OutputEveryDatagram (Some net10)) client1
      (ex_init (ref_gateway OutputEveryDatagram (Some net10)) client1 relayed_frame)
      (stored_state (ref_gateway OutputEveryDatagram (Some net10)) client1 relayed_frame relayed (hb @ [9, 9]))"
    by (intro stored_run [where p = "[9, 9]"]) (use client1_trusted parse_relayed in simp_all)
  then show ?thesis ..
qed

theorem sources_during_expiry_witness:
  "\<exists>t :: expiry. us_inputSource (ex_sess t) = Some (cloneHeader relayed) \<and>
       presented (ref_gateway OutputEveryDatagram (Some net10)) client1 (ex_seen t) (cloneHeader relayed)"
proof -
  let ?g = "ref_gateway OutputEveryDatagram (Some net10)"
  obtain b where run: "ex_reaches ?g client1 (ex_init ?g client1 relayed_frame)
      (stored_state ?g client1 relayed_frame relayed b)"
    using relayed_stored_run by blast
  have "us_inputSource (ex_sess (stored_state ?g client1 relayed_frame relayed b)) = Some (cloneHeader relayed)"
    by (simp add: stored_state_def newSession_def persist_source_def StoreInputSource_def)
  with sources_during_expiry [OF run] show ?thesis
    by (intro exI [of _ "stored_state ?g client1 relayed_frame relayed b"]) simp
qed

text \<open>A datagram that has been encoded when the expiry begins, and is then sent.\<close>

definition caught :: expiry where
  "caught =
     \<lparr>ex_sess = (newSession (keyFromUDPAddr client1) client1 30000000000)\<lparr>us_done := True, us_once := True\<rparr>,
      ex_handler = Writing [1, 2, 3], ex_expire = DoneClosed, ex_seen = [[1, 2, 3]], ex_sent = []\<rparr>"

theorem expiry_in_flight_witness:
  "\<exists>u :: expiry. ex_sent u = [[1, 2, 3]] \<and> ex_seen u = [[1, 2, 3]] \<and> in_flight_pc (ex_handler caught) = 1"
proof -
  let ?g = "ref_gateway OutputFirstDatagram (Some net10)"
  have "ex_reaches ?g client1 caught (caught\<lparr>ex_sent := [[1, 2, 3]], ex_handler := Refreshing\<rparr>)"
    using ex_step.write_sent [of caught "[1, 2, 3]" ?g client1]
    by (intro ex_one) (simp add: caught_def newSession_def)
  moreover have "us_done (ex_sess caught)" by (simp add: caught_def)
  ultimately have "length (ex_sent (caught\<lparr>ex_sent := [[1, 2, 3]], ex_handler := Refreshing\<rparr>)) \<le> 1 \<and>
      ex_seen (caught\<lparr>ex_sent := [[1, 2, 3]], ex_handler := Refreshing\<rparr>) = [[1, 2, 3]]"
    using expiry_in_flight [of caught ?g client1] by (fastforce simp: caught_def)
  then show ?thesis
    by (intro exI [of _ "caught\<lparr>ex_sent := [[1, 2, 3]], ex_handler := Refreshing\<rparr>"])
       (simp add: caught_def)
qed

definition at_rest :: expiry where
  "at_rest = \<lparr>ex_sess = newSession (keyFromUDPAddr client1) client1 30000000000, ex_handler = Idle,
     ex_expire = NotExpired, ex_seen = [], ex_sent = []\<rparr>"

theorem sequential_datagram_is_a_run_witness:
  "\<exists>u. ex_reaches (ref_gateway OutputEveryDatagram (Some net192)) client1 at_rest u \<and>
       ex_sent u = [v2_frame (mk_header FamilyUDP4 [10, 0, 0, 7] [0, 0, 0, 0] 5353 53) [] @ [1, 2, 3]]"
proof -
  let ?g = "ref_gateway OutputEveryDatagram (Some net192)"
  have "lookup_session one_session (keyFromUDPAddr client1) = Some (ex_sess at_rest)"
    unfolding lookup_ok [OF one_session_ok] by (simp add: one_session_stored at_rest_def)
  moreover have "ex_handler at_rest = Idle" "us_upstream_open (ex_sess at_rest)" "ex_sent at_rest = []"
    by (simp_all add: at_rest_def newSession_def)
  ultimately show ?thesis
    using sequential_datagram_is_a_run [OF one_session_ok, of client1 at_rest ?g "[1, 2, 3]"
        "(zero_header, [1, 2, 3], SourceDirect)" quiet_env]
    by (auto simp: parse_plain plain_written)
qed

end
