(* ===== verification/Udp_Race.thy ===== *)
theory Udp_Race
  imports Udp_Manager Steps "HOL-Library.Multiset"
begin

text \<open>
  \<open>internal/udp/manager.go\<close> and \<open>session.go\<close> under concurrency: any number of goroutines inside
  \<open>Create\<close> and \<open>expire\<close>, interleaved at their atomic operations (the counter's \<open>Load\<close> and
  \<open>Add\<close>, the map's \<open>LoadOrStore\<close> and \<open>Delete\<close>, the use of a session's \<open>sync.Once\<close>). Sessions
  are identified by the order in which \<open>newSession\<close> made them.
\<close>

section \<open>Steps\<close>

datatype creator =
    CCheck sessionKey        \<comment> \<open>at \<open>m.count.Load()\<close>\<close>
  | CAdd sessionKey          \<comment> \<open>at \<open>m.count.Add(1)\<close>\<close>
  | CRollback                \<comment> \<open>at the rollback \<open>Add(-1)\<close>\<close>
  | CNew sessionKey          \<comment> \<open>at \<open>newSession\<close>\<close>
  | CStore sessionKey nat    \<comment> \<open>at \<open>LoadOrStore\<close>\<close>
  | CLost nat nat            \<comment> \<open>at \<open>Add(-1)\<close> after losing to the second session\<close>
  | CClean nat nat           \<comment> \<open>at the clean-up of the losing session\<close>
  | CGot nat                 \<comment> \<open>returned this session\<close>
  | CRefused                 \<comment> \<open>returned \<open>ErrMaxSessions\<close>\<close>

datatype expirer =
    EDelete sessionKey nat   \<comment> \<open>inside \<open>once.Do\<close>, at \<open>m.sessions.Delete\<close>\<close>
  | EDecr                    \<comment> \<open>at \<open>m.count.Add(-1)\<close>\<close>

record race =
  r_map :: "sessionKey \<rightharpoonup> nat"
  r_count :: int
  r_creators :: "creator multiset"
  r_expirers :: "expirer multiset"
  r_next :: nat
  r_key :: "nat \<Rightarrow> sessionKey"
  r_published :: "nat set"   \<comment> \<open>stored by \<open>LoadOrStore\<close>\<close>
  r_once :: "nat set"        \<comment> \<open>\<open>once\<close> used, hence \<open>done\<close> closed\<close>

text \<open>
  \<open>early\<close> says whether the idle timer, which \<open>newSession\<close> arms, may fire before
  \<open>LoadOrStore\<close> has published the session.
\<close>

inductive mgr_step :: "bool \<Rightarrow> int \<Rightarrow> race \<Rightarrow> race \<Rightarrow> bool" for early maxS where
  call: "mgr_step early maxS s (s\<lparr>r_creators := add_mset (CCheck k) (r_creators s)\<rparr>)"
| check: "r_creators s = add_mset (CCheck k) M \<Longrightarrow>
    mgr_step early maxS s
      (s\<lparr>r_creators := add_mset (if maxS > 0 \<and> r_count s \<ge> maxS then CRefused else CAdd k) M\<rparr>)"
| add: "r_creators s = add_mset (CAdd k) M \<Longrightarrow>
    mgr_step early maxS s
      (s\<lparr>r_count := r_count s + 1,
         r_creators := add_mset (if maxS > 0 \<and> r_count s + 1 > maxS then CRollback else CNew k) M\<rparr>)"
| rollback: "r_creators s = add_mset CRollback M \<Longrightarrow>
    mgr_step early maxS s (s\<lparr>r_count := r_count s - 1, r_creators := add_mset CRefused M\<rparr>)"
| new_session: "r_creators s = add_mset (CNew k) M \<Longrightarrow>
    mgr_step early maxS s
      (s\<lparr>r_creators := add_mset (CStore k (r_next s)) M, r_key := (r_key s)(r_next s := k),
         r_next := Suc (r_next s)\<rparr>)"
| store_won: "r_creators s = add_mset (CStore k sid) M \<Longrightarrow> r_map s k = None \<Longrightarrow>
    mgr_step early maxS s
      (s\<lparr>r_creators := add_mset (CGot sid) M, r_map := (r_map s)(k \<mapsto> sid),
         r_published := insert sid (r_published s)\<rparr>)"
| store_lost: "r_creators s = add_mset (CStore k sid) M \<Longrightarrow> r_map s k = Some actual \<Longrightarrow>
    mgr_step early maxS s (s\<lparr>r_creators := add_mset (CLost sid actual) M\<rparr>)"
| lost_decr: "r_creators s = add_mset (CLost sid actual) M \<Longrightarrow>
    mgr_step early maxS s
      (s\<lparr>r_count := r_count s - 1, r_creators := add_mset (CClean sid actual) M\<rparr>)"
| clean: "r_creators s = add_mset (CClean sid actual) M \<Longrightarrow>
    mgr_step early maxS s
      (s\<lparr>r_creators := add_mset (CGot actual) M, r_once := insert sid (r_once s)\<rparr>)"
| expire: "sid < r_next s \<Longrightarrow> sid \<notin> r_once s \<Longrightarrow> early \<or> sid \<in> r_published s \<Longrightarrow>
    mgr_step early maxS s
      (s\<lparr>r_once := insert sid (r_once s),
         r_expirers := add_mset (EDelete (r_key s sid) sid) (r_expirers s)\<rparr>)"
| delete: "r_expirers s = add_mset (EDelete k sid) E \<Longrightarrow>
    mgr_step early maxS s (s\<lparr>r_map := (r_map s)(k := None), r_expirers := add_mset EDecr E\<rparr>)"
| decr: "r_expirers s = add_mset EDecr E \<Longrightarrow>
    mgr_step early maxS s (s\<lparr>r_count := r_count s - 1, r_expirers := E\<rparr>)"

definition race_init :: race where
  "race_init = \<lparr>r_map = (\<lambda>_. None), r_count = 0, r_creators = {#}, r_expirers = {#}, r_next = 0,
                r_key = (\<lambda>_. \<lparr>key_ip = [], key_port = 0, key_zone = []\<rparr>),
                r_published = {}, r_once = {}\<rparr>"

abbreviation mgr_reaches :: "bool \<Rightarrow> int \<Rightarrow> race \<Rightarrow> race \<Rightarrow> bool" where
  "mgr_reaches early maxS \<equiv> reaches (mgr_step early maxS)"

lemmas mgr_refl = reaches_refl [of "mgr_step early maxS"] for early maxS
lemmas mgr_more = reaches_step [of "mgr_step early maxS"] for early maxS

section \<open>The invariant\<close>

text \<open>The creators that hold a count, those in rollback, and the unpublished sessions.\<close>

fun holds :: "creator \<Rightarrow> bool" where
  "holds CRollback = True"
| "holds (CNew k) = True"
| "holds (CStore k sid) = True"
| "holds (CLost sid a) = True"
| "holds _ = False"

fun owned :: "creator \<Rightarrow> nat option" where
  "owned (CStore k sid) = Some sid"
| "owned (CLost sid a) = Some sid"
| "owned (CClean sid a) = Some sid"
| "owned _ = None"

abbreviation held :: "race \<Rightarrow> int" where
  "held s \<equiv> int (size (filter_mset holds (r_creators s)))"

abbreviation rolling :: "race \<Rightarrow> int" where
  "rolling s \<equiv> int (count (r_creators s) CRollback)"

abbreviation decrs :: "race \<Rightarrow> int" where
  "decrs s \<equiv> int (count (r_expirers s) EDecr)"

abbreviation owners :: "creator multiset \<Rightarrow> nat \<Rightarrow> nat" where
  "owners M sid \<equiv> size (filter_mset (\<lambda>c. owned c = Some sid) M)"

text \<open>
  What the map holds: published sessions under their own keys; the dead ones are exactly
  those whose deletion is pending, once each; the live published ones are all there. The
  sessions still inside a \<open>Create\<close> are unpublished, alive and distinct.
\<close>

definition map_ok :: "race \<Rightarrow> bool" where
  "map_ok s \<longleftrightarrow> (\<forall>k sid. r_map s k = Some sid \<longrightarrow> k = r_key s sid \<and> sid \<in> r_published s)"

definition dead_pending :: "race \<Rightarrow> bool" where
  "dead_pending s \<longleftrightarrow>
     (\<forall>k sid. EDelete k sid \<in># r_expirers s \<longleftrightarrow> r_map s k = Some sid \<and> sid \<in> r_once s) \<and>
     (\<forall>k sid. count (r_expirers s) (EDelete k sid) \<le> 1)"

definition live_stored :: "race \<Rightarrow> bool" where
  "live_stored s \<longleftrightarrow>
     (\<forall>sid. sid \<in> r_published s \<longrightarrow> sid \<notin> r_once s \<longrightarrow> r_map s (r_key s sid) = Some sid)"

definition owned_ok :: "race \<Rightarrow> bool" where
  "owned_ok s \<longleftrightarrow>
     (\<forall>sid. owners (r_creators s) sid > 0 \<longrightarrow>
        sid < r_next s \<and> sid \<notin> r_published s \<and> sid \<notin> r_once s) \<and>
     (\<forall>sid. owners (r_creators s) sid \<le> 1) \<and>
     (\<forall>k sid. CStore k sid \<in># r_creators s \<longrightarrow> k = r_key s sid)"

definition made :: "race \<Rightarrow> bool" where
  "made s \<longleftrightarrow> (\<forall>sid. sid \<in> r_published s \<or> sid \<in> r_once s \<longrightarrow> sid < r_next s)"

definition sessions_inv :: "race \<Rightarrow> bool" where
  "sessions_inv s \<longleftrightarrow> map_ok s \<and> dead_pending s \<and> live_stored s \<and> owned_ok s \<and> made s"

definition count_inv :: "int \<Rightarrow> race \<Rightarrow> bool" where
  "count_inv maxS s \<longleftrightarrow>
     finite (dom (r_map s)) \<and>
     r_count s = int (card (dom (r_map s))) + held s + decrs s \<and>
     (maxS > 0 \<longrightarrow> r_count s - rolling s \<le> maxS)"

lemma sessions_inv_init: "sessions_inv race_init"
  by (simp add: sessions_inv_def map_ok_def dead_pending_def live_stored_def owned_ok_def made_def
      race_init_def)

lemma count_inv_init: "count_inv maxS race_init"
  by (simp add: count_inv_def race_init_def)

lemma mapD: "map_ok s \<Longrightarrow> r_map s k = Some sid \<Longrightarrow> k = r_key s sid \<and> sid \<in> r_published s"
  unfolding map_ok_def by blast

lemma dead_pendingD:
  "dead_pending s \<Longrightarrow> EDelete k sid \<in># r_expirers s \<Longrightarrow> r_map s k = Some sid \<and> sid \<in> r_once s"
  unfolding dead_pending_def by blast

lemma ownedD:
  "owned_ok s \<Longrightarrow> owners (r_creators s) sid > 0 \<Longrightarrow>
   sid < r_next s \<and> sid \<notin> r_published s \<and> sid \<notin> r_once s"
  unfolding owned_ok_def by blast

lemma owned1D: "owned_ok s \<Longrightarrow> owners (r_creators s) sid \<le> 1"
  unfolding owned_ok_def by blast

lemma storeD:
  assumes "owned_ok s" and "r_creators s = add_mset (CStore k sid) M"
  shows "k = r_key s sid \<and> sid < r_next s \<and> sid \<notin> r_published s \<and> sid \<notin> r_once s \<and>
         owners M sid = 0"
proof -
  have "CStore k sid \<in># r_creators s" by (simp add: assms(2))
  then have "k = r_key s sid" using assms(1) unfolding owned_ok_def by blast
  with ownedD [OF assms(1), of sid] owned1D [OF assms(1), of sid] show ?thesis
    by (simp add: assms(2))
qed

lemma cleanD:
  assumes "owned_ok s" and "r_creators s = add_mset (CClean sid a) M"
  shows "sid < r_next s \<and> sid \<notin> r_published s \<and> owners M sid = 0"
  using ownedD [OF assms(1), of sid] owned1D [OF assms(1), of sid] by (simp add: assms(2))

lemma nextD:
  assumes "owned_ok s" and "made s" and "map_ok s"
  shows "r_next s \<notin> r_published s" "r_next s \<notin> r_once s" "owners (r_creators s) (r_next s) = 0"
    "r_map s k \<noteq> Some (r_next s)"
proof -
  show "r_next s \<notin> r_published s" "r_next s \<notin> r_once s"
    using assms(2) unfolding made_def by blast+
  then show "r_map s k \<noteq> Some (r_next s)" using mapD [OF assms(3)] by blast
  show "owners (r_creators s) (r_next s) = 0"
    using ownedD [OF assms(1), of "r_next s"] by (cases "owners (r_creators s) (r_next s)") simp_all
qed

lemma store_not_owned: "CStore k sid \<in># M \<Longrightarrow> owners M sid > 0"
proof -
  assume "CStore k sid \<in># M"
  then have "CStore k sid \<in># filter_mset (\<lambda>c. owned c = Some sid) M" by simp
  then show ?thesis by (metis empty_iff set_mset_empty size_eq_0_iff_empty neq0_conv)
qed

lemma map_ok_step: "mgr_step False maxS s t \<Longrightarrow> sessions_inv s \<Longrightarrow> map_ok t"
proof (induction rule: mgr_step.induct)
  case (new_session s k M)
  then show ?case
    using nextD(4) [of s] by (auto simp: sessions_inv_def map_ok_def)
next
  case (store_won s k sid M)
  then show ?case
    using storeD [of s k sid M] by (auto simp: sessions_inv_def map_ok_def)
qed (simp_all add: sessions_inv_def map_ok_def)

lemma dead_pending_step: "mgr_step False maxS s t \<Longrightarrow> sessions_inv s \<Longrightarrow> dead_pending t"
proof (induction rule: mgr_step.induct)
  case (store_won s k sid M)
  then show ?case
    using storeD [of s k sid M] by (simp add: sessions_inv_def dead_pending_def)
next
  case (clean s sid a M)
  then have "r_map s k \<noteq> Some sid" for k
    using cleanD [OF _ clean(1)] mapD [of s k sid] by (auto simp: sessions_inv_def)
  with clean show ?case
    by (auto simp: sessions_inv_def dead_pending_def)
next
  case (expire sid s)
  then have pub: "sid \<in> r_published s" by simp
  with expire have m: "r_map s (r_key s sid) = Some sid"
    by (simp add: sessions_inv_def live_stored_def)
  have only: "r_map s k = Some sid \<longleftrightarrow> k = r_key s sid" for k
    using expire(4) mapD [of s k sid] m by (auto simp: sessions_inv_def)
  have d: "dead_pending s" using expire(4) by (simp add: sessions_inv_def)
  have none: "EDelete k sid \<notin># r_expirers s" for k
    using dead_pendingD [OF d, of k sid] expire(2) by blast
  show ?case
    unfolding dead_pending_def
  proof (intro conjI allI)
    fix k' sid'
    have b: "EDelete k' sid' \<in># r_expirers s \<longleftrightarrow> r_map s k' = Some sid' \<and> sid' \<in> r_once s"
      "count (r_expirers s) (EDelete k' sid') \<le> 1"
      using d unfolding dead_pending_def by blast+
    show "EDelete k' sid' \<in># r_expirers (s\<lparr>r_once := insert sid (r_once s),
           r_expirers := add_mset (EDelete (r_key s sid) sid) (r_expirers s)\<rparr>) \<longleftrightarrow>
        r_map (s\<lparr>r_once := insert sid (r_once s),
           r_expirers := add_mset (EDelete (r_key s sid) sid) (r_expirers s)\<rparr>) k' = Some sid' \<and>
        sid' \<in> r_once (s\<lparr>r_once := insert sid (r_once s),
           r_expirers := add_mset (EDelete (r_key s sid) sid) (r_expirers s)\<rparr>)"
      using b(1) only [of k'] none [of k'] by (cases "sid' = sid") simp_all
    show "count (r_expirers (s\<lparr>r_once := insert sid (r_once s),
           r_expirers := add_mset (EDelete (r_key s sid) sid) (r_expirers s)\<rparr>)) (EDelete k' sid') \<le> 1"
      using b(2) none [of k'] by (cases "sid' = sid") (simp_all add: not_in_iff)
  qed
next
  case (delete s k sid E)
  then have d: "dead_pending s" by (simp add: sessions_inv_def)
  then have c: "count (r_expirers s) (EDelete k sid) \<le> 1"
    unfolding dead_pending_def by blast
  have gone: "EDelete k sid' \<notin># E" for sid'
  proof
    assume "EDelete k sid' \<in># E"
    moreover from this have "sid' = sid"
      using dead_pendingD [OF d, of k sid'] dead_pendingD [OF d, of k sid] delete(1) by simp
    ultimately show False using c delete(1) by (auto simp: count_eq_zero_iff)
  qed
  show ?case
    unfolding dead_pending_def
  proof (intro conjI allI)
    fix k' sid'
    show "EDelete k' sid' \<in># r_expirers (s\<lparr>r_map := (r_map s)(k := None), r_expirers := add_mset EDecr E\<rparr>) \<longleftrightarrow>
        r_map (s\<lparr>r_map := (r_map s)(k := None), r_expirers := add_mset EDecr E\<rparr>) k' = Some sid' \<and>
        sid' \<in> r_once (s\<lparr>r_map := (r_map s)(k := None), r_expirers := add_mset EDecr E\<rparr>)"
      using d gone delete(1) by (auto simp: dead_pending_def)
    have "count (r_expirers s) (EDelete k' sid') \<le> 1"
      using d unfolding dead_pending_def by blast
    then show "count (r_expirers (s\<lparr>r_map := (r_map s)(k := None), r_expirers := add_mset EDecr E\<rparr>))
        (EDelete k' sid') \<le> 1"
      using delete(1) by (simp split: if_splits)
  qed
qed (simp_all add: sessions_inv_def dead_pending_def)

lemma live_stored_step: "mgr_step False maxS s t \<Longrightarrow> sessions_inv s \<Longrightarrow> live_stored t"
proof (induction rule: mgr_step.induct)
  case (new_session s k M)
  then show ?case
    using nextD(1) [of s] by (auto simp: sessions_inv_def live_stored_def)
next
  case (store_won s k sid M)
  have "r_map s (r_key s x) \<noteq> None" if "x \<in> r_published s" "x \<notin> r_once s" for x
    using that store_won(3) by (simp add: sessions_inv_def live_stored_def)
  with store_won storeD [of s k sid M] show ?case
    by (auto simp: sessions_inv_def live_stored_def)
next
  case (delete s k sid E)
  then have "r_map s k = Some sid \<and> sid \<in> r_once s"
    using dead_pendingD [of s k sid] by (simp add: sessions_inv_def)
  with delete(2) show ?case
    by (auto simp: sessions_inv_def live_stored_def)
qed (simp_all add: sessions_inv_def live_stored_def)

text \<open>A session that is no longer owned may be published or used.\<close>

lemma owned_ok_drop:
  assumes "owned_ok s" and "owners (r_creators t) sid = 0"
    and "\<And>x. owners (r_creators t) x \<le> owners (r_creators s) x"
    and "\<And>k x. CStore k x \<in># r_creators t \<Longrightarrow> CStore k x \<in># r_creators s"
    and "r_key t = r_key s" and "r_next t = r_next s"
    and "r_published t \<subseteq> insert sid (r_published s)" and "r_once t \<subseteq> insert sid (r_once s)"
  shows "owned_ok t"
  unfolding owned_ok_def
proof (intro conjI allI impI)
  fix x
  show "owners (r_creators t) x \<le> 1"
    using owned1D [OF assms(1), of x] assms(3) [of x] by linarith
  assume x: "owners (r_creators t) x > 0"
  then have "owners (r_creators s) x > 0" using assms(3) [of x] by linarith
  moreover have "x \<noteq> sid" using x assms(2) by (metis less_irrefl)
  ultimately have "owners (r_creators s) x > 0" "x \<noteq> sid" by blast+
  then show "x < r_next t" "x \<notin> r_published t" "x \<notin> r_once t"
    using ownedD [OF assms(1), of x] assms(6-8) by auto
next
  fix k x
  assume "CStore k x \<in># r_creators t"
  then have "CStore k x \<in># r_creators s" by (rule assms(4))
  then show "k = r_key t x" using assms(1,5) unfolding owned_ok_def by simp
qed

lemma owned_ok_step: "mgr_step False maxS s t \<Longrightarrow> sessions_inv s \<Longrightarrow> owned_ok t"
proof (induction rule: mgr_step.induct)
  case (new_session s k M)
  have z: "owners M (r_next s) = 0" and n: "r_next s \<notin> r_published s" "r_next s \<notin> r_once s"
    using new_session nextD [of s] by (simp_all add: sessions_inv_def)
  then have "CStore k' (r_next s) \<notin># M" for k'
    using store_not_owned by fastforce
  note st = this
  have o: "owned_ok s" using new_session(2) by (simp add: sessions_inv_def)
  have M: "owners (r_creators s) x = owners M x" for x by (simp add: new_session(1))
  show ?case
    unfolding owned_ok_def
  proof (intro conjI allI impI)
    fix sid
    let ?t = "s\<lparr>r_creators := add_mset (CStore k (r_next s)) M, r_key := (r_key s)(r_next s := k),
         r_next := Suc (r_next s)\<rparr>"
    show "owners (r_creators ?t) sid \<le> 1"
      using owned1D [OF o, of sid] z by (cases "sid = r_next s") (simp_all add: M)
    assume "owners (r_creators ?t) sid > 0"
    then have "owners M sid > 0 \<or> sid = r_next s" by (auto split: if_splits)
    then show "sid < r_next ?t" "sid \<notin> r_published ?t" "sid \<notin> r_once ?t"
      using ownedD [OF o, of sid] n by (auto simp: M)
  next
    fix k' sid
    let ?t = "s\<lparr>r_creators := add_mset (CStore k (r_next s)) M, r_key := (r_key s)(r_next s := k),
         r_next := Suc (r_next s)\<rparr>"
    assume "CStore k' sid \<in># r_creators ?t"
    then have "k' = k \<and> sid = r_next s \<or> CStore k' sid \<in># M" by auto
    then show "k' = r_key ?t sid"
      using o st [of k'] new_session(1) unfolding owned_ok_def by fastforce
  qed
next
  case (store_won s k sid M)
  let ?t = "s\<lparr>r_creators := add_mset (CGot sid) M, r_map := (r_map s)(k \<mapsto> sid),
         r_published := insert sid (r_published s)\<rparr>"
  have o: "owned_ok s" using store_won(3) by (simp add: sessions_inv_def)
  show ?case
    using storeD [OF o store_won(1)] by (intro owned_ok_drop [OF o, where t = ?t and sid = sid]) (auto simp: store_won(1))
next
  case (clean s sid a M)
  let ?t = "s\<lparr>r_creators := add_mset (CGot a) M, r_once := insert sid (r_once s)\<rparr>"
  have o: "owned_ok s" using clean(2) by (simp add: sessions_inv_def)
  show ?case
    using cleanD [OF o clean(1)] by (intro owned_ok_drop [OF o, where t = ?t and sid = sid]) (auto simp: clean(1))
next
  case (expire sid s)
  then have o: "owned_ok s" and p: "sid \<in> r_published s" by (simp_all add: sessions_inv_def)
  then have "owners (r_creators s) sid = 0" using ownedD [OF o, of sid] by fastforce
  then show ?case
    by (intro owned_ok_drop [OF o, where sid = sid]) auto
qed (auto simp: sessions_inv_def owned_ok_def split: if_splits)

lemma made_step: "mgr_step False maxS s t \<Longrightarrow> sessions_inv s \<Longrightarrow> made t"
proof (induction rule: mgr_step.induct)
  case (store_won s k sid M)
  then show ?case
    using storeD [of s k sid M] by (auto simp: sessions_inv_def made_def)
next
  case (clean s sid a M)
  then show ?case
    using cleanD [of s sid a M] by (auto simp: sessions_inv_def made_def)
qed (auto simp: sessions_inv_def made_def less_Suc_eq)

lemma sessions_inv_step: "mgr_step False maxS s t \<Longrightarrow> sessions_inv s \<Longrightarrow> sessions_inv t"
  using map_ok_step dead_pending_step live_stored_step owned_ok_step made_step
  unfolding sessions_inv_def [of t] by blast

lemma count_inv_step:
  assumes "mgr_step False maxS s t" and "sessions_inv s" and "count_inv maxS s"
  shows "count_inv maxS t"
  using assms
proof (induction rule: mgr_step.induct)
  case (delete s k sid E)
  then have "EDelete k sid \<in># r_expirers s" by simp
  with delete(2) have "r_map s k = Some sid"
    using dead_pendingD unfolding sessions_inv_def by blast
  then have "k \<in> dom (r_map s)" by blast
  then have card: "Suc (card (dom (r_map s) - {k})) = card (dom (r_map s))"
    using delete(3) card.remove [of "dom (r_map s)" k] by (simp add: count_inv_def)
  let ?t = "s\<lparr>r_map := (r_map s)(k := None), r_expirers := add_mset EDecr E\<rparr>"
  have t: "dom (r_map ?t) = dom (r_map s) - {k}" "r_count ?t = r_count s" "held ?t = held s"
    "rolling ?t = rolling s" "decrs ?t = decrs s + 1"
    using delete(1) by simp_all
  show ?case
    using delete(3) card unfolding count_inv_def t by auto
next
  case (store_won s k sid M)
  let ?t = "s\<lparr>r_creators := add_mset (CGot sid) M, r_map := (r_map s)(k \<mapsto> sid),
         r_published := insert sid (r_published s)\<rparr>"
  have "k \<notin> dom (r_map s)" using store_won(2) by (simp add: domIff)
  then have card: "finite (dom (r_map s)) \<Longrightarrow> card (insert k (dom (r_map s))) = Suc (card (dom (r_map s)))"
    by simp
  have t: "dom (r_map ?t) = insert k (dom (r_map s))" "r_count ?t = r_count s"
    "held s = held ?t + 1" "rolling ?t = rolling s" "decrs ?t = decrs s"
    using store_won(1) by simp_all
  show ?case
    using store_won(4) card t(3) unfolding count_inv_def t(1,2,4,5) by (auto simp del: card_insert_disjoint)
qed (auto simp: count_inv_def)

interpretation race: preserved "mgr_step False maxS" "\<lambda>s. sessions_inv s \<and> count_inv maxS s"
  for maxS
  by unfold_locales (blast intro: sessions_inv_step count_inv_step)

lemma race_inv: "mgr_reaches False maxS race_init s \<Longrightarrow> sessions_inv s \<and> count_inv maxS s"
  using race.inv_reaches sessions_inv_init count_inv_init by blast

section \<open>The manager under concurrency\<close>

definition returned :: "creator \<Rightarrow> bool" where
  "returned c = (case c of CGot sid \<Rightarrow> True | CRefused \<Rightarrow> True | _ \<Rightarrow> False)"

lemma returned_not_holds: "returned c \<Longrightarrow> \<not> holds c"
  by (cases c) (simp_all add: returned_def)

lemma rolling_held: "count M CRollback \<le> size (filter_mset holds M)"
proof -
  have "count M CRollback = count (filter_mset holds M) CRollback" by simp
  also have "\<dots> \<le> size (filter_mset holds M)" by (rule count_le_size)
  finally show ?thesis .
qed

text \<open>
  C9. Any number of concurrent creations and expiries keep the session table sound, as long as
  no idle timer fires before its session is published: with a positive cap the table never
  holds more sessions than the cap; a dead session still in the table has its deletion
  pending; and once every call has returned the counter is the number of stored sessions, all
  of them alive.
\<close>

theorem concurrent_manager:
  assumes "mgr_reaches False maxS race_init s"
  shows "(maxS > 0 \<longrightarrow> int (card (dom (r_map s))) \<le> maxS) \<and>
         (\<forall>k sid. r_map s k = Some sid \<longrightarrow> sid \<in> r_once s \<longrightarrow> EDelete k sid \<in># r_expirers s) \<and>
         ((\<forall>c \<in># r_creators s. returned c) \<and> r_expirers s = {#} \<longrightarrow>
            r_count s = int (card (dom (r_map s))) \<and>
            (\<forall>k sid. r_map s k = Some sid \<longrightarrow> sid \<notin> r_once s))"
proof -
  from race_inv [OF assms] have d: "dead_pending s" and c: "count_inv maxS s"
    by (auto simp: sessions_inv_def)
  have "maxS > 0 \<longrightarrow> int (card (dom (r_map s))) \<le> maxS"
    using c rolling_held [of "r_creators s"] by (auto simp: count_inv_def)
  moreover have dead: "\<forall>k sid. r_map s k = Some sid \<longrightarrow> sid \<in> r_once s \<longrightarrow> EDelete k sid \<in># r_expirers s"
    using d unfolding dead_pending_def by blast
  moreover have "r_count s = int (card (dom (r_map s)))"
    if "\<forall>c \<in># r_creators s. returned c" "r_expirers s = {#}"
  proof -
    have "filter_mset holds (r_creators s) = {#}"
      using that(1) returned_not_holds by auto
    with c that(2) show ?thesis by (simp add: count_inv_def)
  qed
  ultimately show ?thesis by auto
qed

section \<open>The early timer\<close>

text \<open>
  The state after: one goroutine makes a session; its idle timer fires before \<open>LoadOrStore\<close>
  and runs \<open>expire\<close> to the end; \<open>LoadOrStore\<close> then stores the dead session.
\<close>

definition blackholed :: "sessionKey \<Rightarrow> race" where
  "blackholed k = race_init\<lparr>r_map := [k \<mapsto> 0], r_creators := {#CGot 0#}, r_next := 1,
     r_key := (r_key race_init)(0 := k), r_published := {0}, r_once := {0}\<rparr>"

lemma blackholed_reached: "maxS > 0 \<Longrightarrow> mgr_reaches True maxS race_init (blackholed k)"
proof -
  assume pos: "maxS > 0"
  let ?R = "mgr_reaches True maxS race_init"
  let ?key = "(r_key race_init)(0 := k)"
  have "?R race_init" by (rule mgr_refl)
  then have "?R (race_init\<lparr>r_creators := {#CCheck k#}\<rparr>)"
    by (rule mgr_more) (use mgr_step.call [of True maxS race_init k] in \<open>simp add: race_init_def\<close>)
  then have "?R (race_init\<lparr>r_creators := {#CAdd k#}\<rparr>)"
    by (rule mgr_more)
      (use mgr_step.check [of "race_init\<lparr>r_creators := {#CCheck k#}\<rparr>" k "{#}" True maxS] pos
       in \<open>simp add: race_init_def\<close>)
  then have "?R (race_init\<lparr>r_count := 1, r_creators := {#CNew k#}\<rparr>)"
    by (rule mgr_more)
      (use mgr_step.add [of "race_init\<lparr>r_creators := {#CAdd k#}\<rparr>" k "{#}" True maxS] pos
       in \<open>simp add: race_init_def\<close>)
  then have "?R (race_init\<lparr>r_count := 1, r_creators := {#CStore k 0#}, r_next := 1, r_key := ?key\<rparr>)"
    by (rule mgr_more)
      (use mgr_step.new_session [of "race_init\<lparr>r_count := 1, r_creators := {#CNew k#}\<rparr>" k "{#}" True maxS]
       in \<open>simp add: race_init_def\<close>)
  then have "?R (race_init\<lparr>r_count := 1, r_creators := {#CStore k 0#}, r_next := 1, r_key := ?key,
      r_once := {0}, r_expirers := {#EDelete k 0#}\<rparr>)"
    by (rule mgr_more)
      (use mgr_step.expire [of 0 "race_init\<lparr>r_count := 1, r_creators := {#CStore k 0#}, r_next := 1,
         r_key := ?key\<rparr>" True maxS] in \<open>simp add: race_init_def\<close>)
  then have "?R (race_init\<lparr>r_count := 1, r_creators := {#CStore k 0#}, r_next := 1, r_key := ?key,
      r_once := {0}, r_expirers := {#EDecr#}\<rparr>)"
    by (rule mgr_more)
      (use mgr_step.delete [of "race_init\<lparr>r_count := 1, r_creators := {#CStore k 0#}, r_next := 1,
         r_key := ?key, r_once := {0}, r_expirers := {#EDelete k 0#}\<rparr>" k 0 "{#}" True maxS]
       in \<open>simp add: race_init_def fun_upd_idem\<close>)
  then have "?R (race_init\<lparr>r_creators := {#CStore k 0#}, r_next := 1, r_key := ?key, r_once := {0}\<rparr>)"
    by (rule mgr_more)
      (use mgr_step.decr [of "race_init\<lparr>r_count := 1, r_creators := {#CStore k 0#}, r_next := 1,
         r_key := ?key, r_once := {0}, r_expirers := {#EDecr#}\<rparr>" "{#}" True maxS]
       in \<open>simp add: race_init_def\<close>)
  then show ?thesis
    by (rule mgr_more)
      (use mgr_step.store_won [of "race_init\<lparr>r_creators := {#CStore k 0#}, r_next := 1,
         r_key := ?key, r_once := {0}\<rparr>" k 0 "{#}" True maxS]
       in \<open>simp add: race_init_def blackholed_def\<close>)
qed

text \<open>A dead session under a key for which no deletion is pending, and none can become so.\<close>

definition stuck :: "sessionKey \<Rightarrow> nat \<Rightarrow> race \<Rightarrow> bool" where
  "stuck k sid s \<longleftrightarrow>
     r_map s k = Some sid \<and> sid \<in> r_once s \<and>
     (\<forall>x. EDelete k x \<notin># r_expirers s) \<and>
     (\<forall>x \<in> r_published s. x < r_next s \<and> (x \<notin> r_once s \<longrightarrow> r_key s x \<noteq> k)) \<and>
     (\<forall>k' x. CStore k' x \<in># r_creators s \<longrightarrow> x < r_next s \<and> k' = r_key s x)"

lemma stuck_step: "mgr_step False maxS s t \<Longrightarrow> stuck k sid s \<Longrightarrow> stuck k sid t"
proof (induction rule: mgr_step.induct)
  case (store_won s k' x M)
  then have "CStore k' x \<in># r_creators s" "k' \<noteq> k" by (auto simp: stuck_def)
  then have "x < r_next s" "k' = r_key s x" using store_won(3) by (auto simp: stuck_def)
  with \<open>k' \<noteq> k\<close> store_won show ?case by (auto simp: stuck_def)
qed (fastforce simp: stuck_def less_Suc_eq split: if_splits)+

interpretation blackhole: preserved "mgr_step False maxS" "stuck k sid" for maxS k sid
  by unfold_locales (rule stuck_step)

lemma blackholed_stuck: "stuck k 0 (blackholed k)"
  by (auto simp: stuck_def blackholed_def race_init_def split: if_splits)



theorem concurrent_manager_witness:
  "int (card (dom (r_map (race_init\<lparr>r_creators := {#CCheck (keyFromUDPAddr client1)#}\<rparr>)))) \<le> 1"
proof -
  have "mgr_reaches False 1 race_init (race_init\<lparr>r_creators := {#CCheck (keyFromUDPAddr client1)#}\<rparr>)"
    by (rule mgr_more [OF mgr_refl])
      (use mgr_step.call [of False 1 race_init "keyFromUDPAddr client1"] in \<open>simp add: race_init_def\<close>)
  from concurrent_manager [OF this] show ?thesis by simp
qed

end
