(* ===== verification/Udp_Refine.thy ===== *)
theory Udp_Refine
  imports Udp_Race
begin

text \<open>
  The two models of the session manager agree: the operations of theory Udp_Manager, each run
  to its end, are runs of the interleaved model of theory Udp_Race, with the same keys stored,
  the same counter and the same outcomes. So what is proved of every interleaving holds of the
  sequential manager, and the sequential definitions do what the atomic steps do.
\<close>

section \<open>The relation\<close>

text \<open>Between two calls: every goroutine has returned, and table and counter agree.\<close>

definition quiet :: "race \<Rightarrow> bool" where
  "quiet s \<longleftrightarrow> (\<forall>c \<in># r_creators s. returned c) \<and> r_expirers s = {#}"

definition sim :: "Manager \<Rightarrow> race \<Rightarrow> bool" where
  "sim m s \<longleftrightarrow>
     mgr_ok m \<and> mgr_reaches False (m_max m) race_init s \<and> quiet s \<and>
     dom (r_map s) = dom (m_sessions m) \<and> r_count s = m_count m"

lemma sim_init: "sim (NewUDPSessionManager n) race_init"
  using mgr_ok_new mgr_refl
  by (simp add: sim_def quiet_def race_init_def NewUDPSessionManager_def)

lemma returned_simps [simp]: "returned (CGot sid)" "returned CRefused"
  by (simp_all add: returned_def)

section \<open>Create\<close>

lemma create_refused_run:
  assumes "n > 0" and "r_count s \<ge> n"
  shows "mgr_reaches False n s (s\<lparr>r_creators := add_mset CRefused (r_creators s)\<rparr>)"
proof -
  let ?M = "r_creators s"
  have 1: "mgr_step False n s (s\<lparr>r_creators := add_mset (CCheck k) ?M\<rparr>)" for k
    by (rule mgr_step.call)
  have 2: "mgr_step False n (s\<lparr>r_creators := add_mset (CCheck k) ?M\<rparr>) (s\<lparr>r_creators := add_mset CRefused ?M\<rparr>)" for k
    using mgr_step.check [of "s\<lparr>r_creators := add_mset (CCheck k) ?M\<rparr>" k ?M False n] assms by simp
  show ?thesis by (rule mgr_more [OF mgr_more [OF mgr_refl 1] 2])
qed

text \<open>The steps of a call that is let through, up to \<open>LoadOrStore\<close>.\<close>

lemma create_store_run:
  assumes "\<not> (n > 0 \<and> r_count s \<ge> n)"
  shows "mgr_reaches False n s
    (s\<lparr>r_count := r_count s + 1, r_creators := add_mset (CStore k (r_next s)) (r_creators s),
       r_key := (r_key s)(r_next s := k), r_next := Suc (r_next s)\<rparr>)"
proof -
  let ?M = "r_creators s"
  let ?s1 = "s\<lparr>r_creators := add_mset (CCheck k) ?M\<rparr>"
  let ?s2 = "s\<lparr>r_creators := add_mset (CAdd k) ?M\<rparr>"
  let ?s3 = "s\<lparr>r_count := r_count s + 1, r_creators := add_mset (CNew k) ?M\<rparr>"
  have 1: "mgr_step False n s ?s1" by (rule mgr_step.call)
  have 2: "mgr_step False n ?s1 ?s2"
    using mgr_step.check [of ?s1 k ?M False n] assms by auto
  have 3: "mgr_step False n ?s2 ?s3"
    using mgr_step.add [of ?s2 k ?M False n] assms by auto
  have 4: "mgr_step False n ?s3 (s\<lparr>r_count := r_count s + 1,
      r_creators := add_mset (CStore k (r_next s)) ?M, r_key := (r_key s)(r_next s := k),
      r_next := Suc (r_next s)\<rparr>)"
    using mgr_step.new_session [of ?s3 k ?M False n] by simp
  show ?thesis
    by (rule mgr_more [OF mgr_more [OF mgr_more [OF mgr_more
            [OF mgr_refl 1] 2] 3] 4])
qed

lemma create_won_run:
  assumes "\<not> (n > 0 \<and> r_count s \<ge> n)" and "r_map s k = None"
  shows "\<exists>t. mgr_reaches False n s t \<and> r_map t = (r_map s)(k \<mapsto> r_next s) \<and>
    r_count t = r_count s + 1 \<and> r_creators t = add_mset (CGot (r_next s)) (r_creators s) \<and>
    r_expirers t = r_expirers s"
proof -
  let ?s = "s\<lparr>r_count := r_count s + 1, r_creators := add_mset (CStore k (r_next s)) (r_creators s),
       r_key := (r_key s)(r_next s := k), r_next := Suc (r_next s)\<rparr>"
  have "mgr_step False n ?s (?s\<lparr>r_creators := add_mset (CGot (r_next s)) (r_creators s),
      r_map := (r_map ?s)(k \<mapsto> r_next s), r_published := insert (r_next s) (r_published ?s)\<rparr>)"
    by (rule mgr_step.store_won) (simp_all add: assms(2))
  from mgr_more [OF create_store_run [OF assms(1)] this]
  show ?thesis by - (rule exI, rule conjI, assumption, simp)
qed

lemma create_lost_run:
  assumes "\<not> (n > 0 \<and> r_count s \<ge> n)" and "r_map s k = Some sid"
  shows "\<exists>t. mgr_reaches False n s t \<and> r_map t = r_map s \<and> r_count t = r_count s \<and>
    r_creators t = add_mset (CGot sid) (r_creators s) \<and> r_expirers t = r_expirers s"
proof -
  let ?M = "r_creators s"
  let ?s = "s\<lparr>r_count := r_count s + 1, r_creators := add_mset (CStore k (r_next s)) ?M,
       r_key := (r_key s)(r_next s := k), r_next := Suc (r_next s)\<rparr>"
  let ?s1 = "?s\<lparr>r_creators := add_mset (CLost (r_next s) sid) ?M\<rparr>"
  let ?s2 = "?s\<lparr>r_count := r_count s, r_creators := add_mset (CClean (r_next s) sid) ?M\<rparr>"
  let ?s3 = "?s\<lparr>r_count := r_count s, r_creators := add_mset (CGot sid) ?M, r_once := insert (r_next s) (r_once s)\<rparr>"
  have 1: "mgr_step False n ?s ?s1"
    using mgr_step.store_lost [of ?s k "r_next s" ?M sid False n] assms(2) by simp
  have 2: "mgr_step False n ?s1 ?s2"
    using mgr_step.lost_decr [of ?s1 "r_next s" sid ?M False n] by simp
  have 3: "mgr_step False n ?s2 ?s3"
    using mgr_step.clean [of ?s2 "r_next s" sid ?M False n] by simp
  have "mgr_reaches False n s ?s3"
    by (rule mgr_more [OF mgr_more [OF mgr_more
            [OF create_store_run [OF assms(1)] 1] 2] 3])
  then show ?thesis by - (rule exI, rule conjI, assumption, simp)
qed

text \<open>The outcome a caller of \<open>Create\<close> sees, in both models.\<close>

definition same_outcome :: "race \<Rightarrow> sessionKey \<Rightarrow> manager_error + UDPSession \<times> bool \<Rightarrow> creator \<Rightarrow> bool" where
  "same_outcome t k r c \<longleftrightarrow>
     (case r of Inl e \<Rightarrow> c = CRefused | Inr (u, fresh) \<Rightarrow> (\<exists>sid. c = CGot sid \<and> r_map t k = Some sid))"

lemma Create_refines:
  assumes "sim m s" and "Create m k client idle = (m', r)"
  shows "\<exists>t c. mgr_reaches False (m_max m) s t \<and> sim m' t \<and>
    r_creators t = add_mset c (r_creators s) \<and> same_outcome t k r c"
proof -
  from assms(1) have ok: "mgr_ok m" and reach: "mgr_reaches False (m_max m) race_init s"
    and q: "quiet s" and d: "dom (r_map s) = dom (m_sessions m)" and n: "r_count s = m_count m"
    by (simp_all add: sim_def)
  have keep: "mgr_ok m' \<and> m_max m' = m_max m" by (rule mgr_ok_Create [OF assms(2) ok])
  have simI: "sim m' t" if "mgr_reaches False (m_max m) s t" "r_creators t = add_mset c (r_creators s)"
    "returned c" "r_expirers t = r_expirers s" "dom (r_map t) = dom (m_sessions m')" "r_count t = m_count m'" for t c
    using that keep q reaches_trans [OF reach that(1)] by (simp add: sim_def quiet_def)
  show ?thesis
  proof (cases "m_max m > 0 \<and> m_count m \<ge> m_max m")
    case True
    with assms(2) have r: "m' = m" "r = Inl ErrMaxSessions" by (auto simp: Create_def)
    have run: "mgr_reaches False (m_max m) s (s\<lparr>r_creators := add_mset CRefused (r_creators s)\<rparr>)"
      using create_refused_run [of "m_max m" s] True n by simp
    have "sim m' (s\<lparr>r_creators := add_mset CRefused (r_creators s)\<rparr>)"
      by (rule simI [OF run, of CRefused]) (simp_all add: r d n)
    with run r show ?thesis by (fastforce simp: same_outcome_def)
  next
    case False
    then have go: "\<not> (m_max m > 0 \<and> r_count s \<ge> m_max m)" by (simp add: n)
    show ?thesis
    proof (cases "m_sessions m k")
      case None
      with d have "r_map s k = None" by (metis domIff)
      from create_won_run [OF go this] obtain t where t: "mgr_reaches False (m_max m) s t"
        "r_map t = (r_map s)(k \<mapsto> r_next s)" "r_count t = r_count s + 1"
        "r_creators t = add_mset (CGot (r_next s)) (r_creators s)" "r_expirers t = r_expirers s"
        by blast
      from False None assms(2) have r: "r = Inr (newSession k client idle, True)"
        "m_sessions m' = (m_sessions m)(k \<mapsto> newSession k client idle)" "m_count m' = m_count m + 1"
        by (auto simp: Create_def Let_def split: if_splits)
      have "sim m' t" by (rule simI [OF t(1,4)]) (simp_all add: t r d n)
      with t r show ?thesis by (auto simp: same_outcome_def)
    next
      case (Some u)
      then have "k \<in> dom (r_map s)" using d by auto
      then obtain sid where sid: "r_map s k = Some sid" by auto
      from create_lost_run [OF go sid] obtain t where t: "mgr_reaches False (m_max m) s t"
        "r_map t = r_map s" "r_count t = r_count s"
        "r_creators t = add_mset (CGot sid) (r_creators s)" "r_expirers t = r_expirers s"
        by blast
      from False Some assms(2) have r: "r = Inr (u, False)" "m_sessions m' = m_sessions m" "m_count m' = m_count m"
        by (auto simp: Create_def Let_def split: if_splits)
      have "sim m' t" by (rule simI [OF t(1,4)]) (simp_all add: t r d n)
      with t r sid show ?thesis by (auto simp: same_outcome_def)
    qed
  qed
qed

section \<open>Expiry\<close>

lemma expire_run:
  assumes "sid < r_next s" and "sid \<notin> r_once s" and "sid \<in> r_published s"
    and "r_key s sid = k" and "r_expirers s = {#}"
  shows "\<exists>t. mgr_reaches False n s t \<and> r_map t = (r_map s)(k := None) \<and> r_count t = r_count s - 1 \<and>
    r_creators t = r_creators s \<and> r_expirers t = {#}"
proof -
  let ?s1 = "s\<lparr>r_once := insert sid (r_once s), r_expirers := {#EDelete k sid#}\<rparr>"
  let ?s2 = "?s1\<lparr>r_map := (r_map s)(k := None), r_expirers := {#EDecr#}\<rparr>"
  let ?s3 = "?s2\<lparr>r_count := r_count s - 1, r_expirers := {#}\<rparr>"
  have 1: "mgr_step False n s ?s1"
    using mgr_step.expire [of sid s False n] assms by simp
  have 2: "mgr_step False n ?s1 ?s2"
    using mgr_step.delete [of ?s1 k sid "{#}" False n] by simp
  have 3: "mgr_step False n ?s2 ?s3"
    using mgr_step.decr [of ?s2 "{#}" False n] by simp
  have "mgr_reaches False n s ?s3"
    by (rule mgr_more [OF mgr_more [OF mgr_more [OF mgr_refl 1] 2] 3])
  then show ?thesis by - (rule exI, rule conjI, assumption, simp)
qed

lemma expire_key_refines:
  assumes "sim m s" and "m_sessions m k \<noteq> None"
  shows "\<exists>t. mgr_reaches False (m_max m) s t \<and> sim (expire_key k m) t \<and>
    r_creators t = r_creators s"
proof -
  from assms(1) have ok: "mgr_ok m" and reach: "mgr_reaches False (m_max m) race_init s"
    and q: "quiet s" and d: "dom (r_map s) = dom (m_sessions m)" and n: "r_count s = m_count m"
    by (simp_all add: sim_def)
  obtain sid where sid: "r_map s k = Some sid" using assms(2) d by (metis domD domI domIff)
  from race_inv [OF reach] have inv: "map_ok s" "dead_pending s" "made s" by (simp_all add: sessions_inv_def)
  have key: "r_key s sid = k" and pub: "sid \<in> r_published s" using mapD [OF inv(1) sid] by simp_all
  have made: "sid < r_next s" using inv(3) pub by (auto simp: made_def)
  have alive: "sid \<notin> r_once s"
    using inv(2) sid q by (fastforce simp: dead_pending_def quiet_def)
  from q have "r_expirers s = {#}" by (simp add: quiet_def)
  from expire_run [OF made alive pub key this] obtain t where t: "mgr_reaches False (m_max m) s t"
    "r_map t = (r_map s)(k := None)" "r_count t = r_count s - 1" "r_creators t = r_creators s" "r_expirers t = {#}"
    by blast
  obtain u where u: "m_sessions m k = Some u" using assms(2) by blast
  have "\<not> us_once u" using ok u by (auto simp: mgr_ok_def session_ok_def)
  then have e: "expire_key k m = remove m k" by (simp add: expire_key_def u expire_def)
  have "sim (expire_key k m) t"
    using t q mgr_ok_remove [OF ok assms(2)] reaches_trans [OF reach t(1)]
    by (simp add: e sim_def quiet_def remove_def d n)
  with t(1,4) show ?thesis by blast
qed

section \<open>Any sequence of calls\<close>

datatype mgr_call = CallCreate sessionKey net_addr duration | CallExpire sessionKey

fun call_step :: "Manager \<Rightarrow> mgr_call \<Rightarrow> Manager" where
  "call_step m (CallCreate k client idle) = fst (Create m k client idle)"
| "call_step m (CallExpire k) = expire_key k m"

fun refused :: "Manager \<Rightarrow> mgr_call \<Rightarrow> bool" where
  "refused m (CallCreate k client idle) \<longleftrightarrow> snd (Create m k client idle) = Inl ErrMaxSessions"
| "refused m (CallExpire k) \<longleftrightarrow> False"

fun refusals :: "Manager \<Rightarrow> mgr_call list \<Rightarrow> nat" where
  "refusals m [] = 0"
| "refusals m (c # cs) = (if refused m c then 1 else 0) + refusals (call_step m c) cs"

lemma expire_key_keeps_refusals:
  assumes "sim m s"
  shows "\<exists>t. sim (expire_key k m) t \<and> r_creators t = r_creators s \<and> m_max (expire_key k m) = m_max m"
proof (cases "m_sessions m k")
  case None
  with assms show ?thesis by (auto simp: expire_key_def)
next
  case (Some u)
  have "m_max (expire_key k m) = m_max m"
    by (simp add: expire_key_def Some remove_def split: prod.split bool.split)
  with Some expire_key_refines [OF assms, of k] show ?thesis by auto
qed

lemma call_refines:
  assumes "sim m s"
  shows "\<exists>t. sim (call_step m c) t \<and> m_max (call_step m c) = m_max m \<and>
    count (r_creators t) CRefused = count (r_creators s) CRefused + (if refused m c then 1 else 0)"
proof (cases c)
  case (CallCreate k client idle)
  obtain m' r where c: "Create m k client idle = (m', r)" by fastforce
  from Create_refines [OF assms c] obtain t a where t: "sim m' t"
    "r_creators t = add_mset a (r_creators s)" "same_outcome t k r a"
    by blast
  have "a = CRefused \<longleftrightarrow> r = Inl ErrMaxSessions"
    using t(3) by (cases r) (auto simp: same_outcome_def intro: manager_error.exhaust)
  with t CallCreate c mgr_ok_Create [OF c] assms show ?thesis by (auto simp: sim_def)
next
  case (CallExpire k)
  with expire_key_keeps_refusals [OF assms, of k] show ?thesis by auto
qed

lemma calls_refine:
  "sim m s \<Longrightarrow> \<exists>t. sim (foldl call_step m cs) t \<and> m_max (foldl call_step m cs) = m_max m \<and>
     count (r_creators t) CRefused = count (r_creators s) CRefused + refusals m cs"
proof (induction cs arbitrary: m s)
  case (Cons c cs)
  from call_refines [OF Cons.prems, of c] obtain u where u: "sim (call_step m c) u"
    "m_max (call_step m c) = m_max m"
    "count (r_creators u) CRefused = count (r_creators s) CRefused + (if refused m c then 1 else 0)"
    by blast
  from Cons.IH [OF u(1)] u(2,3) show ?case by auto
qed auto

text \<open>
  C10. Refinement: every sequence of calls of the sequential manager is a run of the concurrent
  one, after which no call is under way, both store sessions under the same keys, count the
  same, and have refused equally many creations.
\<close>

theorem sequential_is_a_run:
  "\<exists>t. mgr_reaches False n race_init t \<and> quiet t \<and>
     dom (r_map t) = dom (m_sessions (foldl call_step (NewUDPSessionManager n) cs)) \<and>
     r_count t = Count (foldl call_step (NewUDPSessionManager n) cs) \<and>
     count (r_creators t) CRefused = refusals (NewUDPSessionManager n) cs"
  using calls_refine [OF sim_init, of n cs]
  by (auto simp: sim_def Count_def NewUDPSessionManager_def race_init_def)

end
