(* ===== verification/Udp_Chain.thy ===== *)
theory Udp_Chain
  imports Udp_Runs
begin

text \<open>
  Gateways in a row: what a gateway writes for a direct client is a frame that another
  gateway, which trusts the first, reads as the client's address and hands on unchanged.
\<close>

section \<open>Direct headers have a frame\<close>

lemma is_v4_wire: "is_v4 p \<Longrightarrow> \<exists>b. To4 p = Some b"
  by (auto simp: is_v4_def)

lemma is_v6_wire: "is_v6 p \<Longrightarrow> To4 p = None \<and> (\<exists>b. To16 p = Some b)"
  by (auto simp: is_v6_def)

text \<open>
  The frame of a client's own addresses: an IPv4 client always has one, with the destination
  0.0.0.0 behind an IPv6 listener, and an IPv6 client has one behind an IPv6 listener.
\<close>

definition direct_frame_header :: "ip \<Rightarrow> int \<Rightarrow> ip \<Rightarrow> int \<Rightarrow> Header" where
  "direct_frame_header ip port lip lport =
     (if is_v4 ip
      then mk_header FamilyUDP4 (ip_bytes (To4 ip)) (case To4 lip of Some b \<Rightarrow> b | None \<Rightarrow> [0, 0, 0, 0])
             (word_of_int port) (word_of_int lport)
      else mk_header FamilyUDP6 (ip_bytes (To16 ip)) (ip_bytes (To16 lip))
             (word_of_int port) (word_of_int lport))"

lemma direct_canonical:
  assumes "is_v4 ip \<or> is_v6 ip \<and> is_v6 lip"
  shows "canonical (HeaderFromAddrs (UDPAddr ip port z) (UDPAddr lip lport lz)) =
           Some (direct_frame_header ip port lip lport)"
proof (cases "is_v4 ip")
  case True
  then obtain b where b: "To4 ip = Some b" by (auto simp: is_v4_def)
  then have "To4 (Some b) = Some b" using To4_idem by auto
  moreover have "To4 (Some d) = Some d" if "To4 lip = Some d" for d using that To4_idem by auto
  ultimately show ?thesis
    using True b
    by (cases "To4 lip")
      (auto simp: canonical_iff wire_ip_def direct_frame_header_def is_v4_def)
next
  case False
  with assms have "is_v6 ip" "is_v6 lip" by auto
  then obtain b d where "To4 ip = None" "To16 ip = Some b" "To4 lip = None" "To16 lip = Some d"
    by (auto simp: is_v6_def)
  with False show ?thesis
    by (simp add: canonical_iff wire_ip_def direct_frame_header_def)
qed

section \<open>What one datagram writes\<close>

text \<open>Without a cap a peer always has a session to write on.\<close>

lemma uncapped_session:
  assumes "mgr_ok m" and "m_max m \<le> 0" and "ue_dial_err env = None"
  obtains m1 eff s where
    "obtain_session g env m (keyFromUDPAddr q) q (lookup_session m (keyFromUDPAddr q)) = (m1, eff, Some s)"
    and "us_key s = keyFromUDPAddr q"
    and "m_sessions m (keyFromUDPAddr q) = Some s \<or>
         m_sessions m (keyFromUDPAddr q) = None \<and> us_inputSource s = None"
proof (cases "m_sessions m (keyFromUDPAddr q)")
  case None
  with obtain_new [OF assms(1) None assms(3)] assms(1,2) that show ?thesis
    by (fastforce simp: lookup_ok newSession_def)
next
  case (Some s)
  with obtain_existing that assms(1) show ?thesis
    by (fastforce simp: lookup_ok mgr_ok_def)
qed

section \<open>The two hops\<close>

text \<open>A gateway in the mode that puts a header on every datagram, over its own codec.\<close>

definition every_header :: "UDPGateway \<Rightarrow> bool" where
  "every_header g \<longleftrightarrow> ug_outputMode g = OutputEveryDatagram \<and> ug_reader g = ParseDatagram \<and>
                   gop_v2_spec (ug_format g)"

lemma max_kept: "mgr_ok m \<Longrightarrow> m_max (fst (handleDatagram g env m data q)) = m_max m"
  using handleDatagram_ok [of m g env data q] by simp

lemma admitted_written:
  assumes "every_header g" and "mgr_ok m" and "m_max m \<le> 0" and "ue_dial_err env = None"
    and "admitted g m data q = Some (h, x, p)" and "canonical h = Some c"
  shows "writes_of (keyFromUDPAddr q) (snd (handleDatagram g env m data q)) = [v2_frame c [] @ p]"
    and "x = SourceDirect \<Longrightarrow> \<forall>s. m_sessions m (keyFromUDPAddr q) = Some s \<longrightarrow> us_inputSource s = None \<Longrightarrow>
         m_sessions (fst (handleDatagram g env m data q)) (keyFromUDPAddr q) = Some s' \<Longrightarrow>
         us_inputSource s' = None"
proof -
  obtain m1 eff s where o: "obtain_session g env m (keyFromUDPAddr q) q
      (lookup_session m (keyFromUDPAddr q)) = (m1, eff, Some s)" and key: "us_key s = keyFromUDPAddr q"
    and s: "m_sessions m (keyFromUDPAddr q) = Some s \<or>
         m_sessions m (keyFromUDPAddr q) = None \<and> us_inputSource s = None"
    using assms(2-4) by (rule uncapped_session)
  note on = handleDatagram_on_session [OF assms(5,2) o, of "keyFromUDPAddr q"]
  have frame: "FormatDatagram (ug_format g) h p = Inr (v2_frame c [] @ p)"
    using Format_canonical [OF _ assms(6)] assms(1) by (simp add: every_header_def)
  show "writes_of (keyFromUDPAddr q) (snd (handleDatagram g env m data q)) = [v2_frame c [] @ p]"
    using on key frame assms(1) by (simp add: emit_writes every_header_def)
  assume "x = SourceDirect" "\<forall>s. m_sessions m (keyFromUDPAddr q) = Some s \<longrightarrow> us_inputSource s = None"
    "m_sessions (fst (handleDatagram g env m data q)) (keyFromUDPAddr q) = Some s'"
  with on s key emit_session [of g env m1 s h x p] frame assms(1) show "us_inputSource s' = None"
    by (auto simp: encode_output_def every_header_def persist_source_def refresh_def)
qed

lemma direct_admitted:
  assumes "every_header g" and "ug_policy g \<noteq> PolicyRequire" and "mgr_ok m"
    and "\<forall>s. m_sessions m (keyFromUDPAddr q) = Some s \<longrightarrow> us_inputSource s = None"
    and "ParseDatagram raw = Inr (zero_header, raw, SourceDirect)"
  shows "admitted g m raw q = Some (HeaderFromConn (peer_addrs g q), SourceDirect, raw)"
  using assms
  by (cases "m_sessions m (keyFromUDPAddr q)")
    (auto simp: admitted_def every_header_def decide_datagram_def recover_source_def lookup_ok decide_defs)

lemma relayed_admitted:
  assumes "every_header g" and "ug_policy g \<noteq> PolicyReject"
    and "IsTrusted (ug_trust g) (RemoteIP (peer_addrs g q))" and "ParseDatagram raw = Inr (c, p, SourceV2)"
  shows "admitted g m raw q = Some (c, SourceV2, p)"
  using assms decide_trusted [OF assms(3,2)]
  by (auto simp: admitted_def every_header_def decide_datagram_def recover_source_def Let_def
      split: option.splits)

lemma client_run:
  assumes "every_header g" and "ug_policy g \<noteq> PolicyRequire"
    and "canonical (HeaderFromConn (peer_addrs g client)) = Some c" and "n \<le> 0"
    and "\<forall>(env, raw, q) \<in> set ds. keyFromUDPAddr q = keyFromUDPAddr client \<longrightarrow>
           q = client \<and> receive g raw = Some raw \<and>
           ParseDatagram raw = Inr (zero_header, raw, SourceDirect) \<and> ue_dial_err env = None"
  shows "writes_of (keyFromUDPAddr client) (snd (serve_datagrams g (NewUDPSessionManager n) ds)) =
         [v2_frame c [] @ raw. (env, raw, q) \<leftarrow> ds, keyFromUDPAddr q = keyFromUDPAddr client]"
proof (rule steady_run [OF mgr_ok_new _ _ _ assms(5)])
  let ?k = "keyFromUDPAddr client"
  let ?keeps = "\<lambda>m. m_max m \<le> 0 \<and> (\<forall>s. m_sessions m ?k = Some s \<longrightarrow> us_inputSource s = None)"
  show "?keeps (NewUDPSessionManager n)" using assms(4) by (simp add: NewUDPSessionManager_def)
  show "?keeps (fst (handleDatagram g env m raw client)) \<and>
        writes_of ?k (snd (handleDatagram g env m raw client)) = [v2_frame c [] @ raw]"
    if "mgr_ok m" "?keeps m"
      "ParseDatagram raw = Inr (zero_header, raw, SourceDirect) \<and> ue_dial_err env = None" for m env raw
  proof -
    have adm: "admitted g m raw client = Some (HeaderFromConn (peer_addrs g client), SourceDirect, raw)"
      using direct_admitted [OF assms(1,2) that(1)] that(2,3) by simp
    show ?thesis
      using admitted_written [OF assms(1) that(1) _ _ adm assms(3), of env] max_kept [OF that(1)] that(2,3)
      by auto
  qed
  show "?keeps (fst (handleDatagram g env m raw q))"
    if "mgr_ok m" "?keeps m" "keyFromUDPAddr q \<noteq> ?k" for m env raw q
    using handleDatagram_other [OF that(1), of ?k q g env raw] that max_kept [OF that(1)] by simp
qed

lemma relay_run:
  assumes "every_header g" and "ug_policy g \<noteq> PolicyReject"
    and "IsTrusted (ug_trust g) (RemoteIP (peer_addrs g sock))" and "n \<le> 0"
    and "\<forall>(env, raw, q) \<in> set ds. keyFromUDPAddr q = keyFromUDPAddr sock \<longrightarrow>
           q = sock \<and> receive g raw = Some raw \<and>
           raw \<in> {v2_frame c [] @ p | c p. canonical c = Some c} \<and> ue_dial_err env = None"
  shows "writes_of (keyFromUDPAddr sock) (snd (serve_datagrams g (NewUDPSessionManager n) ds)) =
         [raw. (env, raw, q) \<leftarrow> ds, keyFromUDPAddr q = keyFromUDPAddr sock]"
proof (rule steady_run [OF mgr_ok_new _ _ _ assms(5), where out = "\<lambda>raw. raw"])
  show "m_max (NewUDPSessionManager n) \<le> 0" using assms(4) by (simp add: NewUDPSessionManager_def)
  show "m_max (fst (handleDatagram g env m raw sock)) \<le> 0 \<and>
        writes_of (keyFromUDPAddr sock) (snd (handleDatagram g env m raw sock)) = [raw]"
    if "mgr_ok m" "m_max m \<le> 0"
      "raw \<in> {v2_frame c [] @ p | c p. canonical c = Some c} \<and> ue_dial_err env = None" for m env raw
  proof -
    from that(3) obtain c p where raw: "raw = v2_frame c [] @ p" and c: "canonical c = Some c"
      and env: "ue_dial_err env = None" by blast
    have adm: "admitted g m raw sock = Some (c, SourceV2, p)"
      using relayed_admitted [OF assms(1-3)] parse_canonical [OF c] raw by blast
    show ?thesis
      using admitted_written(1) [OF assms(1) that(1,2) env adm c] max_kept [OF that(1)] that(2) raw by simp
  qed
  show "m_max (fst (handleDatagram g env m raw q)) \<le> 0" if "mgr_ok m" "m_max m \<le> 0" for m env raw q
    using max_kept [OF that(1)] that(2) by simp
qed

text \<open>
  C12. Two gateways in a row name the client. Gateway A takes headerless datagrams from a client,
  any others in between; gateway B, which trusts A's socket, receives from it a selection of
  what A wrote for that client, in any order and with repetitions, as UDP delivers it, and
  anything from others in between. Then A writes one frame per datagram that its reader parses
  to the client's address and that payload, and B writes exactly what it received: its upstream
  sees the client's datagrams under the client's own address.
\<close>

theorem two_hops_name_the_client:
  assumes A: "every_header gA" "ug_policy gA \<noteq> PolicyRequire" "nA \<le> 0" "ug_localAddr gA = UDPAddr lip lport lz"
    and B: "every_header gB" "ug_policy gB \<noteq> PolicyReject" "nB \<le> 0"
      "IsTrusted (ug_trust gB) (RemoteIP (peer_addrs gB sock))"
    and client: "client = UDPAddr ip port z" "is_v4 ip \<or> is_v6 ip \<and> is_v6 lip"
    and sent: "\<forall>(env, raw, q) \<in> set dsA. keyFromUDPAddr q = keyFromUDPAddr client \<longrightarrow>
       q = client \<and> receive gA raw = Some raw \<and> ParseDatagram raw = Inr (zero_header, raw, SourceDirect) \<and>
       ue_dial_err env = None"
    and outA: "outA = writes_of (keyFromUDPAddr client) (snd (serve_datagrams gA (NewUDPSessionManager nA) dsA))"
    and between: "\<forall>(env, raw, q) \<in> set dsB. keyFromUDPAddr q = keyFromUDPAddr sock \<longrightarrow>
       q = sock \<and> receive gB raw = Some raw \<and> raw \<in> set outA \<and> ue_dial_err env = None"
    and outB: "outB = writes_of (keyFromUDPAddr sock) (snd (serve_datagrams gB (NewUDPSessionManager nB) dsB))"
  shows "map ParseDatagram outA = [Inr (direct_frame_header ip port lip lport, raw, SourceV2).
              (env, raw, q) \<leftarrow> dsA, keyFromUDPAddr q = keyFromUDPAddr client] \<and>
         outB = [raw. (env, raw, q) \<leftarrow> dsB, keyFromUDPAddr q = keyFromUDPAddr sock] \<and>
         (\<forall>b \<in> set outB. \<exists>env p. (env, p, client) \<in> set dsA \<and>
            ParseDatagram b = Inr (direct_frame_header ip port lip lport, p, SourceV2))"
proof -
  let ?c = "direct_frame_header ip port lip lport"
  have c: "canonical (HeaderFromConn (peer_addrs gA client)) = Some ?c"
    using direct_canonical [OF client(2)] client(1) A(4)
    by (simp add: HeaderFromConn_def peer_addrs_def)
  have A_out: "outA = [v2_frame ?c [] @ raw. (env, raw, q) \<leftarrow> dsA, keyFromUDPAddr q = keyFromUDPAddr client]"
    unfolding outA using sent by (intro client_run [OF A(1,2) c A(3)]) simp
  then have frames: "\<exists>env p. (env, p, client) \<in> set dsA \<and> b = v2_frame ?c [] @ p" if "b \<in> set outA" for b
    using that sent by fastforce
  then have B_out: "outB = [raw. (env, raw, q) \<leftarrow> dsB, keyFromUDPAddr q = keyFromUDPAddr sock]"
    unfolding outB using between canonical_idem [OF c] by (intro relay_run [OF B(1,2,4,3)]) blast
  have "map ParseDatagram outA = [Inr (?c, raw, SourceV2).
              (env, raw, q) \<leftarrow> dsA, keyFromUDPAddr q = keyFromUDPAddr client]"
    unfolding A_out by (induction dsA) (auto simp: parse_canonical [OF c])
  moreover have "\<exists>env p. (env, p, client) \<in> set dsA \<and> ParseDatagram b = Inr (?c, p, SourceV2)"
    if "b \<in> set outB" for b
  proof -
    have "b \<in> set outA" using that between unfolding B_out by auto
    with frames parse_canonical [OF c] show ?thesis by blast
  qed
  ultimately show ?thesis using B_out by blast
qed

text \<open>Two datagrams of a client, another client's between them, arriving swapped and repeated.\<close>

definition hop_socket :: net_addr where
  "hop_socket = UDPAddr (Some [10, 0, 0, 9]) 40000 []"

definition hop_frame :: "bytes \<Rightarrow> bytes" where
  "hop_frame p = v2_frame (direct_frame_header (Some [10, 0, 0, 7]) 5353 (Some [0, 0, 0, 0]) 53) [] @ p"

definition first_hop :: "(udp_env \<times> bytes \<times> net_addr) list" where
  "first_hop = [(quiet_env, [1, 2, 3], client1), (quiet_env, [7], UDPAddr (Some [10, 0, 0, 8]) 99 []),
                (quiet_env, [4], client1)]"

definition second_hop :: "(udp_env \<times> bytes \<times> net_addr) list" where
  "second_hop = map (\<lambda>p. (quiet_env, hop_frame p, hop_socket)) [[4], [1, 2, 3], [4]]"

lemma hop_socket_trusted: "IsTrusted (Some net10) (RemoteIP (peer_addrs g hop_socket))"
  by (simp add: IsTrusted_def net10_def hop_socket_def peer_addrs_def RemoteIP_def Contains_def
      networkNumberAndMask_def Let_def)

lemma short_received: "length raw \<le> 65535 \<Longrightarrow> receive (ref_gateway mode t) raw = Some raw"
  using receive_whole [of "ref_gateway mode t"] by simp

lemma hop_frame_short: "length (hop_frame p) = 28 + length p"
  by (simp add: hop_frame_def v2_frame_def direct_frame_header_def addr_block_def)

theorem two_hops_name_the_client_witness:
  "map ParseDatagram (writes_of (keyFromUDPAddr client1)
       (snd (serve_datagrams (ref_gateway OutputEveryDatagram None) (NewUDPSessionManager 0) first_hop))) =
     [Inr (direct_frame_header (Some [10, 0, 0, 7]) 5353 (Some [0, 0, 0, 0]) 53, [1, 2, 3], SourceV2),
      Inr (direct_frame_header (Some [10, 0, 0, 7]) 5353 (Some [0, 0, 0, 0]) 53, [4], SourceV2)] \<and>
   writes_of (keyFromUDPAddr hop_socket)
       (snd (serve_datagrams (ref_gateway OutputEveryDatagram (Some net10)) (NewUDPSessionManager 0) second_hop)) =
     map hop_frame [[4], [1, 2, 3], [4]]"
proof -
  let ?gA = "ref_gateway OutputEveryDatagram None" and ?gB = "ref_gateway OutputEveryDatagram (Some net10)"
  let ?out = "writes_of (keyFromUDPAddr client1) (snd (serve_datagrams ?gA (NewUDPSessionManager 0) first_hop))"
  have every: "every_header (ref_gateway OutputEveryDatagram t)" for t
    by (simp add: every_header_def ref_format_spec)
  have pols: "ug_policy ?gA \<noteq> PolicyRequire" "ug_policy ?gB \<noteq> PolicyReject" by simp_all
  have own: "keyFromUDPAddr (UDPAddr (Some [10, 0, 0, 8]) 99 []) \<noteq> keyFromUDPAddr client1"
    by (simp add: keyFromUDPAddr_def client1_def To16_def)
  have sent: "\<forall>(env, raw, q) \<in> set first_hop. keyFromUDPAddr q = keyFromUDPAddr client1 \<longrightarrow>
      q = client1 \<and> receive ?gA raw = Some raw \<and> ParseDatagram raw = Inr (zero_header, raw, SourceDirect) \<and>
      ue_dial_err env = None"
    using own by (simp add: first_hop_def quiet_env_def short_received ParseDatagram_def)
  have v4: "is_v4 (Some [10, 0, 0, 7]) \<or> is_v6 (Some [10, 0, 0, 7]) \<and> is_v6 (Some [0, 0, 0, 0])" by simp
  have "canonical (HeaderFromConn (peer_addrs ?gA client1)) =
      Some (direct_frame_header (Some [10, 0, 0, 7]) 5353 (Some [0, 0, 0, 0]) 53)"
    using direct_canonical [OF v4] by (simp add: HeaderFromConn_def peer_addrs_def client1_def)
  from client_run [OF every pols(1) this, of 0 first_hop] sent own
  have out: "?out = map hop_frame [[1, 2, 3], [4]]"
    by (simp add: first_hop_def hop_frame_def)
  have between: "\<forall>(env, raw, q) \<in> set second_hop. keyFromUDPAddr q = keyFromUDPAddr hop_socket \<longrightarrow>
      q = hop_socket \<and> receive ?gB raw = Some raw \<and> raw \<in> set ?out \<and> ue_dial_err env = None"
    unfolding out by (simp add: second_hop_def quiet_env_def short_received hop_frame_short)
  show ?thesis
    using two_hops_name_the_client [OF every pols(1) _ _ every pols(2) _ _ _ v4 sent refl between refl,
        of 53 "[]" 0 5353 "[]"] hop_socket_trusted own
    by (simp add: first_hop_def second_hop_def client1_def)
qed

end
