(* ===== verification/Udp_Replies.thy ===== *)
theory Udp_Replies
  imports Udp_Chain
begin

text \<open>
  The way back: whose socket the responses of the upstream go to. The table is followed through
  any history of datagrams and expiries, so that sessions come, go and come again under the
  same key; what the reader goroutine of a stored session then sends is theory Udp_Session.
\<close>

section \<open>Histories of the table\<close>

datatype table_event = Arrives udp_env bytes net_addr | Expires sessionKey

fun apply_event :: "UDPGateway \<Rightarrow> table_event \<Rightarrow> Manager \<Rightarrow> Manager" where
  "apply_event g (Arrives env raw peer) m = fst (serve_datagrams g m [(env, raw, peer)])"
| "apply_event g (Expires k) m = expire_key k m"

definition table_after :: "UDPGateway \<Rightarrow> int \<Rightarrow> table_event list \<Rightarrow> Manager" where
  "table_after g n es = fold (apply_event g) es (NewUDPSessionManager n)"

lemma apply_arrives:
  "apply_event g (Arrives env raw peer) m =
     (case receive g raw of None \<Rightarrow> m | Some data \<Rightarrow> fst (handleDatagram g env m data peer))"
  by (auto simp: serve_datagrams.simps split: option.splits prod.splits)

section \<open>The client of a session\<close>

text \<open>Every stored session answers to a socket of the set under its own key.\<close>

definition clients_ok :: "net_addr set \<Rightarrow> Manager \<Rightarrow> bool" where
  "clients_ok A m \<longleftrightarrow>
     (\<forall>k s. m_sessions m k = Some s \<longrightarrow> us_client s \<in> A \<and> keyFromUDPAddr (us_client s) = k)"

lemma clients_okD:
  "clients_ok A m \<Longrightarrow> m_sessions m k = Some s \<Longrightarrow> us_client s \<in> A \<and> keyFromUDPAddr (us_client s) = k"
  by (simp add: clients_ok_def)

lemma Create_client:
  assumes "Create m key c d = (m', r)" and "m_sessions m' k = Some s"
  shows "m_sessions m k = Some s \<or> us_client s = c \<and> k = key"
  using assms by (auto simp: Create_def newSession_def Let_def split: if_splits option.splits)

lemma obtain_session_client:
  assumes "obtain_session g env m key peer sess = (m', eff, so)" and "m_sessions m' k = Some s"
  shows "m_sessions m k = Some s \<or> us_client s = peer \<and> k = key"
  using assms Create_client [of m key peer "ug_idleTimeout g" m' _ k s]
  by (auto simp: obtain_session_def Let_def
      split: option.splits sum.splits prod.splits manager_error.splits if_splits)

lemma handleDatagram_clients:
  assumes "mgr_ok m" and "clients_ok A m" and "peer \<in> A"
  shows "clients_ok A (fst (handleDatagram g env m data peer))"
proof (cases "admitted g m data peer")
  case None
  with handleDatagram_dropped [OF None, of env] assms(2) show ?thesis by simp
next
  case (Some r)
  let ?k = "keyFromUDPAddr peer"
  let ?o = "obtain_session g env m ?k peer (lookup_session m ?k)"
  obtain h x p where r: "r = (h, x, p)" by (cases r)
  note adm = Some [unfolded r]
  obtain m1 eff so where o: "?o = (m1, eff, so)" by (cases ?o) auto
  have m1: "clients_ok A m1"
    unfolding clients_ok_def
    using obtain_session_client [OF o] clients_okD [OF assms(2)] assms(3) by metis
  show ?thesis
  proof (cases so)
    case None
    with handleDatagram_admitted [OF adm, of env] o m1 show ?thesis by auto
  next
    case s: (Some s)
    note so = obtain_session_key [OF o [unfolded s] assms(1)]
    obtain s' out where e: "emit g env m1 s h x p = (put_session m1 s', out)"
      and s': "us_key s' = us_key s" "us_client s' = us_client s"
      using emit_manager [of g env m1 s h x p] by (metis prod.collapse)
    have "fst (handleDatagram g env m data peer) = put_session m1 s'"
      using handleDatagram_admitted [OF adm, of env] o s e by auto
    then show ?thesis
      using m1 so s' by (auto simp: clients_ok_def put_session_def)
  qed
qed

lemma table_event_ok:
  assumes "mgr_ok m \<and> clients_ok A m" and "\<And>env raw peer. e = Arrives env raw peer \<Longrightarrow> peer \<in> A"
  shows "mgr_ok (apply_event g e m) \<and> clients_ok A (apply_event g e m)"
proof (cases e)
  case (Arrives env raw peer)
  with assms show ?thesis
    using handleDatagram_ok handleDatagram_clients
    by (auto simp: apply_arrives simp del: apply_event.simps split: option.splits)
next
  case (Expires k)
  with assms expire_key_removes [of m k] show ?thesis by (simp add: clients_ok_def)
qed

lemma table_after_ok:
  "mgr_ok (table_after g n es) \<and>
   clients_ok {peer. \<exists>env raw. Arrives env raw peer \<in> set es} (table_after g n es)"
proof -
  let ?A = "{peer. \<exists>env raw. Arrives env raw peer \<in> set es}"
  have "mgr_ok (fold (apply_event g) fs m) \<and> clients_ok ?A (fold (apply_event g) fs m)"
    if "mgr_ok m \<and> clients_ok ?A m" and "set fs \<subseteq> set es" for fs m
    using that
  proof (induction fs arbitrary: m)
    case (Cons f fs)
    have "mgr_ok (apply_event g f m) \<and> clients_ok ?A (apply_event g f m)"
      by (rule table_event_ok [OF Cons.prems(1)]) (use Cons.prems(2) in auto)
    with Cons.IH Cons.prems(2) show ?case by simp
  qed simp
  moreover have "clients_ok ?A (NewUDPSessionManager n)"
    by (simp add: clients_ok_def NewUDPSessionManager_def)
  ultimately show ?thesis using mgr_ok_new by (simp add: table_after_def)
qed

section \<open>Responses\<close>

text \<open>
  C32. Responses go back to the client that opened the session: after any history of datagrams
  and expiries, what the reader of the session stored under a key sends, it sends to one socket,
  which is that of a datagram received earlier under this very key, even when sessions were
  expired and created again in between. It sends there exactly the datagrams received before
  the session expires or the upstream fails, unchanged and in order, whether the writes succeed
  or not; it reports the expiry at most once, and after that it sends at most the one datagram
  it had already read. It returns only from an expired session.
\<close>

theorem responses_return:
  assumes "m_sessions (table_after g n history) k = Some s" and "readLoop s es = (s', out, returned)"
  shows "(\<exists>peer env raw. Arrives env raw peer \<in> set history \<and> keyFromUDPAddr peer = k \<and>
            to_client out = map (Pair peer) (received_prefix es)) \<and>
         (case after_expiry out of
            None \<Rightarrow> \<not> returned
          | Some later \<Rightarrow> after_expiry later = None \<and> length (to_client later) \<le> 1) \<and>
         (us_done s' \<longleftrightarrow> after_expiry out \<noteq> None)"
proof -
  have ok: "mgr_ok (table_after g n history)"
    and client: "\<exists>env raw. Arrives env raw (us_client s) \<in> set history"
      "keyFromUDPAddr (us_client s) = k"
    using table_after_ok [of g n history] clients_okD [OF _ assms(1)] by blast+
  from ok assms(1) have "session_ok s" "\<not> us_done s" by (auto simp: mgr_ok_def)
  from readLoop_forwards [OF this assms(2)] client show ?thesis by blast
qed

text \<open>A client whose session expired sends again and gets the new session's response.\<close>

definition returning_client :: "table_event list" where
  "returning_client =
     [Arrives quiet_env [1, 2, 3] client1, Expires (keyFromUDPAddr client1),
      Arrives quiet_env [1, 2, 3] client1]"

lemma expire_key_max [simp]: "m_max (expire_key k m) = m_max m"
  by (simp add: expire_key_def expire_def remove_def split: option.splits)

lemma plain_opens_session:
  assumes "mgr_ok m" and "m_max m \<le> 0" and "m_sessions m (keyFromUDPAddr client1) = None"
  shows "m_sessions (apply_event (ref_gateway OutputEveryDatagram None)
           (Arrives quiet_env [1, 2, 3] client1) m) (keyFromUDPAddr client1) \<noteq> None"
proof -
  let ?g = "ref_gateway OutputEveryDatagram None"
  have "ue_dial_err quiet_env = None" by (simp add: quiet_env_def)
  from uncapped_session [OF assms(1,2) this] obtain m1 eff s where o: "obtain_session ?g quiet_env m (keyFromUDPAddr client1) client1
      (lookup_session m (keyFromUDPAddr client1)) = (m1, eff, Some s)"
    by metis
  have "\<exists>h x p. admitted ?g m [1, 2, 3] client1 = Some (h, x, p)"
    by (simp add: admitted_def parse_plain decide_datagram_def lookup_ok [OF assms(1)] assms(3)
        recover_source_def decide_defs)
  then obtain h x p where a: "admitted ?g m [1, 2, 3] client1 = Some (h, x, p)" by blast
  obtain s' where "fst (emit ?g quiet_env m1 s h x p) = put_session m1 s'" "us_key s' = us_key s"
    using emit_manager [of ?g quiet_env m1 s h x p] by blast
  moreover have "us_key s = keyFromUDPAddr client1" using obtain_session_key [OF o assms(1)] by blast
  moreover have "receive ?g [1, 2, 3] = Some [1, 2, 3]" by (simp add: receive_whole)
  ultimately show ?thesis
    using handleDatagram_on_session [OF a assms(1) o]
    by (simp add: apply_arrives put_session_def del: apply_event.simps)
qed

lemma returning_client_stored:
  "\<exists>s. m_sessions (table_after (ref_gateway OutputEveryDatagram None) 0 returning_client)
         (keyFromUDPAddr client1) = Some s"
proof -
  let ?g = "ref_gateway OutputEveryDatagram None" and ?k = "keyFromUDPAddr client1"
  let ?m1 = "apply_event ?g (Arrives quiet_env [1, 2, 3] client1) (NewUDPSessionManager 0)"
  have "mgr_ok ?m1 \<and> m_max ?m1 \<le> 0"
    using handleDatagram_ok [OF mgr_ok_new [of 0]] mgr_ok_new [of 0]
    by (simp add: apply_arrives NewUDPSessionManager_def del: apply_event.simps split: option.splits)
  then have "mgr_ok (expire_key ?k ?m1) \<and> m_max (expire_key ?k ?m1) \<le> 0 \<and>
      m_sessions (expire_key ?k ?m1) ?k = None"
    using expire_key_removes [of ?m1 ?k] by simp
  with plain_opens_session show ?thesis
    by (auto simp: table_after_def returning_client_def simp del: apply_event.simps(1))
qed

theorem responses_return_witness:
  "\<exists>s. m_sessions (table_after (ref_gateway OutputEveryDatagram None) 0 returning_client)
          (keyFromUDPAddr client1) = Some s \<and>
       to_client (fst (snd (readLoop s
         [Received [4, 5] None False, Received [6] (Some ''refused'') True, Received [7] None False]))) =
         [(client1, [4, 5]), (client1, [6])]"
proof -
  let ?es = "[Received [4, 5] None False, Received [6] (Some ''refused'') True, Received [7] None False]"
  obtain s where s: "m_sessions (table_after (ref_gateway OutputEveryDatagram None) 0 returning_client)
      (keyFromUDPAddr client1) = Some s" using returning_client_stored by blast
  obtain s' out ret where "readLoop s ?es = (s', out, ret)" by (cases "readLoop s ?es") auto
  with responses_return [OF s this] s show ?thesis by (auto simp: returning_client_def)
qed

end
