(* ===== verification/Pipe.thy ===== *)
theory Pipe
  imports Tcp_Gateway
begin

text \<open>
  \<open>internal/gateway/pipe.go\<close>: the two copying goroutines of \<open>pipeStream\<close>. What each does is a
  list of effects; a run of the pipe is any interleaving of the two lists.
\<close>

section \<open>One direction\<close>

datatype side = Client | Upstream

text \<open>
  What one \<open>Read\<close> returns to \<open>io.Copy\<close>: bytes, or the end of the stream with the last bytes
  read, an error other than \<open>io.EOF\<close> among them when the read deadline passes.
\<close>

datatype read_result = Chunk bytes | Eof bytes | ReadErr bytes string

datatype pipe_effect =
    Deadline side duration        \<comment> \<open>\<open>SetReadDeadline(now + timeout)\<close>\<close>
  | ReadFrom side
  | WriteTo side bytes
  | PipeError side string         \<comment> \<open>the debug line, for the direction reading from this side\<close>
  | CloseWrite side

text \<open>The capabilities found by type assertion on a connection.\<close>

record conn_caps =
  has_deadline :: bool
  has_closeWrite :: bool

text \<open>\<open>deadlineReader.Read\<close>, or the plain reader when it is not installed.\<close>

definition read_effects :: "duration \<Rightarrow> conn_caps \<Rightarrow> side \<Rightarrow> pipe_effect list" where
  "read_effects idle caps src =
     (if idle > 0 \<and> has_deadline caps then [Deadline src idle, ReadFrom src] else [ReadFrom src])"

text \<open>
  \<open>io.Copy\<close>: each chunk read, unless it is empty, is written before the next read; it ends at the end of the
  stream, with a read error, or with the first write error. \<open>wr\<close> answers each write. The
  list of reads that runs out is a read that still blocks.
\<close>

fun copy_loop ::
    "duration \<Rightarrow> conn_caps \<Rightarrow> side \<Rightarrow> side \<Rightarrow> (bytes \<Rightarrow> string option) \<Rightarrow> read_result list \<Rightarrow>
     pipe_effect list \<times> bool" where
  "copy_loop idle caps src dst wr [] = (read_effects idle caps src, False)"
| "copy_loop idle caps src dst wr (Chunk bs # rs) =
     (case (if bs = [] then None else wr bs) of
        Some e \<Rightarrow> (read_effects idle caps src @ [WriteTo dst bs, PipeError src e], True)
      | None \<Rightarrow>
          let (out, ended) = copy_loop idle caps src dst wr rs
          in (read_effects idle caps src @ (if bs = [] then [] else [WriteTo dst bs]) @ out, ended))"
| "copy_loop idle caps src dst wr (Eof bs # rs) =
     (read_effects idle caps src @
        (if bs = [] then [] else WriteTo dst bs # (case wr bs of None \<Rightarrow> [] | Some e \<Rightarrow> [PipeError src e])),
      True)"
| "copy_loop idle caps src dst wr (ReadErr bs e # rs) =
     (read_effects idle caps src @
        (if bs = [] then [PipeError src e]
         else [WriteTo dst bs, PipeError src (case wr bs of None \<Rightarrow> e | Some e' \<Rightarrow> e')]),
      True)"

text \<open>
  One goroutine: the deadline capability is that of the side read from, the half-close that
  of the side written to. The flag says whether the goroutine has returned.
\<close>

definition pipe_direction ::
    "duration \<Rightarrow> (side \<Rightarrow> conn_caps) \<Rightarrow> side \<Rightarrow> side \<Rightarrow> (bytes \<Rightarrow> string option) \<Rightarrow>
     read_result list \<Rightarrow> pipe_effect list \<times> bool" where
  "pipe_direction idle caps src dst wr rs =
     (let (out, ended) = copy_loop idle (caps src) src dst wr rs
      in (out @ (if ended \<and> has_closeWrite (caps dst) then [CloseWrite dst] else []), ended))"

text \<open>\<open>pipeStream\<close>: it returns when both directions have.\<close>

definition pipeStream ::
    "duration \<Rightarrow> (side \<Rightarrow> conn_caps) \<Rightarrow> (side \<Rightarrow> bytes \<Rightarrow> string option) \<Rightarrow>
     (side \<Rightarrow> read_result list) \<Rightarrow> pipe_effect list set \<times> bool" where
  "pipeStream idle caps wr rs =
     (let (up, e1) = pipe_direction idle caps Client Upstream (wr Upstream) (rs Client);
          (down, e2) = pipe_direction idle caps Upstream Client (wr Client) (rs Upstream)
      in (shuffles up down, e1 \<and> e2))"

section \<open>What a direction delivers\<close>

fun read_bytes :: "read_result \<Rightarrow> bytes" where
  "read_bytes (Chunk bs) = bs"
| "read_bytes (Eof bs) = bs"
| "read_bytes (ReadErr bs e) = bs"

text \<open>The bytes of the stream: those read up to its end.\<close>

fun stream_bytes :: "read_result list \<Rightarrow> bytes" where
  "stream_bytes [] = []"
| "stream_bytes (Chunk bs # rs) = bs @ stream_bytes rs"
| "stream_bytes (r # rs) = read_bytes r"

fun delivered :: "side \<Rightarrow> pipe_effect list \<Rightarrow> bytes" where
  "delivered d [] = []"
| "delivered d (WriteTo d' bs # es) = (if d' = d then bs else []) @ delivered d es"
| "delivered d (e # es) = delivered d es"

text \<open>The direction an effect belongs to: the side it reads from.\<close>

fun reads_from :: "pipe_effect \<Rightarrow> side" where
  "reads_from (Deadline s t) = s"
| "reads_from (ReadFrom s) = s"
| "reads_from (WriteTo d bs) = (if d = Upstream then Client else Upstream)"
| "reads_from (PipeError s e) = s"
| "reads_from (CloseWrite d) = (if d = Upstream then Client else Upstream)"

lemma delivered_append [simp]: "delivered d (xs @ ys) = delivered d xs @ delivered d ys"
proof (induction xs)
  case (Cons x xs)
  then show ?case by (cases x) auto
qed simp

lemma delivered_read [simp]: "delivered d (read_effects idle caps src) = []"
  by (simp add: read_effects_def)

lemma copy_loop_prefix:
  "\<exists>rest. stream_bytes rs = delivered dst (fst (copy_loop idle caps src dst wr rs)) @ rest"
proof (induction idle caps src dst wr rs rule: copy_loop.induct)
  case (2 idle caps src dst wr bs rs)
  then show ?case
    by (cases "wr bs") (auto split: prod.splits)
qed (auto split: option.splits)

lemma copy_loop_complete:
  "(\<And>bs. wr bs = None) \<Longrightarrow>
   delivered dst (fst (copy_loop idle caps src dst wr rs)) = stream_bytes rs"
  by (induction rs rule: stream_bytes.induct) (auto split: prod.splits read_result.splits)

lemma copy_loop_side:
  "\<forall>e \<in> set (fst (copy_loop idle caps src dst wr rs)).
     e = Deadline src idle \<or> e = ReadFrom src \<or> (\<exists>bs. e = WriteTo dst bs) \<or> (\<exists>m. e = PipeError src m)"
proof (induction idle caps src dst wr rs rule: copy_loop.induct)
  case (2 idle caps src dst wr bs rs)
  then show ?case
    by (cases "wr bs") (auto simp: read_effects_def split: prod.splits)
qed (auto simp: read_effects_def split: option.splits)

lemma direction_side:
  assumes "src = Client \<and> dst = Upstream \<or> src = Upstream \<and> dst = Client"
    and "e \<in> set (fst (pipe_direction idle caps src dst wr rs))"
  shows "reads_from e = src"
proof -
  have "e \<in> set (fst (copy_loop idle (caps src) src dst wr rs)) \<or> e = CloseWrite dst"
    using assms(2) by (auto simp: pipe_direction_def split: prod.splits if_splits)
  then consider "e = Deadline src idle" | "e = ReadFrom src" | bs where "e = WriteTo dst bs"
    | m where "e = PipeError src m" | "e = CloseWrite dst"
    using copy_loop_side [of idle "caps src" src dst wr rs] by blast
  then show ?thesis using assms(1) by cases auto
qed

text \<open>In any interleaving each direction's effects are its own, in order.\<close>

lemma shuffles_filter:
  assumes "zs \<in> shuffles xs ys" and "\<forall>x \<in> set xs. P x" and "\<forall>y \<in> set ys. \<not> P y"
  shows "filter P zs = xs \<and> filter (\<lambda>z. \<not> P z) zs = ys"
  using assms
proof (induction xs ys arbitrary: zs rule: shuffles.induct)
  case (3 x xs y ys)
  from 3(3) obtain zs' where "zs = x # zs' \<and> zs' \<in> shuffles xs (y # ys) \<or>
      zs = y # zs' \<and> zs' \<in> shuffles (x # xs) ys"
    by auto
  with 3 show ?case by auto
qed auto

lemma pipe_split:
  assumes "zs \<in> fst (pipeStream idle caps wr rs)"
  shows "filter (\<lambda>e. reads_from e = Client) zs =
           fst (pipe_direction idle caps Client Upstream (wr Upstream) (rs Client)) \<and>
         filter (\<lambda>e. reads_from e = Upstream) zs =
           fst (pipe_direction idle caps Upstream Client (wr Client) (rs Upstream))"
proof -
  let ?up = "fst (pipe_direction idle caps Client Upstream (wr Upstream) (rs Client))"
  let ?down = "fst (pipe_direction idle caps Upstream Client (wr Client) (rs Upstream))"
  have "zs \<in> shuffles ?up ?down" using assms by (simp add: pipeStream_def split: prod.splits)
  moreover have "\<forall>e \<in> set ?up. reads_from e = Client"
    using direction_side [of Client Upstream] by blast
  moreover have "\<forall>e \<in> set ?down. reads_from e \<noteq> Client"
    using direction_side [of Upstream Client] by (metis side.distinct(1))
  ultimately have "filter (\<lambda>e. reads_from e = Client) zs = ?up \<and>
      filter (\<lambda>e. reads_from e \<noteq> Client) zs = ?down"
    by (rule shuffles_filter)
  moreover have "(\<lambda>e. reads_from e \<noteq> Client) = (\<lambda>e. reads_from e = Upstream)"
    by (rule ext) (metis side.exhaust side.distinct(1))
  ultimately show ?thesis by simp
qed

lemma delivered_filter:
  "delivered d (filter (\<lambda>e. reads_from e = (if d = Upstream then Client else Upstream)) zs) = delivered d zs"
proof (induction zs)
  case (Cons z zs)
  then show ?case by (cases z; cases d) auto
qed simp

lemma delivered_pipe:
  assumes "zs \<in> fst (pipeStream idle caps wr rs)"
  shows "delivered Upstream zs = delivered Upstream (fst (copy_loop idle (caps Client) Client Upstream
            (wr Upstream) (rs Client))) \<and>
         delivered Client zs = delivered Client (fst (copy_loop idle (caps Upstream) Upstream Client
            (wr Client) (rs Upstream)))"
  using pipe_split [OF assms] delivered_filter [of Upstream zs] delivered_filter [of Client zs]
  by (simp add: pipe_direction_def split: prod.splits if_splits)

text \<open>
  Whatever the interleaving, each side is sent a prefix of what the other side sent, never
  reordered or invented, and all of it when no write fails; neither direction affects what
  the other delivers.
\<close>

theorem pipe_delivers:
  assumes "zs \<in> fst (pipeStream idle caps wr rs)"
  shows "(\<exists>rest. stream_bytes (rs Client) = delivered Upstream zs @ rest) \<and>
         (\<exists>rest. stream_bytes (rs Upstream) = delivered Client zs @ rest) \<and>
         ((\<forall>bs. wr Upstream bs = None) \<longrightarrow> delivered Upstream zs = stream_bytes (rs Client)) \<and>
         ((\<forall>bs. wr Client bs = None) \<longrightarrow> delivered Client zs = stream_bytes (rs Upstream))"
  using delivered_pipe [OF assms] copy_loop_complete copy_loop_prefix by simp

text \<open>After the write side is closed nothing more is written there.\<close>

definition closes_last :: "side \<Rightarrow> pipe_effect list \<Rightarrow> bool" where
  "closes_last d es \<longleftrightarrow>
     (\<forall>xs ys. es = xs @ CloseWrite d # ys \<longrightarrow>
        CloseWrite d \<notin> set xs \<and> (\<forall>bs. WriteTo d bs \<notin> set ys) \<and> CloseWrite d \<notin> set ys)"

lemma direction_closes_last: "closes_last dst (fst (pipe_direction idle caps src dst wr rs))"
proof -
  obtain out ended where c: "copy_loop idle (caps src) src dst wr rs = (out, ended)" by fastforce
  have "CloseWrite dst \<notin> set out"
    using copy_loop_side [of idle "caps src" src dst wr rs] by (auto simp: c)
  then show ?thesis
    by (auto simp: closes_last_def pipe_direction_def c append_eq_append_conv2 append_eq_Cons_conv
        Cons_eq_append_conv split: if_splits)
qed

lemma closes_last_filter:
  assumes "closes_last d (filter P zs)" and "P (CloseWrite d)" and "\<And>bs. P (WriteTo d bs)"
  shows "closes_last d zs"
  unfolding closes_last_def
proof (intro allI impI)
  fix xs ys assume zs: "zs = xs @ CloseWrite d # ys"
  then have "filter P zs = filter P xs @ CloseWrite d # filter P ys" using assms(2) by simp
  with assms(1) have "CloseWrite d \<notin> set (filter P xs)" "CloseWrite d \<notin> set (filter P ys)"
    "\<And>bs. WriteTo d bs \<notin> set (filter P ys)"
    unfolding closes_last_def by blast+
  with assms(2,3) show "CloseWrite d \<notin> set xs \<and> (\<forall>bs. WriteTo d bs \<notin> set ys) \<and> CloseWrite d \<notin> set ys"
    by simp
qed

lemma closes_iff:
  "CloseWrite dst \<in> set (fst (pipe_direction idle caps src dst wr rs)) \<longleftrightarrow>
   snd (pipe_direction idle caps src dst wr rs) \<and> has_closeWrite (caps dst)"
  using copy_loop_side [of idle "caps src" src dst wr rs]
  by (auto simp: pipe_direction_def split: prod.splits)

text \<open>
  C30. Half-close: whatever the interleaving, the write side of a connection that can be
  half-closed is closed exactly once, exactly when the direction that writes to it has ended,
  and after its last byte; a connection without half-close is never half-closed. The pipe
  returns when both directions have ended.
\<close>

theorem pipe_half_close:
  assumes "zs \<in> fst (pipeStream idle caps wr rs)"
  defines "ended \<equiv> \<lambda>d. snd (copy_loop idle (caps (if d = Upstream then Client else Upstream))
                (if d = Upstream then Client else Upstream) d (wr d)
                (rs (if d = Upstream then Client else Upstream)))"
  shows "(CloseWrite d \<in> set zs \<longleftrightarrow> ended d \<and> has_closeWrite (caps d)) \<and>
         closes_last d zs \<and>
         (snd (pipeStream idle caps wr rs) \<longleftrightarrow> ended Upstream \<and> ended Client)"
proof -
  let ?src = "if d = Upstream then Client else Upstream"
  let ?P = "\<lambda>e. reads_from e = ?src"
  have f: "filter ?P zs = fst (pipe_direction idle caps ?src d (wr d) (rs ?src))"
    using pipe_split [OF assms(1)] by (cases d) auto
  have "CloseWrite d \<in> set zs \<longleftrightarrow> CloseWrite d \<in> set (filter ?P zs)" by simp
  also have "\<dots> \<longleftrightarrow> ended d \<and> has_closeWrite (caps d)"
    unfolding f closes_iff by (simp add: ended_def pipe_direction_def split: prod.splits)
  finally have "CloseWrite d \<in> set zs \<longleftrightarrow> ended d \<and> has_closeWrite (caps d)" .
  moreover have "closes_last d zs"
    by (rule closes_last_filter [of d ?P]) (simp_all add: f direction_closes_last)
  moreover have "snd (pipeStream idle caps wr rs) \<longleftrightarrow> ended Upstream \<and> ended Client"
    by (simp add: pipeStream_def pipe_direction_def ended_def split: prod.splits)
  ultimately show ?thesis by blast
qed

text \<open>Every read of the side is immediately preceded by renewing its deadline.\<close>

definition renewed :: "side \<Rightarrow> duration \<Rightarrow> pipe_effect list \<Rightarrow> bool" where
  "renewed src idle es \<longleftrightarrow>
     (\<forall>xs ys. es = xs @ ReadFrom src # ys \<longrightarrow> (\<exists>xs'. xs = xs' @ [Deadline src idle]))"

lemma renewed_append:
  assumes "renewed src idle as" and "renewed src idle bs"
  shows "renewed src idle (as @ bs)"
  unfolding renewed_def
proof (intro allI impI)
  fix xs ys assume "as @ bs = xs @ ReadFrom src # ys"
  then obtain us where "as = xs @ us \<and> us @ bs = ReadFrom src # ys \<or>
      as @ us = xs \<and> bs = us @ ReadFrom src # ys"
    unfolding append_eq_append_conv2 by blast
  then consider (left) us' where "as = xs @ ReadFrom src # us'"
    | (right) us where "xs = as @ us" "bs = us @ ReadFrom src # ys"
    by (auto simp: append_eq_Cons_conv)
  then show "\<exists>xs'. xs = xs' @ [Deadline src idle]"
  proof cases
    case left
    then show ?thesis using assms(1) unfolding renewed_def by blast
  next
    case right
    then obtain xs' where "us = xs' @ [Deadline src idle]"
      using assms(2) unfolding renewed_def by blast
    with right show ?thesis by simp
  qed
qed

lemma renewed_read: "renewed src idle [Deadline src idle, ReadFrom src]"
  by (auto simp: renewed_def Cons_eq_append_conv)

lemma renewed_no_read: "ReadFrom src \<notin> set es \<Longrightarrow> renewed src idle es"
  by (auto simp: renewed_def)

lemma renewed_head:
  "ReadFrom src \<notin> set t \<Longrightarrow> renewed src idle (Deadline src idle # ReadFrom src # t)"
  using renewed_append [OF renewed_read renewed_no_read, of src t idle] by simp

lemma copy_loop_renewed:
  "idle > 0 \<Longrightarrow> has_deadline cap \<Longrightarrow> renewed src idle (fst (copy_loop idle cap src dst wr rs))"
proof (induction idle cap src dst wr rs rule: copy_loop.induct)
  case (1 idle caps src dst wr)
  then show ?case by (simp add: read_effects_def renewed_read)
next
  case (2 idle caps src dst wr bs rs)
  show ?case
  proof (cases "if bs = [] then None else wr bs")
    case None
    with 2 have "renewed src idle ([Deadline src idle, ReadFrom src] @
        (if bs = [] then [] else [WriteTo dst bs]) @ fst (copy_loop idle caps src dst wr rs))"
      by (intro renewed_append [OF renewed_read] renewed_append [OF renewed_no_read]) simp_all
    with None 2(2,3) show ?thesis by (auto simp: read_effects_def split: prod.splits)
  next
    case (Some e)
    with 2(2,3) show ?thesis by (simp add: read_effects_def renewed_head split: if_splits)
  qed
qed (auto simp: read_effects_def intro: renewed_head split: option.splits)

lemma copy_loop_unarmed:
  "Deadline s t \<in> set (fst (copy_loop idle cap src dst wr rs)) \<Longrightarrow>
   s = src \<and> t = idle \<and> idle > 0 \<and> has_deadline cap"
proof (induction idle cap src dst wr rs rule: copy_loop.induct)
  case (2 idle caps src dst wr bs rs)
  then show ?case
    by (cases "wr bs") (auto simp: read_effects_def split: prod.splits if_splits)
qed (auto simp: read_effects_def split: if_splits option.splits)

lemma direction_renewed:
  "idle > 0 \<Longrightarrow> has_deadline (caps src) \<Longrightarrow>
   renewed src idle (fst (pipe_direction idle caps src dst wr rs))"
proof -
  assume on: "idle > 0" "has_deadline (caps src)"
  obtain out e where c: "copy_loop idle (caps src) src dst wr rs = (out, e)" by fastforce
  from copy_loop_renewed [OF on, of src dst wr rs] have "renewed src idle out" by (simp add: c)
  then show ?thesis
    using renewed_append [OF _ renewed_no_read, of src idle out "[CloseWrite dst]"]
    by (simp add: pipe_direction_def c)
qed

lemma direction_unarmed:
  "Deadline s t \<in> set (fst (pipe_direction idle caps src dst wr rs)) \<Longrightarrow>
   s = src \<and> t = idle \<and> idle > 0 \<and> has_deadline (caps src)"
  using copy_loop_unarmed [of s t idle "caps src" src dst wr rs]
  by (auto simp: pipe_direction_def split: prod.splits if_splits)

text \<open>
  Idle timeout: when it is on, each direction renews the deadline of the connection it
  reads, and no other, immediately before every one of its reads; when it is off, or the
  connection has no deadlines, none is set. Activity in one direction never extends the
  other's deadline.
\<close>

theorem pipe_deadlines:
  assumes "zs \<in> fst (pipeStream idle caps wr rs)"
  shows "(idle > 0 \<and> has_deadline (caps d) \<longrightarrow>
            renewed d idle (filter (\<lambda>e. reads_from e = d) zs)) \<and>
         (Deadline d t \<in> set zs \<longrightarrow> t = idle \<and> idle > 0 \<and> has_deadline (caps d))"
proof -
  let ?other = "if d = Upstream then Client else Upstream"
  have f: "filter (\<lambda>e. reads_from e = d) zs =
      fst (pipe_direction idle caps d ?other (wr ?other) (rs d))"
    using pipe_split [OF assms] by (cases d) auto
  have "Deadline d t \<in> set zs \<longleftrightarrow> Deadline d t \<in> set (filter (\<lambda>e. reads_from e = d) zs)" by simp
  then show ?thesis
    unfolding f using direction_renewed direction_unarmed by blast
qed

section \<open>A connection, piped\<close>

definition tcp_caps :: "side \<Rightarrow> conn_caps" where
  "tcp_caps s = \<lparr>has_deadline = True, has_closeWrite = True\<rparr>"

definition echo_reads :: "side \<Rightarrow> read_result list" where
  "echo_reads s = (if s = Client then [Chunk [1, 2], Eof []] else [Chunk [7]])"

definition echo_run :: "pipe_effect list" where
  "echo_run =
     [Deadline Client 5, ReadFrom Client, Deadline Upstream 5, ReadFrom Upstream, WriteTo Client [7],
      WriteTo Upstream [1, 2], Deadline Upstream 5, ReadFrom Upstream, Deadline Client 5,
      ReadFrom Client, CloseWrite Upstream]"

lemma echo_run_possible: "echo_run \<in> fst (pipeStream 5 tcp_caps (\<lambda>s b. None) echo_reads)"
proof -
  have "fst (pipeStream 5 tcp_caps (\<lambda>s b. None) echo_reads) =
      shuffles (filter (\<lambda>e. reads_from e = Client) echo_run)
               (filter (\<lambda>e. reads_from e \<noteq> Client) echo_run)"
    by (simp add: echo_run_def pipeStream_def pipe_direction_def echo_reads_def tcp_caps_def
        read_effects_def Let_def del: shuffles.simps)
  then show ?thesis using partition_in_shuffles [of echo_run] by simp
qed

theorem pipe_delivers_witness:
  "delivered Upstream echo_run = [1, 2] \<and> delivered Client echo_run = [7]"
  using pipe_delivers [OF echo_run_possible] by (simp add: echo_reads_def)

theorem pipe_half_close_witness:
  "CloseWrite Upstream \<in> set echo_run \<and> closes_last Upstream echo_run \<and>
   CloseWrite Client \<notin> set echo_run"
  using pipe_half_close [OF echo_run_possible, of Upstream] pipe_half_close [OF echo_run_possible, of Client]
  by (simp add: echo_reads_def tcp_caps_def)

theorem pipe_deadlines_witness:
  "renewed Client 5 (filter (\<lambda>e. reads_from e = Client) echo_run)"
  using pipe_deadlines [OF echo_run_possible, of Client] by (simp add: tcp_caps_def)

end
