(* ===== verification/Tcp_Wire.thy ===== *)
theory Tcp_Wire
  imports Pipe Stream "HOL-Library.Sublist"
begin

text \<open>
  One TCP connection down to its bytes: the effects of \<open>handle\<close> (\<open>internal/gateway/gateway.go\<close>)
  with the header as the writer of \<open>goproxyproto/writer.go\<close> puts it on the wire and the call
  of \<open>pipeStream\<close> (\<open>pipe.go\<close>) replaced by its runs.
\<close>

section \<open>The connection and its surroundings\<close>

text \<open>
  What the outside does: the addresses of the client's socket, what go-proxyproto returns from
  it, the dial, the header's write with the bytes that reach the connection and its error, and,
  for the pipe, the capabilities of the two connections, the answers to the writes and what
  the reads return. The reads from the client are those of the buffered reader after the header.
\<close>

record tcp_world =
  tw_addrs :: AddrConn
  tw_read :: gop_read
  tw_dial_err :: "string option"
  tw_header :: "gop_header \<Rightarrow> bytes \<times> string option"
  tw_caps :: "side \<Rightarrow> conn_caps"
  tw_write :: "side \<Rightarrow> bytes \<Rightarrow> string option"
  tw_reads :: "side \<Rightarrow> read_result list"

text \<open>The reader and the writer a gateway is built with: the adapters for version \<open>v\<close>.\<close>

definition header_result :: "tcp_world \<Rightarrow> gop_header \<Rightarrow> string + bytes" where
  "header_result w gh = (case tw_header w gh of (bs, None) \<Rightarrow> Inr bs | (bs, Some e) \<Rightarrow> Inl e)"

definition adapted :: "nat \<Rightarrow> tcp_world \<Rightarrow> tcp_env" where
  "adapted v w =
     \<lparr>env_addrs = tw_addrs w, env_read = stream_Read (tw_read w), env_dial_err = tw_dial_err w,
      env_write_err = (\<lambda>h. case stream_WriteTo (header_result w) v h of Inl e \<Rightarrow> Some e | Inr bs \<Rightarrow> None)\<rparr>"

datatype wire_event = Handler tcp_effect | HeaderBytes bytes | Piped pipe_effect

text \<open>The effects carried out. What follows the pipe only happens when the pipe returns.\<close>

fun carried_out :: "nat \<Rightarrow> tcp_world \<Rightarrow> tcp_effect list \<Rightarrow> wire_event list set" where
  "carried_out v w [] = {[]}"
| "carried_out v w (WriteHeader h # es) =
     (\<lambda>rest. HeaderBytes (fst (tw_header w (stream_header v h))) # rest) ` carried_out v w es"
| "carried_out v w (Pipe t # es) =
     (case pipeStream t (tw_caps w) (tw_write w) (tw_reads w) of
        (zss, returned) \<Rightarrow>
          (\<lambda>(zs, rest). map Piped zs @ rest) ` (zss \<times> (if returned then carried_out v w es else {[]})))"
| "carried_out v w (e # es) = (\<lambda>rest. Handler e # rest) ` carried_out v w es"

definition connection :: "nat \<Rightarrow> Gateway \<Rightarrow> tcp_world \<Rightarrow> wire_event list set" where
  "connection v g w = carried_out v w (handle g (adapted v w))"

section \<open>Its bytes\<close>

fun bytes_up :: "wire_event list \<Rightarrow> bytes" where
  "bytes_up [] = []"
| "bytes_up (HeaderBytes bs # es) = bs @ bytes_up es"
| "bytes_up (Piped z # es) = delivered Upstream [z] @ bytes_up es"
| "bytes_up (Handler e # es) = bytes_up es"

fun bytes_down :: "wire_event list \<Rightarrow> bytes" where
  "bytes_down [] = []"
| "bytes_down (Piped z # es) = delivered Client [z] @ bytes_down es"
| "bytes_down (_ # es) = bytes_down es"

lemma bytes_up_append [simp]: "bytes_up (xs @ ys) = bytes_up xs @ bytes_up ys"
  by (induction xs rule: bytes_up.induct) simp_all

lemma bytes_down_append [simp]: "bytes_down (xs @ ys) = bytes_down xs @ bytes_down ys"
  by (induction xs rule: bytes_down.induct) simp_all

lemma handler_bytes [simp]: "bytes_up (map Handler es) = []" "bytes_down (map Handler es) = []"
  by (induction es) simp_all

lemma piped_upstream [simp]: "bytes_up (map Piped zs) = delivered Upstream zs"
proof (induction zs)
  case (Cons z zs)
  then show ?case by (cases z) simp_all
qed simp

lemma piped_client [simp]: "bytes_down (map Piped zs) = delivered Client zs"
proof (induction zs)
  case (Cons z zs)
  then show ?case by (cases z) simp_all
qed simp

section \<open>The runs of a connection\<close>

lemma carried_out_local:
  "list_all local_effect pre \<Longrightarrow>
   carried_out v w (pre @ es) = (\<lambda>rest. map Handler pre @ rest) ` carried_out v w es"
proof (induction pre)
  case (Cons e pre)
  then show ?case by (cases e) (auto simp: image_image)
qed simp

definition accepting :: "Gateway \<Rightarrow> tcp_effect list" where
  "accepting g = [Log LevelInfo ''accept'', Dial (g_upstream g)]"

lemma adapted_simps [simp]:
  "env_addrs (adapted v w) = tw_addrs w" "env_dial_err (adapted v w) = tw_dial_err w"
  "env_write_err (adapted v w) h = snd (tw_header w (stream_header v h))"
  by (simp_all add: adapted_def stream_WriteTo_def header_result_def split: prod.splits option.splits)

text \<open>Every run, by what the handler decided and what the dial and the header's write returned.\<close>

lemma connection_run:
  assumes "es \<in> connection v g w"
  obtains (nothing) pre where "outgoing g (adapted v w) = None"
      "list_all local_effect pre" "es = map Handler (pre @ [CloseClient])"
  | (undialled) h e pre where "outgoing g (adapted v w) = Some h" "tw_dial_err w = Some e"
      "list_all local_effect pre"
      "es = map Handler (pre @ accepting g @ [Log LevelWarn ''downstream dial failed'', CloseClient])"
  | (no_header) h bs e pre where "outgoing g (adapted v w) = Some h" "tw_dial_err w = None"
      "tw_header w (stream_header v h) = (bs, Some e)" "list_all local_effect pre"
      "es = map Handler (pre @ accepting g) @ HeaderBytes bs #
         map Handler [Log LevelError ''write header to downstream'', CloseUpstream, CloseClient]"
  | (piped) h bs zs pre where "outgoing g (adapted v w) = Some h" "tw_dial_err w = None"
      "tw_header w (stream_header v h) = (bs, None)" "list_all local_effect pre"
      "zs \<in> fst (pipeStream (g_pipeIdleTimeout g) (tw_caps w) (tw_write w) (tw_reads w))"
      "es = map Handler (pre @ accepting g) @ HeaderBytes bs # map Piped zs @
         (if snd (pipeStream (g_pipeIdleTimeout g) (tw_caps w) (tw_write w) (tw_reads w))
          then map Handler [CloseUpstream, CloseClient] else [])"
proof -
  obtain pre where loc: "list_all local_effect pre"
    and body: "handle_body g (adapted v w) =
      pre @ (case outgoing g (adapted v w) of None \<Rightarrow> [] | Some h \<Rightarrow> forward g (adapted v w) h)"
    using handle_body_split by blast
  show ?thesis
  proof (cases "outgoing g (adapted v w)")
    case None
    with assms loc have "es = map Handler (pre @ [CloseClient])"
      by (auto simp: connection_def handle_def body carried_out_local)
    with None loc show ?thesis by (rule nothing)
  next
    case (Some h)
    note run = assms [unfolded connection_def handle_def body Some option.case forward_def]
    show ?thesis
    proof (cases "tw_dial_err w")
      case (Some e)
      with run loc show ?thesis
        by (intro undialled [OF \<open>outgoing g (adapted v w) = Some h\<close> Some loc])
           (auto simp: carried_out_local accepting_def)
    next
      case None
      obtain bs r where hd: "tw_header w (stream_header v h) = (bs, r)" by fastforce
      show ?thesis
      proof (cases r)
        case (Some e)
        with run loc None hd show ?thesis
          by (intro no_header [OF \<open>outgoing g (adapted v w) = Some h\<close> None _ loc])
             (auto simp: carried_out_local accepting_def)
      next
        case r: None
        let ?p = "pipeStream (g_pipeIdleTimeout g) (tw_caps w) (tw_write w) (tw_reads w)"
        from run loc None hd r obtain zs where "zs \<in> fst ?p"
          "es = map Handler (pre @ accepting g) @ HeaderBytes bs # map Piped zs @
             (if snd ?p then map Handler [CloseUpstream, CloseClient] else [])"
          by (cases ?p) (auto simp: carried_out_local accepting_def split: if_splits)
        with \<open>outgoing g (adapted v w) = Some h\<close> None hd [unfolded r] loc show ?thesis
          by (intro piped)
      qed
    qed
  qed
qed

lemma copied:
  assumes "zs \<in> fst (pipeStream idle caps wr rs)"
  shows "prefix (delivered Upstream zs) (stream_bytes (rs Client))"
    and "prefix (delivered Client zs) (stream_bytes (rs Upstream))"
    and "\<forall>bs. wr Upstream bs = None \<Longrightarrow> delivered Upstream zs = stream_bytes (rs Client)"
    and "\<forall>bs. wr Client bs = None \<Longrightarrow> delivered Client zs = stream_bytes (rs Upstream)"
  using delivered_pipe [OF assms] copy_loop_prefix copy_loop_complete
  by (auto simp: prefix_def)

lemma unclosed:
  "list_all local_effect pre \<Longrightarrow> count_list (map Handler pre) (Handler CloseClient) = 0"
  "list_all local_effect pre \<Longrightarrow> count_list (map Handler pre) (Handler CloseUpstream) = 0"
  "count_list (map Piped zs) (Handler e) = 0"
  by (auto simp: count_list_0_iff list_all_iff)

section \<open>What reaches the two sides\<close>

text \<open>
  C7. From the decision to the bytes: a downstream that is dialled receives exactly the header
  decided on, in the configured version, and then, if the header was written completely, an
  initial part of what the client sent after its own header, in order; the client receives an
  initial part of what the downstream sent, all of both when no write fails. A connection that
  is refused, or whose header failed, carries no byte of the client further.
\<close>

theorem connection_bytes:
  assumes "es \<in> connection v g w"
  shows "case outgoing g (adapted v w) of
      None \<Rightarrow> bytes_up es = [] \<and> bytes_down es = []
    | Some h \<Rightarrow>
        if tw_dial_err w \<noteq> None then bytes_up es = [] \<and> bytes_down es = []
        else
          let (header, err) = tw_header w (stream_header v h) in
          if err \<noteq> None then bytes_up es = header \<and> bytes_down es = []
          else
            (\<exists>sent. bytes_up es = header @ sent \<and> prefix sent (stream_bytes (tw_reads w Client)) \<and>
               ((\<forall>bs. tw_write w Upstream bs = None) \<longrightarrow> sent = stream_bytes (tw_reads w Client))) \<and>
            prefix (bytes_down es) (stream_bytes (tw_reads w Upstream)) \<and>
            ((\<forall>bs. tw_write w Client bs = None) \<longrightarrow> bytes_down es = stream_bytes (tw_reads w Upstream))"
proof (rule connection_run [OF assms])
  fix h bs zs pre
  assume "outgoing g (adapted v w) = Some h" "tw_dial_err w = None"
    "tw_header w (stream_header v h) = (bs, None)" "list_all local_effect pre"
    and zs: "zs \<in> fst (pipeStream (g_pipeIdleTimeout g) (tw_caps w) (tw_write w) (tw_reads w))"
    and "es = map Handler (pre @ accepting g) @ HeaderBytes bs # map Piped zs @
      (if snd (pipeStream (g_pipeIdleTimeout g) (tw_caps w) (tw_write w) (tw_reads w))
       then map Handler [CloseUpstream, CloseClient] else [])"
  with copied [OF zs] show ?thesis by (simp add: prefix_def del: map_append list.map)
qed (simp_all del: map_append list.map)

section \<open>The end of a connection\<close>

text \<open>A stream whose reads end: closed by its peer, failed, or past its deadline.\<close>

definition ends :: "read_result list \<Rightarrow> bool" where
  "ends rs \<longleftrightarrow> (\<exists>r \<in> set rs. case r of Chunk bs \<Rightarrow> False | _ \<Rightarrow> True)"

lemma copy_loop_ends: "ends rs \<Longrightarrow> snd (copy_loop idle caps src dst wr rs)"
  by (induction idle caps src dst wr rs rule: copy_loop.induct)
     (auto simp: ends_def split: option.split prod.split)

lemma pipe_returns: "ends (rs Client) \<Longrightarrow> ends (rs Upstream) \<Longrightarrow> snd (pipeStream idle caps wr rs)"
  using copy_loop_ends [of "rs Client" idle "caps Client" Client Upstream "wr Upstream"]
    copy_loop_ends [of "rs Upstream" idle "caps Upstream" Upstream Client "wr Client"]
  by (simp add: pipeStream_def pipe_direction_def case_prod_beta)

lemma returned_closes:
  assumes "zs \<in> fst (pipeStream idle caps wr rs)" and "snd (pipeStream idle caps wr rs)"
    and "has_closeWrite (caps d)"
  shows "CloseWrite d \<in> set zs"
proof -
  let ?src = "if d = Upstream then Client else Upstream"
  have "snd (pipe_direction idle caps ?src d (wr d) (rs ?src))"
    using assms(2) by (cases d) (auto simp: pipeStream_def case_prod_beta)
  then have "CloseWrite d \<in> set (fst (pipe_direction idle caps ?src d (wr d) (rs ?src)))"
    using assms(3) by (simp add: closes_iff)
  moreover have "filter (\<lambda>e. reads_from e = ?src) zs =
      fst (pipe_direction idle caps ?src d (wr d) (rs ?src))"
    using pipe_split [OF assms(1)] by (cases d) auto
  ultimately have "CloseWrite d \<in> set (filter (\<lambda>e. reads_from e = ?src) zs)" by simp
  then show ?thesis by simp
qed

text \<open>
  C8. A connection ends: once the streams of both sides have ended, however the copying was
  interleaved, the handler has closed the client as its last action and once, and before that,
  once, the downstream if it was dialled; until then it has closed neither. What was piped has
  by then been half-closed on both sides, and a connection that is not piped ends without
  waiting for anybody.
\<close>

theorem connection_ends:
  assumes "es \<in> connection v g w"
  defines "dialled \<equiv> outgoing g (adapted v w) \<noteq> None \<and> tw_dial_err w = None"
    and "closed \<equiv> \<lambda>e. count_list es (Handler e)"
  shows "if closed CloseClient = 0 then
           dialled \<and> closed CloseUpstream = 0 \<and> \<not> (ends (tw_reads w Client) \<and> ends (tw_reads w Upstream))
         else
           last es = Handler CloseClient \<and> closed CloseClient = 1 \<and>
           closed CloseUpstream = (if dialled then 1 else 0) \<and>
           (\<forall>h d. outgoing g (adapted v w) = Some h \<and> tw_dial_err w = None \<and>
              snd (tw_header w (stream_header v h)) = None \<and> has_closeWrite (tw_caps w d) \<longrightarrow>
              Piped (CloseWrite d) \<in> set es)"
proof (rule connection_run [OF assms(1)])
  fix h bs zs pre
  let ?p = "pipeStream (g_pipeIdleTimeout g) (tw_caps w) (tw_write w) (tw_reads w)"
  assume "outgoing g (adapted v w) = Some h" "tw_dial_err w = None"
    "list_all local_effect pre" and zs: "zs \<in> fst ?p"
    and "es = map Handler (pre @ accepting g) @ HeaderBytes bs # map Piped zs @
      (if snd ?p then map Handler [CloseUpstream, CloseClient] else [])"
  then show ?thesis
    using pipe_returns [of "tw_reads w" "g_pipeIdleTimeout g" "tw_caps w" "tw_write w"]
      returned_closes [OF zs]
    by (auto simp: assms(2,3) accepting_def unclosed)
qed (auto simp: assms(2,3) accepting_def unclosed)

section \<open>A connection, byte by byte\<close>

text \<open>
  A peer outside the trusted network sends a header and then data; the gateway strips the
  header. The library writes one byte that tells the two v2 forms apart.
\<close>

definition strip_world :: tcp_world where
  "strip_world =
     \<lparr>tw_addrs = peer_conn,
      tw_read = GopHeader 2 (Some ((Some [1, 2, 3, 4], 5), (Some [5, 6, 7, 8], 9))),
      tw_dial_err = None,
      tw_header = (\<lambda>gh. (case gh of GopProxyFromAddrs n s d \<Rightarrow> [2] | _ \<Rightarrow> [0], None)),
      tw_caps = tcp_caps, tw_write = (\<lambda>s bs. None), 
      tw_reads = (\<lambda>s. if s = Client then [Chunk [10, 11], Eof []] else [ReadErr [] ''i/o timeout''])\<rparr>"

definition strip_copied :: "pipe_effect list" where
  "strip_copied =
     [Deadline Client 300000000000, ReadFrom Client, WriteTo Upstream [10, 11],
       Deadline Client 300000000000, ReadFrom Client, CloseWrite Upstream,
       Deadline Upstream 300000000000, ReadFrom Upstream, PipeError Upstream ''i/o timeout'', CloseWrite Client]"

definition strip_run :: "wire_event list" where
  "strip_run =
     map Handler [SetReadDeadline (Some 1000000000), ReadHeader, SetReadDeadline None,
       Log LevelInfo ''stripped: untrusted source PROXY header'', Log LevelInfo ''accept'',
       Dial ''127.0.0.1:9001''] @
     HeaderBytes [2] #
     map Piped strip_copied @
     map Handler [CloseUpstream, CloseClient]"

lemma strip_decided:
  "Decide PolicyUse (Some net10) UntrustedStrip SourceV2 h (RemoteIP peer_conn) peer_conn =
     (HeaderFromConn peer_conn, SourceDirect, True, ''strip'')"
  using peer_conn_untrusted by (simp add: decide_defs)

lemma strip_family: "FamilyMatchesAddrs (HeaderFromConn peer_conn)"
  using peer_conn_header by (auto simp: peer_conn_def HeaderFromConn_def FamilyMatchesAddrs_simps)

lemma strip_world_simps [simp]:
  "tw_addrs strip_world = peer_conn" "tw_dial_err strip_world = None"
  "tw_caps strip_world = tcp_caps" "tw_write strip_world = (\<lambda>s bs. None)"
  "tw_reads strip_world Client = [Chunk [10, 11], Eof []]"
  "tw_reads strip_world Upstream = [ReadErr [] ''i/o timeout'']"
  by (simp_all add: strip_world_def)

lemma strip_read: "env_read (adapted 2 strip_world) = Inr (zero_header\<lparr>SrcIP := Some [1, 2, 3, 4],
    DstIP := Some [5, 6, 7, 8], SrcPort := 5, DstPort := 9, HFamily := FamilyTCP4\<rparr>, SourceV2)"
  by (simp add: adapted_def strip_world_def stream_Read_def To4_def)

lemma strip_outgoing: "outgoing strip_gateway (adapted 2 strip_world) = Some (HeaderFromConn peer_conn)"
  by (simp add: outgoing_def strip_read strip_gateway_def plain_gateway_def strip_decided strip_family)

lemma strip_bytes: "tw_header strip_world (stream_header 2 (HeaderFromConn peer_conn)) = ([2], None)"
  by (simp add: strip_world_def stream_header_def peer_conn_def HeaderFromConn_def)

lemma strip_handle: "handle strip_gateway (adapted 2 strip_world) =
     [SetReadDeadline (Some 1000000000), ReadHeader, SetReadDeadline None,
       Log LevelInfo ''stripped: untrusted source PROXY header'', Log LevelInfo ''accept'',
       Dial ''127.0.0.1:9001'', WriteHeader (HeaderFromConn peer_conn), Pipe 300000000000,
       CloseUpstream, CloseClient]"
  by (simp add: handle_defs strip_read strip_gateway_def plain_gateway_def strip_decided strip_family strip_bytes)

lemma strip_piped:
  "pipeStream 300000000000 tcp_caps (\<lambda>s bs. None) (tw_reads strip_world) =
     (shuffles (filter (\<lambda>e. reads_from e = Client) strip_copied)
               (filter (\<lambda>e. reads_from e \<noteq> Client) strip_copied), True)"
  by (simp add: strip_copied_def pipeStream_def pipe_direction_def tcp_caps_def read_effects_def Let_def
      del: shuffles.simps)

lemma strip_run_possible: "strip_run \<in> connection 2 strip_gateway strip_world"
proof -
  have "strip_copied \<in> fst (pipeStream 300000000000 tcp_caps (\<lambda>s bs. None) (tw_reads strip_world))"
    using partition_in_shuffles [of strip_copied "\<lambda>e. reads_from e = Client"]
    by (simp add: strip_piped del: shuffles.simps)
  then show ?thesis
    by (simp add: connection_def strip_handle strip_bytes strip_run_def strip_piped image_image
        image_iff bexI [of _ strip_copied] del: shuffles.simps)
qed

theorem connection_bytes_witness: "bytes_up strip_run = [2, 10, 11]"
  using connection_bytes [OF strip_run_possible] by (simp add: strip_outgoing strip_bytes)

theorem connection_ends_witness:
  "last strip_run = Handler CloseClient \<and> count_list strip_run (Handler CloseUpstream) = 1"
  using connection_ends [OF strip_run_possible] by (simp add: strip_outgoing strip_run_def strip_copied_def)

end
