(* ===== verification/Go_Std.thy ===== *)
theory Go_Std
  imports Go_ParseIP
begin

text \<open>
  The parts of Go's standard library that the configuration uses: \<open>strconv.Atoi\<close> and
  \<open>ParseInt\<close>, \<open>time.ParseDuration\<close>, \<open>strings.TrimSpace\<close> and \<open>Split\<close>, decimal printing,
  \<open>strconv.Quote\<close> on printable ASCII, and the flag parser of package \<open>flag\<close>.
\<close>

section \<open>Integers\<close>

definition digit_char :: "nat \<Rightarrow> char" where
  "digit_char d = char_of (48 + d)"

fun show_nat :: "nat \<Rightarrow> string" where
  "show_nat n = (if n < 10 then [digit_char n] else show_nat (n div 10) @ [digit_char (n mod 10)])"

declare show_nat.simps [simp del]

text \<open>The verb \<open>%d\<close>.\<close>

definition show_int :: "int \<Rightarrow> string" where
  "show_int i = (if i < 0 then CHR ''-'' # show_nat (nat (- i)) else show_nat (nat i))"

fun read_nat :: "string \<Rightarrow> nat \<Rightarrow> nat option" where
  "read_nat [] n = Some n"
| "read_nat (c # cs) n = (if is_digit c then read_nat cs (n * 10 + digit_val c) else None)"

definition in_int64 :: "int \<Rightarrow> bool" where
  "in_int64 i \<longleftrightarrow> - (2 ^ 63) \<le> i \<and> i < 2 ^ 63"

text \<open>The sign both integer parsers accept.\<close>

definition split_sign :: "string \<Rightarrow> bool \<times> string" where
  "split_sign s =
     (case s of
        [] \<Rightarrow> (False, [])
      | c # cs \<Rightarrow> if c = CHR ''-'' then (True, cs) else if c = CHR ''+'' then (False, cs) else (False, s))"

definition Atoi :: "string \<Rightarrow> int option" where
  "Atoi s =
     (let (neg, ds) = split_sign s in
      if ds = [] then None
      else case read_nat ds 0 of
             None \<Rightarrow> None
           | Some n \<Rightarrow>
               let i = (if neg then - int n else int n)
               in if in_int64 i then Some i else None)"

text \<open>\<open>ParseInt(s, 0, 64)\<close>: a base prefix and underscores between digits are allowed.\<close>

definition lower :: "char \<Rightarrow> char" where
  "lower c = (let n = of_char c :: nat in if 65 \<le> n \<and> n \<le> 90 then char_of (n + 32) else c)"

definition digit36 :: "char \<Rightarrow> nat option" where
  "digit36 c =
     (let n = of_char (lower c) :: nat in
      if 48 \<le> n \<and> n \<le> 57 then Some (n - 48)
      else if 97 \<le> n \<and> n \<le> 122 then Some (n - 87) else None)"

fun read_base :: "nat \<Rightarrow> string \<Rightarrow> nat \<Rightarrow> nat option" where
  "read_base b [] n = Some n"
| "read_base b (c # cs) n =
     (if c = CHR ''_'' then read_base b cs n
      else case digit36 c of
             None \<Rightarrow> None
           | Some d \<Rightarrow> if d \<ge> b then None else read_base b cs (n * b + d))"

text \<open>\<open>underscoreOK\<close> after the prefix; the first argument is whether the last character seen
  was a digit or the prefix (\<open>Some True\<close>), an underscore (\<open>Some False\<close>) or neither.\<close>

fun underscores_ok :: "bool option \<Rightarrow> bool \<Rightarrow> string \<Rightarrow> bool" where
  "underscores_ok saw hex [] \<longleftrightarrow> saw \<noteq> Some False"
| "underscores_ok saw hex (c # cs) \<longleftrightarrow>
     (if is_digit c \<or> hex \<and> hex_val c \<noteq> None then underscores_ok (Some True) hex cs
      else if c = CHR ''_'' then saw = Some True \<and> underscores_ok (Some False) hex cs
      else saw \<noteq> Some False \<and> underscores_ok None hex cs)"

definition base_prefix :: "string \<Rightarrow> nat \<times> string \<times> bool" where
  "base_prefix s =
     (case s of
        c # d # e # rest \<Rightarrow>
          if c \<noteq> CHR ''0'' then (10, s, False)
          else if lower d = CHR ''b'' then (2, e # rest, True)
          else if lower d = CHR ''o'' then (8, e # rest, True)
          else if lower d = CHR ''x'' then (16, e # rest, True)
          else (8, d # e # rest, False)
      | c # rest \<Rightarrow> if c \<noteq> CHR ''0'' then (10, s, False) else (8, rest, False)
      | [] \<Rightarrow> (10, s, False))"

definition ParseInt0 :: "string \<Rightarrow> int option" where
  "ParseInt0 s =
     (let (neg, t) = split_sign s in
      if t = [] then None
      else
        let (b, ds, prefixed) = base_prefix t in
        case read_base b ds 0 of
          None \<Rightarrow> None
        | Some n \<Rightarrow>
            let i = (if neg then - int n else int n);
                us = (if prefixed then underscores_ok (Some True) (b = 16) ds
                      else underscores_ok None False t)
            in if (CHR ''_'' \<in> set ds \<longrightarrow> us) \<and> in_int64 i then Some i else None)"

section \<open>Durations\<close>

text \<open>
  \<open>time.ParseDuration\<close>, in nanoseconds. The one floating-point expression of it, the
  nanoseconds of a fraction \<open>f / 10 ^ n\<close> of a unit, is the argument \<open>frac\<close>.
\<close>

type_synonym frac_fn = "nat \<Rightarrow> nat \<Rightarrow> nat \<Rightarrow> nat"

fun leading_int :: "string \<Rightarrow> nat \<Rightarrow> (nat \<times> string) option" where
  "leading_int [] x = Some (x, [])"
| "leading_int (c # cs) x =
     (if is_digit c
      then (let y = x * 10 + digit_val c in if y > 2 ^ 63 then None else leading_int cs y)
      else Some (x, c # cs))"

text \<open>\<open>leadingFraction\<close>: digits past the 63-bit range are skipped.\<close>

fun leading_fraction :: "string \<Rightarrow> nat \<Rightarrow> nat \<Rightarrow> bool \<Rightarrow> nat \<times> nat \<times> string" where
  "leading_fraction [] x n over = (x, n, [])"
| "leading_fraction (c # cs) x n over =
     (if is_digit c then
        (if over \<or> x > (2 ^ 63 - 1) div 10 \<or> x * 10 + digit_val c > 2 ^ 63
         then leading_fraction cs x n True
         else leading_fraction cs (x * 10 + digit_val c) (Suc n) False)
      else (x, n, c # cs))"

definition micro_units :: "string list" where
  "micro_units = [[char_of (0xC2::nat), char_of (0xB5::nat), CHR ''s''],
                  [char_of (0xCE::nat), char_of (0xBC::nat), CHR ''s'']]"

definition unit_ns :: "string \<Rightarrow> nat option" where
  "unit_ns u =
     (if u = ''ns'' then Some 1
      else if u = ''us'' \<or> u \<in> set micro_units then Some 1000
      else if u = ''ms'' then Some 1000000
      else if u = ''s'' then Some 1000000000
      else if u = ''m'' then Some 60000000000
      else if u = ''h'' then Some 3600000000000
      else None)"

definition unit_char :: "char \<Rightarrow> bool" where
  "unit_char c \<longleftrightarrow> c \<noteq> CHR ''.'' \<and> \<not> is_digit c"

text \<open>One number with its unit: its nanoseconds and the rest.\<close>

definition duration_item :: "frac_fn \<Rightarrow> string \<Rightarrow> (nat \<times> string) option" where
  "duration_item frac s =
     (case leading_int s 0 of
        None \<Rightarrow> None
      | Some (v, s1) \<Rightarrow>
          let pre = (length s1 \<noteq> length s);
              dot = (s1 \<noteq> [] \<and> hd s1 = CHR ''.'');
              (f, n, s2) = (if dot then leading_fraction (tl s1) 0 0 False else (0, 0, s1));
              post = (dot \<and> length s2 \<noteq> length (tl s1));
              u = takeWhile unit_char s2;
              s3 = dropWhile unit_char s2
          in if \<not> pre \<and> \<not> post then None
             else if u = [] then None
             else case unit_ns u of
                    None \<Rightarrow> None
                  | Some unit \<Rightarrow>
                      if v > 2 ^ 63 div unit then None
                      else
                        let w = v * unit + (if f > 0 then frac f unit n else 0)
                        in if w > 2 ^ 63 then None else Some (w, s3))"

lemma leading_int_shorter: "leading_int s x = Some (v, t) \<Longrightarrow> length t \<le> length s"
  by (induction s arbitrary: x) (auto simp: Let_def split: if_splits intro: le_SucI)

lemma leading_fraction_shorter: "leading_fraction s x n b = (f, k, t) \<Longrightarrow> length t \<le> length s"
  by (induction s arbitrary: x n b) (auto split: if_splits intro: le_SucI)

lemma duration_item_shorter:
  assumes "duration_item frac s = Some (w, t)"
  shows "length t < length s"
proof -
  obtain v s1 where i: "leading_int s 0 = Some (v, s1)"
    using assms by (auto simp: duration_item_def split: option.splits)
  let ?dot = "s1 \<noteq> [] \<and> hd s1 = CHR ''.''"
  obtain f n s2 where f: "(if ?dot then leading_fraction (tl s1) 0 0 False else (0, 0, s1)) = (f, n, s2)"
    by (cases "if ?dot then leading_fraction (tl s1) 0 0 False else (0, 0, s1)") auto
  have "length s2 \<le> length s1"
    using f leading_fraction_shorter [of "tl s1" 0 0 False f n s2] by (auto split: if_splits)
  moreover have "takeWhile unit_char s2 \<noteq> []" and "t = dropWhile unit_char s2"
    using assms i f by (auto simp: duration_item_def Let_def split: option.splits if_splits)
  then have "length t < length s2"
    using length_append [of "takeWhile unit_char s2" "dropWhile unit_char s2"] by simp
  ultimately show ?thesis using leading_int_shorter [OF i] by linarith
qed

function duration_loop :: "frac_fn \<Rightarrow> string \<Rightarrow> nat \<Rightarrow> nat option" where
  "duration_loop frac s d =
     (if s = [] then Some d
      else case duration_item frac s of
             None \<Rightarrow> None
           | Some (v, rest) \<Rightarrow>
               let d' = (d + v) mod 2 ^ 64
               in if d' > 2 ^ 63 then None else duration_loop frac rest d')"
  by auto
termination
  by (relation "measure (\<lambda>(frac, s, d). length s)") (auto simp: duration_item_shorter)

declare duration_loop.simps [simp del]

definition ParseDuration :: "frac_fn \<Rightarrow> string \<Rightarrow> duration option" where
  "ParseDuration frac s =
     (let (neg, t) = split_sign s in
      if t = ''0'' then Some 0
      else if t = [] then None
      else case duration_loop frac t 0 of
             None \<Rightarrow> None
           | Some d \<Rightarrow>
               if neg then Some (- int d)
               else if d > 2 ^ 63 - 1 then None else Some (int d))"

section \<open>Strings\<close>

fun split_on :: "char \<Rightarrow> string \<Rightarrow> string list" where
  "split_on c [] = [[]]"
| "split_on c (x # xs) =
     (if x = c then [] # split_on c xs
      else (case split_on c xs of [] \<Rightarrow> [[x]] | y # ys \<Rightarrow> (x # y) # ys))"

text \<open>The UTF-8 encodings of the characters \<open>unicode.IsSpace\<close> accepts.\<close>

definition utf8_3 :: "nat \<Rightarrow> string" where
  "utf8_3 n = [char_of (0xE0 + n div 4096), char_of (0x80 + (n div 64) mod 64), char_of (0x80 + n mod 64)]"

definition space_seqs :: "string list" where
  "space_seqs = map (\<lambda>n. [char_of (n :: nat)]) [9, 10, 11, 12, 13, 32]
     @ [[char_of (0xC2::nat), char_of (0x85::nat)], [char_of (0xC2::nat), char_of (0xA0::nat)]]
     @ map utf8_3 ([0x1680] @ [0x2000..<0x200B] @ [0x2028, 0x2029, 0x202F, 0x205F, 0x3000])"

fun trim_left :: "string list \<Rightarrow> nat \<Rightarrow> string \<Rightarrow> string" where
  "trim_left seqs 0 s = s"
| "trim_left seqs (Suc n) s =
     (case find (\<lambda>p. has_prefix s p) seqs of
        None \<Rightarrow> s
      | Some p \<Rightarrow> trim_left seqs n (drop (length p) s))"

text \<open>Every step of \<open>trim_left\<close> drops a character, so the length is fuel enough.\<close>

definition TrimSpace :: "string \<Rightarrow> string" where
  "TrimSpace s =
     (let t = trim_left space_seqs (length s) s
      in rev (trim_left (map rev space_seqs) (length t) (rev t)))"

text \<open>The verb \<open>%q\<close> on printable ASCII, where it escapes only the quote and the backslash.\<close>

definition printable :: "char \<Rightarrow> bool" where
  "printable c \<longleftrightarrow> 32 \<le> (of_char c :: nat) \<and> (of_char c :: nat) \<le> 126"

definition backslash :: char where
  "backslash = CHR 0x5C"

definition dquote :: char where
  "dquote = CHR 0x22"

definition squote :: char where
  "squote = CHR 0x27"

definition quote_ascii :: "string \<Rightarrow> string" where
  "quote_ascii s =
     dquote # concat (map (\<lambda>c. if c = dquote \<or> c = backslash then [backslash, c] else [c]) s) @ [dquote]"

section \<open>Flags\<close>

datatype flag_kind = KString | KDuration | KInt | KBool

datatype flag_err = FlagHelp | FlagErr string

record flag_values =
  fv_str :: "string \<rightharpoonup> string"
  fv_dur :: "string \<rightharpoonup> duration"
  fv_int :: "string \<rightharpoonup> int"
  fv_bool :: "string \<rightharpoonup> bool"

definition no_flags :: flag_values where
  "no_flags = \<lparr>fv_str = (\<lambda>_. None), fv_dur = (\<lambda>_. None), fv_int = (\<lambda>_. None),
               fv_bool = (\<lambda>_. None)\<rparr>"

text \<open>\<open>strconv.ParseBool\<close>, and \<open>flag.Value.Set\<close> for the four kinds.\<close>

definition ParseBool :: "string \<Rightarrow> bool option" where
  "ParseBool s =
     (if s \<in> {''1'', ''t'', ''T'', ''TRUE'', ''true'', ''True''} then Some True
      else if s \<in> {''0'', ''f'', ''F'', ''FALSE'', ''false'', ''False''} then Some False
      else None)"

definition flag_set :: "frac_fn \<Rightarrow> flag_kind \<Rightarrow> string \<Rightarrow> string \<Rightarrow> flag_values \<Rightarrow> flag_values option" where
  "flag_set frac k name v fv =
     (case k of
        KString \<Rightarrow> Some (fv\<lparr>fv_str := (fv_str fv)(name \<mapsto> v)\<rparr>)
      | KDuration \<Rightarrow>
          map_option (\<lambda>d. fv\<lparr>fv_dur := (fv_dur fv)(name \<mapsto> d)\<rparr>) (ParseDuration frac v)
      | KInt \<Rightarrow> map_option (\<lambda>i. fv\<lparr>fv_int := (fv_int fv)(name \<mapsto> i)\<rparr>) (ParseInt0 v)
      | KBool \<Rightarrow> map_option (\<lambda>b. fv\<lparr>fv_bool := (fv_bool fv)(name \<mapsto> b)\<rparr>) (ParseBool v))"

text \<open>The name and the value after \<open>=\<close>, if there is one; the first character is never \<open>=\<close>.\<close>

definition split_flag :: "string \<Rightarrow> string \<times> string option" where
  "split_flag name =
     (case cut_at (CHR ''='') (tl name) of
        None \<Rightarrow> (name, None)
      | Some (a, b) \<Rightarrow> (hd name # a, Some b))"

text \<open>The name of the flag an argument gives, as \<open>parseOne\<close> sees it.\<close>

datatype flag_arg = StopHere | StopAfter | BadSyntax | Named string

definition flag_arg :: "string \<Rightarrow> flag_arg" where
  "flag_arg s =
     (if length s < 2 \<or> hd s \<noteq> CHR ''-'' then StopHere
      else if s = ''--'' then StopAfter
      else
        let name = (if s ! 1 = CHR ''-'' then drop 2 s else drop 1 s)
        in if name = [] \<or> hd name = CHR ''-'' \<or> hd name = CHR ''='' then BadSyntax else Named name)"

text \<open>
  \<open>FlagSet.Parse\<close> stores values as it goes: \<open>flag_scan\<close> gives the flags set before the first
  error, and the error. A boolean flag takes no separate argument.
\<close>

fun flag_scan ::
    "frac_fn \<Rightarrow> (string \<rightharpoonup> flag_kind) \<Rightarrow> string list \<Rightarrow> flag_values \<Rightarrow> flag_values \<times> flag_err option" where
  "flag_scan frac formal [] fv = (fv, None)"
| "flag_scan frac formal (s # args) fv =
     (case flag_arg s of
        StopHere \<Rightarrow> (fv, None)
      | StopAfter \<Rightarrow> (fv, None)
      | BadSyntax \<Rightarrow> (fv, Some (FlagErr ''bad flag syntax''))
      | Named nv \<Rightarrow>
          (case split_flag nv of (name, val) \<Rightarrow>
            (case formal name of
               None \<Rightarrow>
                 (fv, Some (if name = ''help'' \<or> name = ''h'' then FlagHelp
                            else FlagErr ''flag provided but not defined''))
             | Some k \<Rightarrow>
                 if k = KBool then
                   (case flag_set frac k name (case val of None \<Rightarrow> ''true'' | Some v \<Rightarrow> v) fv of
                      None \<Rightarrow> (fv, Some (FlagErr ''invalid boolean value''))
                    | Some fv' \<Rightarrow> flag_scan frac formal args fv')
                 else
                 (case val of
                    Some v \<Rightarrow>
                      (case flag_set frac k name v fv of
                         None \<Rightarrow> (fv, Some (FlagErr ''invalid value''))
                       | Some fv' \<Rightarrow> flag_scan frac formal args fv')
                  | None \<Rightarrow>
                      (case args of
                         [] \<Rightarrow> (fv, Some (FlagErr ''flag needs an argument''))
                       | v # args' \<Rightarrow>
                           (case flag_set frac k name v fv of
                              None \<Rightarrow> (fv, Some (FlagErr ''invalid value''))
                            | Some fv' \<Rightarrow> flag_scan frac formal args' fv'))))))"

definition flag_Parse ::
    "frac_fn \<Rightarrow> (string \<rightharpoonup> flag_kind) \<Rightarrow> string list \<Rightarrow> flag_values \<Rightarrow> flag_err + flag_values" where
  "flag_Parse frac formal args fv =
     (case flag_scan frac formal args fv of (fv', None) \<Rightarrow> Inr fv' | (fv', Some e) \<Rightarrow> Inl e)"

declare flag_Parse_def [flag_eval] flag_arg_def [flag_eval] split_flag_def [flag_eval]
  flag_set_def [flag_eval] no_flags_def [flag_eval]

section \<open>Lemmas\<close>

lemma digit_char [simp]:
  assumes "d < 10"
  shows "is_digit (digit_char d)" and "digit_val (digit_char d) = d"
  using assms by (simp_all add: digit_char_def is_digit_def digit_val_def of_char_of)

lemma read_nat_append: "read_nat (xs @ ys) n = (case read_nat xs n of None \<Rightarrow> None | Some m \<Rightarrow> read_nat ys m)"
  by (induction xs arbitrary: n) auto

lemma read_show_nat: "read_nat (show_nat n) 0 = Some n"
proof (induction n rule: less_induct)
  case (less n)
  show ?case
  proof (cases "n < 10")
    case True
    then show ?thesis by (simp add: show_nat.simps [of n])
  next
    case False
    then have "read_nat (show_nat (n div 10)) 0 = Some (n div 10)" by (intro less) simp
    with False show ?thesis by (simp add: show_nat.simps [of n] read_nat_append)
  qed
qed

lemma show_nat_not_Nil [simp]: "show_nat n \<noteq> []"
  by (simp add: show_nat.simps [of n])

lemma show_nat_digits: "c \<in> set (show_nat n) \<Longrightarrow> is_digit c"
proof (induction n rule: less_induct)
  case (less n)
  show ?case
  proof (cases "n < 10")
    case True
    with less.prems show ?thesis by (auto simp: show_nat.simps [of n])
  next
    case False
    then have "c \<in> set (show_nat (n div 10)) \<or> c = digit_char (n mod 10)"
      using less.prems by (auto simp: show_nat.simps [of n])
    with less.IH [of "n div 10"] False show ?thesis by auto
  qed
qed

lemma hd_show_nat: "hd (show_nat n) \<noteq> CHR ''-'' \<and> hd (show_nat n) \<noteq> CHR ''+''"
proof -
  have "is_digit (hd (show_nat n))" using show_nat_digits [of _ n] by simp
  then show ?thesis by (auto simp: is_digit_def)
qed

text \<open>Decimal printing is read back.\<close>

lemma split_sign_show: "split_sign (show_int i) = (i < 0, show_nat (nat \<bar>i\<bar>))"
  using hd_show_nat [of "nat \<bar>i\<bar>"]
  by (cases "show_nat (nat \<bar>i\<bar>)") (auto simp: show_int_def split_sign_def)

lemma Atoi_show_int: "in_int64 i \<Longrightarrow> Atoi (show_int i) = Some i"
  by (simp add: Atoi_def split_sign_show read_show_nat Let_def)

lemma split_on_no_sep: "p \<in> set (split_on c s) \<Longrightarrow> c \<notin> set p"
  by (induction s arbitrary: p) (auto split: if_splits list.splits)

end
