(* ===== verification/Config.thy ===== *)
theory Config
  imports Trust Go_Std
begin

text \<open>
  \<open>internal/config/config.go\<close>, the data: the field registry, the configuration with its
  provenance, the defaults, validation, warnings and the startup dump. The sources that
  overlay it are in theory Config_Sources, the file and its migration in Config_File.
\<close>

section \<open>Fields and values\<close>

text \<open>
  One constructor per entry of \<open>configFields\<close>; \<open>fname\<close> is also the constant the sources
  pass to \<open>mark\<close>. The \<open>any\<close> of a field's value is one of four kinds. The registry's inline
  comments are documentation and are left out.
\<close>

datatype cval = VStr string | VDur duration | VInt int | VList "string list"

datatype field =
    FProtocol
  | FListen
  | FUpstream
  | FPolicy
  | FLang
  | FTrustedNetworks
  | FUntrustedProxyAction
  | FDetectTimeout
  | FTCPIdleTimeout
  | FTCPHeaderVersion
  | FTCPFamilyMismatch
  | FTCPMaxConnections
  | FIdleTimeout
  | FMaxSessions
  | FMaxDatagramSize
  | FUDPHeaderMode
  | FLogConsoleLevel
  | FLogConsoleFormat
  | FLogFilePath
  | FLogFileLevel
  | FLogFileFormat

fun fname :: "field \<Rightarrow> string" where
  "fname FProtocol = ''protocol''"
| "fname FListen = ''listen''"
| "fname FUpstream = ''upstream''"
| "fname FPolicy = ''policy''"
| "fname FLang = ''lang''"
| "fname FTrustedNetworks = ''trusted-networks''"
| "fname FUntrustedProxyAction = ''untrusted-proxy-action''"
| "fname FDetectTimeout = ''tcp.detect-timeout''"
| "fname FTCPIdleTimeout = ''tcp.idle-timeout''"
| "fname FTCPHeaderVersion = ''tcp.header-version''"
| "fname FTCPFamilyMismatch = ''tcp.family-mismatch''"
| "fname FTCPMaxConnections = ''tcp.max-connections''"
| "fname FIdleTimeout = ''udp.idle-timeout''"
| "fname FMaxSessions = ''udp.max-sessions''"
| "fname FMaxDatagramSize = ''udp.max-datagram-size''"
| "fname FUDPHeaderMode = ''udp.header-mode''"
| "fname FLogConsoleLevel = ''log.console.level''"
| "fname FLogConsoleFormat = ''log.console.format''"
| "fname FLogFilePath = ''log.file.path''"
| "fname FLogFileLevel = ''log.file.level''"
| "fname FLogFileFormat = ''log.file.format''"

fun section_of :: "field \<Rightarrow> string" where
  "section_of FProtocol = ''General''"
| "section_of FListen = ''General''"
| "section_of FUpstream = ''General''"
| "section_of FPolicy = ''General''"
| "section_of FLang = ''General''"
| "section_of FTrustedNetworks = ''Trust''"
| "section_of FUntrustedProxyAction = ''Trust''"
| "section_of FDetectTimeout = ''TCP''"
| "section_of FTCPIdleTimeout = ''TCP''"
| "section_of FTCPHeaderVersion = ''TCP''"
| "section_of FTCPFamilyMismatch = ''TCP''"
| "section_of FTCPMaxConnections = ''TCP''"
| "section_of FIdleTimeout = ''UDP''"
| "section_of FMaxSessions = ''UDP''"
| "section_of FMaxDatagramSize = ''UDP''"
| "section_of FUDPHeaderMode = ''UDP''"
| "section_of FLogConsoleLevel = ''Logging''"
| "section_of FLogConsoleFormat = ''Logging''"
| "section_of FLogFilePath = ''Logging''"
| "section_of FLogFileLevel = ''Logging''"
| "section_of FLogFileFormat = ''Logging''"

definition configFields :: "field list" where
  "configFields =
     [FProtocol, FListen, FUpstream, FPolicy, FLang, FTrustedNetworks, FUntrustedProxyAction, FDetectTimeout, FTCPIdleTimeout, FTCPHeaderVersion, FTCPFamilyMismatch, FTCPMaxConnections, FIdleTimeout, FMaxSessions, FMaxDatagramSize, FUDPHeaderMode, FLogConsoleLevel, FLogConsoleFormat, FLogFilePath, FLogFileLevel, FLogFileFormat]"

section \<open>The configuration\<close>

text \<open>A nil slice and a nil map are the empty ones.\<close>

record Config =
  cf_Listen :: string
  cf_Upstream :: string
  cf_Policy :: string
  cf_DetectTimeout :: duration
  cf_TCPIdleTimeout :: duration
  cf_TCPHeaderVersion :: string
  cf_TCPFamilyMismatch :: string
  cf_TCPMaxConnections :: int
  cf_Lang :: string
  cf_TrustedNetworks :: "string list"
  cf_UntrustedProxyAction :: string
  cf_Protocol :: string
  cf_IdleTimeout :: duration
  cf_MaxSessions :: int
  cf_MaxDatagramSize :: int
  cf_UDPHeaderMode :: string
  cf_ConfigPath :: string
  cf_LogConsoleLevel :: string
  cf_LogConsoleFormat :: string
  cf_LogFilePath :: string
  cf_LogFileLevel :: string
  cf_LogFileFormat :: string
  cf_prov :: "string \<rightharpoonup> string"
  cf_loadedFile :: string
  cf_Migrated :: bool

fun value_of :: "field \<Rightarrow> Config \<Rightarrow> cval" where
  "value_of FProtocol c = VStr (cf_Protocol c)"
| "value_of FListen c = VStr (cf_Listen c)"
| "value_of FUpstream c = VStr (cf_Upstream c)"
| "value_of FPolicy c = VStr (cf_Policy c)"
| "value_of FLang c = VStr (cf_Lang c)"
| "value_of FTrustedNetworks c = VList (cf_TrustedNetworks c)"
| "value_of FUntrustedProxyAction c = VStr (cf_UntrustedProxyAction c)"
| "value_of FDetectTimeout c = VDur (cf_DetectTimeout c)"
| "value_of FTCPIdleTimeout c = VDur (cf_TCPIdleTimeout c)"
| "value_of FTCPHeaderVersion c = VStr (cf_TCPHeaderVersion c)"
| "value_of FTCPFamilyMismatch c = VStr (cf_TCPFamilyMismatch c)"
| "value_of FTCPMaxConnections c = VInt (cf_TCPMaxConnections c)"
| "value_of FIdleTimeout c = VDur (cf_IdleTimeout c)"
| "value_of FMaxSessions c = VInt (cf_MaxSessions c)"
| "value_of FMaxDatagramSize c = VInt (cf_MaxDatagramSize c)"
| "value_of FUDPHeaderMode c = VStr (cf_UDPHeaderMode c)"
| "value_of FLogConsoleLevel c = VStr (cf_LogConsoleLevel c)"
| "value_of FLogConsoleFormat c = VStr (cf_LogConsoleFormat c)"
| "value_of FLogFilePath c = VStr (cf_LogFilePath c)"
| "value_of FLogFileLevel c = VStr (cf_LogFileLevel c)"
| "value_of FLogFileFormat c = VStr (cf_LogFileFormat c)"

fun def_val :: "field \<Rightarrow> cval" where
  "def_val FProtocol = VStr ''tcp''"
| "def_val FListen = VStr '':9000''"
| "def_val FUpstream = VStr ''127.0.0.1:9001''"
| "def_val FPolicy = VStr ''use''"
| "def_val FLang = VStr []"
| "def_val FTrustedNetworks = VList []"
| "def_val FUntrustedProxyAction = VStr ''reject''"
| "def_val FDetectTimeout = VDur 1000000000"
| "def_val FTCPIdleTimeout = VDur 300000000000"
| "def_val FTCPHeaderVersion = VStr ''v2''"
| "def_val FTCPFamilyMismatch = VStr ''reject''"
| "def_val FTCPMaxConnections = VInt 4096"
| "def_val FIdleTimeout = VDur 30000000000"
| "def_val FMaxSessions = VInt 1024"
| "def_val FMaxDatagramSize = VInt 65535"
| "def_val FUDPHeaderMode = VStr ''every_datagram''"
| "def_val FLogConsoleLevel = VStr ''info''"
| "def_val FLogConsoleFormat = VStr ''text''"
| "def_val FLogFilePath = VStr []"
| "def_val FLogFileLevel = VStr ''info''"
| "def_val FLogFileFormat = VStr ''text''"

definition zero_config :: Config where
  "zero_config =
     \<lparr>cf_Listen = [], cf_Upstream = [], cf_Policy = [], cf_DetectTimeout = 0, cf_TCPIdleTimeout = 0,
      cf_TCPHeaderVersion = [], cf_TCPFamilyMismatch = [], cf_TCPMaxConnections = 0, cf_Lang = [],
      cf_TrustedNetworks = [], cf_UntrustedProxyAction = [], cf_Protocol = [], cf_IdleTimeout = 0,
      cf_MaxSessions = 0, cf_MaxDatagramSize = 0, cf_UDPHeaderMode = [], cf_ConfigPath = [],
      cf_LogConsoleLevel = [], cf_LogConsoleFormat = [], cf_LogFilePath = [], cf_LogFileLevel = [],
      cf_LogFileFormat = [],
      cf_prov = (\<lambda>_. None), cf_loadedFile = [], cf_Migrated = False\<rparr>"

definition mark :: "string \<Rightarrow> string \<Rightarrow> Config \<Rightarrow> Config" where
  "mark field src c = c\<lparr>cf_prov := (cf_prov c)(field \<mapsto> src)\<rparr>"

definition sourceOf :: "Config \<Rightarrow> string \<Rightarrow> string" where
  "sourceOf c field = (case cf_prov c field of Some s \<Rightarrow> s | None \<Rightarrow> ''default'')"

text \<open>\<open>defaultsSource.Apply\<close>, which never fails.\<close>

definition defaults_Apply :: "Config \<Rightarrow> Config" where
  "defaults_Apply c =
     fold (\<lambda>f. mark (fname f) ''default'') configFields
       (c\<lparr>cf_Upstream := ''127.0.0.1:9001'', cf_Listen := '':9000'', cf_Policy := ''use'',
          cf_DetectTimeout := 1000000000, cf_TCPIdleTimeout := 5 * 60000000000,
          cf_TCPHeaderVersion := ''v2'', cf_TCPFamilyMismatch := ''reject'',
          cf_TCPMaxConnections := 4096, cf_LogConsoleLevel := ''info'',
          cf_LogConsoleFormat := ''text'', cf_LogFileLevel := ''info'', cf_LogFileFormat := ''text'',
          cf_UntrustedProxyAction := ''reject'', cf_Protocol := ''tcp'',
          cf_IdleTimeout := 30 * 1000000000, cf_MaxSessions := 1024, cf_MaxDatagramSize := 65535,
          cf_UDPHeaderMode := ''every_datagram''\<rparr>)"

section \<open>Describe\<close>

text \<open>The banner's lines; \<open>fmt_v\<close> is \<open>fmt\<close>'s verb \<open>%v\<close>.\<close>

fun describe_fields :: "(cval \<Rightarrow> string) \<Rightarrow> Config \<Rightarrow> string \<Rightarrow> field list \<Rightarrow> string" where
  "describe_fields fmt_v c lastSection [] = []"
| "describe_fields fmt_v c lastSection (f # fs) =
     (if section_of f \<noteq> lastSection then ''  ['' @ section_of f @ '']'' @ [char_of (10 :: nat)] else [])
     @ ''    '' @ fname f @ '' = '' @ fmt_v (value_of f c) @ '' ('' @ sourceOf c (fname f) @ '')''
     @ [char_of (10 :: nat)]
     @ describe_fields fmt_v c (section_of f) fs"

definition Describe :: "(cval \<Rightarrow> string) \<Rightarrow> Config \<Rightarrow> string" where
  "Describe fmt_v c =
     ''config file: ''
     @ (if cf_loadedFile c \<noteq> [] then cf_loadedFile c else ''(none)'')
     @ [char_of (10 :: nat), char_of (10 :: nat)] @ ''-- config --'' @ [char_of (10 :: nat)]
     @ describe_fields fmt_v c [] configFields
     @ ''-----------'' @ [char_of (10 :: nat)]"

section \<open>Warnings\<close>

definition Warnings :: "Config \<Rightarrow> string list" where
  "Warnings c =
     (if cf_TrustedNetworks c = [] \<and> cf_Policy c \<noteq> ''reject''
      then [''warning.trusted_networks.empty''] else [])
     @ (if cf_UntrustedProxyAction c = ''strip'' then [''warning.untrusted_proxy_action.strip''] else [])
     @ (if cf_Protocol c = ''tcp'' \<and> cf_TCPFamilyMismatch c = ''legacy''
        then [''warning.family_mismatch.legacy''] else [])"

definition currentConfigVersion :: int where
  "currentConfigVersion = 3"

definition MigrationNotice :: "Config \<Rightarrow> string \<times> cval list" where
  "MigrationNotice c =
     (if \<not> cf_Migrated c then ([], [])
      else (''notice.config_migrated'', [VInt currentConfigVersion, VStr (cf_loadedFile c)]))"

section \<open>Validation\<close>

text \<open>\<open>ConfigError\<close>: the message key and its arguments.\<close>

datatype config_error = ConfigError string "cval list"

definition validLevel :: "string \<Rightarrow> bool" where
  "validLevel s \<longleftrightarrow> s \<in> {''debug'', ''info'', ''warn'', ''error''}"

definition validFormat :: "string \<Rightarrow> bool" where
  "validFormat s \<longleftrightarrow> s \<in> {''text'', ''json''}"

definition Validate :: "Config \<Rightarrow> config_error + unit" where
  "Validate c =
     (if cf_Upstream c = [] then Inl (ConfigError ''error.upstream_required'' [])
      else if cf_Policy c \<notin> {''use'', ''require'', ''reject''}
        then Inl (ConfigError ''error.invalid_policy'' [VStr (cf_Policy c)])
      else if cf_UntrustedProxyAction c \<notin> {''reject'', ''strip''}
        then Inl (ConfigError ''error.invalid_untrusted_proxy_action'' [VStr (cf_UntrustedProxyAction c)])
      else if cf_Protocol c \<notin> {''tcp'', ''udp''}
        then Inl (ConfigError ''error.invalid_protocol'' [VStr (cf_Protocol c)])
      else if cf_UDPHeaderMode c \<notin> {''every_datagram'', ''first_datagram''}
        then Inl (ConfigError ''error.invalid_udp_header_mode'' [VStr (cf_UDPHeaderMode c)])
      else if cf_MaxSessions c < 0
        then Inl (ConfigError ''error.max_sessions_nonneg'' [VInt (cf_MaxSessions c)])
      else if cf_MaxDatagramSize c < 0
        then Inl (ConfigError ''error.max_datagram_size_nonneg'' [VInt (cf_MaxDatagramSize c)])
      else if cf_IdleTimeout c \<le> 0
        then Inl (ConfigError ''error.idle_timeout_positive'' [VDur (cf_IdleTimeout c)])
      else if cf_Lang c \<notin> {[], ''en'', ''zh-CN'', ''zh-TW''}
        then Inl (ConfigError ''error.invalid_lang'' [VStr (cf_Lang c)])
      else case find (\<lambda>cidr. ParseCIDR cidr = None \<and> ParseIP cidr = None) (cf_TrustedNetworks c) of
        Some cidr \<Rightarrow> Inl (ConfigError ''error.invalid_trusted_networks_entry'' [VStr cidr])
      | None \<Rightarrow>
      if cf_DetectTimeout c < 0
        then Inl (ConfigError ''error.detect_timeout_nonneg'' [VDur (cf_DetectTimeout c)])
      else if cf_TCPIdleTimeout c < 0
        then Inl (ConfigError ''error.tcp_idle_timeout_nonneg'' [VDur (cf_TCPIdleTimeout c)])
      else if cf_TCPHeaderVersion c \<notin> {''v1'', ''v2''}
        then Inl (ConfigError ''error.invalid_tcp_header_version'' [VStr (cf_TCPHeaderVersion c)])
      else if cf_TCPFamilyMismatch c \<notin> {''reject'', ''unknown'', ''legacy''}
        then Inl (ConfigError ''error.invalid_family_mismatch'' [VStr (cf_TCPFamilyMismatch c)])
      else if cf_TCPMaxConnections c < 0
        then Inl (ConfigError ''error.max_connections_nonneg'' [VInt (cf_TCPMaxConnections c)])
      else if \<not> validLevel (cf_LogConsoleLevel c)
        then Inl (ConfigError ''error.invalid_log_console_level'' [VStr (cf_LogConsoleLevel c)])
      else if \<not> validFormat (cf_LogConsoleFormat c)
        then Inl (ConfigError ''error.invalid_log_console_format'' [VStr (cf_LogConsoleFormat c)])
      else if cf_LogFilePath c \<noteq> [] \<and> \<not> validLevel (cf_LogFileLevel c)
        then Inl (ConfigError ''error.invalid_log_file_level'' [VStr (cf_LogFileLevel c)])
      else if cf_LogFilePath c \<noteq> [] \<and> \<not> validFormat (cf_LogFileFormat c)
        then Inl (ConfigError ''error.invalid_log_file_format'' [VStr (cf_LogFileFormat c)])
      else Inr ())"

section \<open>Lemmas\<close>

lemma fname_inject [simp]: "fname f = fname g \<longleftrightarrow> f = g"
  by (cases f; cases g) simp_all

lemma configFields_all: "f \<in> set configFields"
  by (cases f) (simp_all add: configFields_def)

lemma value_of_mark [simp]: "value_of f (mark g s c) = value_of f c"
  by (cases f) (simp_all add: mark_def)

lemma prov_mark [simp]: "cf_prov (mark g s c) = (cf_prov c)(g \<mapsto> s)"
  by (simp add: mark_def)

lemma fold_mark_value [simp]: "value_of f (fold (\<lambda>g. mark (fname g) s) gs c) = value_of f c"
  by (induction gs arbitrary: c) simp_all

lemma fold_mark_prov:
  "cf_prov (fold (\<lambda>g. mark (fname g) s) gs c) x =
     (if \<exists>g \<in> set gs. fname g = x then Some s else cf_prov c x)"
  by (induction gs arbitrary: c) auto

lemma defaults_prov: "cf_prov (defaults_Apply c) (fname f) = Some ''default''"
  using configFields_all [of f] by (auto simp: defaults_Apply_def fold_mark_prov)

lemma defaults_value: "value_of f (defaults_Apply zero_config) = def_val f"
  by (cases f) (simp_all add: defaults_Apply_def zero_config_def)

text \<open>The fields of the default configuration, by the registry.\<close>

lemma defaults_fields [simp]:
  "cf_Upstream (defaults_Apply zero_config) = ''127.0.0.1:9001''"
  "cf_Listen (defaults_Apply zero_config) = '':9000''"
  "cf_Policy (defaults_Apply zero_config) = ''use''"
  "cf_Protocol (defaults_Apply zero_config) = ''tcp''"
  "cf_UntrustedProxyAction (defaults_Apply zero_config) = ''reject''"
  "cf_UDPHeaderMode (defaults_Apply zero_config) = ''every_datagram''"
  "cf_MaxSessions (defaults_Apply zero_config) = 1024"
  "cf_MaxDatagramSize (defaults_Apply zero_config) = 65535"
  "cf_IdleTimeout (defaults_Apply zero_config) = 30000000000"
  "cf_Lang (defaults_Apply zero_config) = []"
  "cf_TrustedNetworks (defaults_Apply zero_config) = []"
  "cf_DetectTimeout (defaults_Apply zero_config) = 1000000000"
  "cf_TCPIdleTimeout (defaults_Apply zero_config) = 300000000000"
  "cf_TCPHeaderVersion (defaults_Apply zero_config) = ''v2''"
  "cf_TCPFamilyMismatch (defaults_Apply zero_config) = ''reject''"
  "cf_TCPMaxConnections (defaults_Apply zero_config) = 4096"
  "cf_LogConsoleLevel (defaults_Apply zero_config) = ''info''"
  "cf_LogConsoleFormat (defaults_Apply zero_config) = ''text''"
  "cf_LogFilePath (defaults_Apply zero_config) = []"
  "cf_LogFileLevel (defaults_Apply zero_config) = ''info''"
  "cf_LogFileFormat (defaults_Apply zero_config) = ''text''"
  using defaults_value [of FUpstream] defaults_value [of FListen] defaults_value [of FPolicy]
    defaults_value [of FProtocol] defaults_value [of FUntrustedProxyAction]
    defaults_value [of FUDPHeaderMode] defaults_value [of FMaxSessions]
    defaults_value [of FMaxDatagramSize] defaults_value [of FIdleTimeout] defaults_value [of FLang]
    defaults_value [of FTrustedNetworks] defaults_value [of FDetectTimeout]
    defaults_value [of FTCPIdleTimeout] defaults_value [of FTCPHeaderVersion]
    defaults_value [of FTCPFamilyMismatch] defaults_value [of FTCPMaxConnections]
    defaults_value [of FLogConsoleLevel] defaults_value [of FLogConsoleFormat]
    defaults_value [of FLogFilePath] defaults_value [of FLogFileLevel]
    defaults_value [of FLogFileFormat]
  by simp_all

lemma defaults_valid: "Validate (defaults_Apply zero_config) = Inr ()"
  by (simp add: Validate_def validLevel_def validFormat_def)

text \<open>
  The registry and the defaults agree: every field has one entry and a name of its own,
  the defaults source gives each field the registry's default and marks it so, and the
  default configuration is valid.
\<close>

theorem defaults_match_registry:
  "set configFields = UNIV \<and> distinct (map fname configFields) \<and>
   value_of f (defaults_Apply zero_config) = def_val f \<and>
   sourceOf (defaults_Apply zero_config) (fname f) = ''default'' \<and>
   Validate (defaults_Apply zero_config) = Inr ()"
proof -
  have "distinct (map fname configFields)" by (simp add: configFields_def)
  then show ?thesis
    using configFields_all defaults_value defaults_prov defaults_valid by (auto simp: sourceOf_def)
qed

text \<open>
  What \<open>Validate\<close> accepts, written as a predicate: the type of a usable configuration.
\<close>

definition parses_as_network :: "string \<Rightarrow> bool" where
  "parses_as_network cidr \<longleftrightarrow> ParseCIDR cidr \<noteq> None \<or> ParseIP cidr \<noteq> None"

definition wf_config :: "Config \<Rightarrow> bool" where
  "wf_config c \<longleftrightarrow>
     cf_Upstream c \<noteq> [] \<and> cf_Policy c \<in> {''use'', ''require'', ''reject''} \<and>
     cf_UntrustedProxyAction c \<in> {''reject'', ''strip''} \<and> cf_Protocol c \<in> {''tcp'', ''udp''} \<and>
     cf_UDPHeaderMode c \<in> {''every_datagram'', ''first_datagram''} \<and>
     0 \<le> cf_MaxSessions c \<and> 0 \<le> cf_MaxDatagramSize c \<and> 0 < cf_IdleTimeout c \<and>
     cf_Lang c \<in> {[], ''en'', ''zh-CN'', ''zh-TW''} \<and>
     (\<forall>cidr \<in> set (cf_TrustedNetworks c). parses_as_network cidr) \<and>
     0 \<le> cf_DetectTimeout c \<and> 0 \<le> cf_TCPIdleTimeout c \<and>
     cf_TCPHeaderVersion c \<in> {''v1'', ''v2''} \<and>
     cf_TCPFamilyMismatch c \<in> {''reject'', ''unknown'', ''legacy''} \<and> 0 \<le> cf_TCPMaxConnections c \<and>
     validLevel (cf_LogConsoleLevel c) \<and> validFormat (cf_LogConsoleFormat c) \<and>
     (cf_LogFilePath c \<noteq> [] \<longrightarrow> validLevel (cf_LogFileLevel c) \<and> validFormat (cf_LogFileFormat c))"

lemma checks_pass:
  "(if b then Inl e else x) = Inr u \<longleftrightarrow> \<not> b \<and> x = Inr u"
  "(case o' of Some y \<Rightarrow> Inl (f y) | None \<Rightarrow> x) = Inr u \<longleftrightarrow> o' = None \<and> x = Inr u"
  by (simp_all split: option.split)

lemma Validate_iff: "Validate c = Inr () \<longleftrightarrow> wf_config c"
proof -
  have nets: "(\<nexists>x. x \<in> set ns \<and> ParseCIDR x = None \<and> ParseIP x = None) \<longleftrightarrow>
        (\<forall>x \<in> set ns. parses_as_network x)" for ns
    by (auto simp: parses_as_network_def)
  show ?thesis
    unfolding Validate_def checks_pass wf_config_def find_None_iff not_not not_le not_less nets
      imp_conjR imp_conv_disj
    by (simp add: disj_conj_distribL)
qed

lemmas Validate_wf = Validate_iff [THEN iffD1, unfolded wf_config_def]

lemma Validate_enums:
  assumes "Validate c = Inr ()"
  shows "cf_Policy c \<in> {''use'', ''require'', ''reject''}"
    "cf_UntrustedProxyAction c \<in> {''reject'', ''strip''}" "cf_Protocol c \<in> {''tcp'', ''udp''}"
    "cf_UDPHeaderMode c \<in> {''every_datagram'', ''first_datagram''}"
    "cf_TCPHeaderVersion c \<in> {''v1'', ''v2''}"
    "cf_TCPFamilyMismatch c \<in> {''reject'', ''unknown'', ''legacy''}"
    "cf_Lang c \<in> {[], ''en'', ''zh-CN'', ''zh-TW''}"
  using Validate_wf [OF assms] by blast+

lemma Validate_datagram_size:
  "0 \<le> n \<Longrightarrow> Validate c = Inr () \<Longrightarrow> Validate (c\<lparr>cf_MaxDatagramSize := n\<rparr>) = Inr ()"
  by (simp add: Validate_iff wf_config_def)

lemma Validate_networks:
  assumes "Validate c = Inr ()"
  shows "\<exists>t. NewTrustChecker (cf_TrustedNetworks c) = Inr t"
  using Validate_wf [OF assms] by (simp add: NewTrustChecker_ok parses_as_network_def)

text \<open>
  A configuration that validates can be run: its trusted networks all parse, so the trust
  checker built from them exists, every enumeration has one of its documented values, and no
  size, limit or timeout is negative.
\<close>

theorem validated_is_usable:
  assumes "Validate c = Inr ()"
  shows "(\<exists>t. NewTrustChecker (cf_TrustedNetworks c) = Inr t) \<and>
         cf_Upstream c \<noteq> [] \<and> cf_Policy c \<in> {''use'', ''require'', ''reject''} \<and>
         cf_UntrustedProxyAction c \<in> {''reject'', ''strip''} \<and> cf_Protocol c \<in> {''tcp'', ''udp''} \<and>
         cf_UDPHeaderMode c \<in> {''every_datagram'', ''first_datagram''} \<and>
         cf_TCPHeaderVersion c \<in> {''v1'', ''v2''} \<and>
         cf_TCPFamilyMismatch c \<in> {''reject'', ''unknown'', ''legacy''} \<and>
         0 \<le> cf_MaxSessions c \<and> 0 \<le> cf_MaxDatagramSize c \<and> 0 < cf_IdleTimeout c \<and>
         0 \<le> cf_DetectTimeout c \<and> 0 \<le> cf_TCPIdleTimeout c \<and> 0 \<le> cf_TCPMaxConnections c"
  using Validate_networks [OF assms] Validate_wf [OF assms] by blast

theorem validated_is_usable_witness:
  "\<exists>t. NewTrustChecker (cf_TrustedNetworks (zero_config\<lparr>cf_Upstream := ''a:1'', cf_Policy := ''use'',
      cf_UntrustedProxyAction := ''strip'', cf_Protocol := ''udp'', cf_UDPHeaderMode := ''first_datagram'',
      cf_IdleTimeout := 5, cf_TCPHeaderVersion := ''v1'', cf_TCPFamilyMismatch := ''legacy'',
      cf_LogConsoleLevel := ''info'', cf_LogConsoleFormat := ''json''\<rparr>)) = Inr t"
  by (rule conjunct1 [OF validated_is_usable])
    (simp add: Validate_def zero_config_def validLevel_def validFormat_def)

text \<open>
  The startup warnings are complete about spoofing: with no warning shown, either PROXY
  headers are refused altogether, or some network restricts who may send them, and no
  untrusted header is silently stripped.
\<close>

theorem no_warning_no_open_trust:
  assumes "NewTrustChecker (cf_TrustedNetworks c) = Inr t" and "Warnings c = []"
  shows "(cf_Policy c = ''reject'' \<or> \<not> all_trusted t) \<and> cf_UntrustedProxyAction c \<noteq> ''strip'' \<and>
         (cf_Protocol c = ''tcp'' \<longrightarrow> cf_TCPFamilyMismatch c \<noteq> ''legacy'')"
  using assms by (auto simp: Warnings_def NewTrustChecker_def split: if_splits)

theorem no_warning_no_open_trust_witness:
  "Warnings (zero_config\<lparr>cf_Policy := ''reject''\<rparr>) = [] \<and>
   cf_UntrustedProxyAction (zero_config\<lparr>cf_Policy := ''reject''\<rparr>) \<noteq> ''strip''"
proof -
  have w: "Warnings (zero_config\<lparr>cf_Policy := ''reject''\<rparr>) = []"
    by (simp add: Warnings_def zero_config_def)
  moreover have "NewTrustChecker (cf_TrustedNetworks (zero_config\<lparr>cf_Policy := ''reject''\<rparr>)) =
      Inr \<lparr>nets = [], all_trusted = True\<rparr>"
    by (simp add: NewTrustChecker_def zero_config_def)
  from no_warning_no_open_trust [OF this w] w show ?thesis by blast
qed

end
