(* ===== verification/Logging.thy ===== *)
theory Logging
  imports Tcp_Gateway Config
begin

text \<open>
  The logging half of \<open>gateway_runner.go\<close>: level parsing, the two sinks and the handler that
  fans a record out to both. A sink stands for one of \<open>log/slog\<close>'s text and JSON handlers;
  whether the write to its stream fails is a parameter.
\<close>

section \<open>Levels\<close>

definition level_num :: "log_level \<Rightarrow> int" where
  "level_num l =
     (case l of LevelDebug \<Rightarrow> -4 | LevelInfo \<Rightarrow> 0 | LevelWarn \<Rightarrow> 4 | LevelError \<Rightarrow> 8)"

lemma level_num_inject [simp]: "level_num a = level_num b \<longleftrightarrow> a = b"
  by (cases a; cases b) (simp_all add: level_num_def)

text \<open>\<open>slog.Level\<close> is ordered by its number.\<close>

instantiation log_level :: linorder
begin

definition less_eq_log_level :: "log_level \<Rightarrow> log_level \<Rightarrow> bool" where
  "less_eq_log_level a b \<longleftrightarrow> level_num a \<le> level_num b"

definition less_log_level :: "log_level \<Rightarrow> log_level \<Rightarrow> bool" where
  "less_log_level a b \<longleftrightarrow> level_num a < level_num b"

instance
  by standard (auto simp: less_eq_log_level_def less_log_level_def)

end

definition parseLevel :: "string \<Rightarrow> log_level" where
  "parseLevel s =
     (if s = ''debug'' then LevelDebug
      else if s = ''warn'' then LevelWarn
      else if s = ''error'' then LevelError
      else LevelInfo)"

section \<open>Handlers\<close>

text \<open>
  The interface \<open>slog.Handler\<close> as the program uses it. Deriving a handler with attributes or a
  group leaves its threshold alone, and a handler accepts every level above one it accepts.
\<close>

locale slog_handler =
  fixes Enabled :: "'h \<Rightarrow> log_level \<Rightarrow> bool"
    and WithAttrs :: "'h \<Rightarrow> string list \<Rightarrow> 'h"
    and WithGroup :: "'h \<Rightarrow> string \<Rightarrow> 'h"
  assumes attrs_keep: "Enabled (WithAttrs h as) l = Enabled h l"
    and group_keeps: "Enabled (WithGroup h g) l = Enabled h l"
    and upward: "Enabled h l \<Longrightarrow> l \<le> l' \<Longrightarrow> Enabled h l'"
begin

lemma derived_threshold:
  "Enabled (WithGroup (WithAttrs h as) g) l = Enabled h l"
  by (simp add: attrs_keep group_keeps)

end

text \<open>Where a sink writes: the console's stream or the log file.\<close>

datatype log_stream = Stderr | LogFile string

record sink =
  sk_stream :: log_stream
  sk_level :: log_level
  sk_json :: bool
  sk_attrs :: "string list"
  sk_groups :: "string list"

definition sink_Enabled :: "sink \<Rightarrow> log_level \<Rightarrow> bool" where
  "sink_Enabled s l \<longleftrightarrow> sk_level s \<le> l"

definition sink_WithAttrs :: "sink \<Rightarrow> string list \<Rightarrow> sink" where
  "sink_WithAttrs s as = s\<lparr>sk_attrs := sk_attrs s @ as\<rparr>"

definition sink_WithGroup :: "sink \<Rightarrow> string \<Rightarrow> sink" where
  "sink_WithGroup s g = s\<lparr>sk_groups := sk_groups s @ [g]\<rparr>"

text \<open>A record written to a stream, or the error of the write.\<close>

type_synonym log_write = "sink \<times> log_level \<times> string"

definition sink_Handle ::
    "(log_stream \<Rightarrow> string option) \<Rightarrow> sink \<Rightarrow> log_level \<Rightarrow> string \<Rightarrow> log_write list \<times> string option" where
  "sink_Handle fails s l msg =
     (case fails (sk_stream s) of Some e \<Rightarrow> ([], Some e) | None \<Rightarrow> ([(s, l, msg)], None))"

interpretation sink: slog_handler sink_Enabled sink_WithAttrs sink_WithGroup
  by unfold_locales (auto simp: sink_Enabled_def sink_WithAttrs_def sink_WithGroup_def)

section \<open>The fan-out handler\<close>

record multiHandler =
  mh_console :: sink
  mh_file :: sink

definition multi_Enabled :: "multiHandler \<Rightarrow> log_level \<Rightarrow> bool" where
  "multi_Enabled h l \<longleftrightarrow> sink_Enabled (mh_console h) l \<or> sink_Enabled (mh_file h) l"

definition multi_Handle ::
    "(log_stream \<Rightarrow> string option) \<Rightarrow> multiHandler \<Rightarrow> log_level \<Rightarrow> string \<Rightarrow> log_write list \<times> string option" where
  "multi_Handle fails h l msg =
     (let (w1, e1) = (if sink_Enabled (mh_console h) l
                      then sink_Handle fails (mh_console h) l msg else ([], None))
      in case e1 of
           Some e \<Rightarrow> (w1, Some e)
         | None \<Rightarrow>
             (if sink_Enabled (mh_file h) l then
                (let (w2, e2) = sink_Handle fails (mh_file h) l msg in (w1 @ w2, e2))
              else (w1, None)))"

definition multi_WithAttrs :: "multiHandler \<Rightarrow> string list \<Rightarrow> multiHandler" where
  "multi_WithAttrs h as =
     \<lparr>mh_console = sink_WithAttrs (mh_console h) as, mh_file = sink_WithAttrs (mh_file h) as\<rparr>"

definition multi_WithGroup :: "multiHandler \<Rightarrow> string \<Rightarrow> multiHandler" where
  "multi_WithGroup h g =
     \<lparr>mh_console = sink_WithGroup (mh_console h) g, mh_file = sink_WithGroup (mh_file h) g\<rparr>"

interpretation multi: slog_handler multi_Enabled multi_WithAttrs multi_WithGroup
  by unfold_locales
    (auto simp: multi_Enabled_def multi_WithAttrs_def multi_WithGroup_def sink.attrs_keep
      sink.group_keeps intro: sink.upward)

section \<open>The logger\<close>

datatype logger = ConsoleOnly sink | Both multiHandler

text \<open>\<open>slog.Logger\<close>'s methods: the handler is asked first, and its error is dropped.\<close>

definition log_record ::
    "(log_stream \<Rightarrow> string option) \<Rightarrow> logger \<Rightarrow> log_level \<Rightarrow> string \<Rightarrow> log_write list" where
  "log_record fails lg l msg =
     (case lg of
        ConsoleOnly s \<Rightarrow> if sink_Enabled s l then fst (sink_Handle fails s l msg) else []
      | Both h \<Rightarrow> if multi_Enabled h l then fst (multi_Handle fails h l msg) else [])"

text \<open>
  The operating system's answers to \<open>buildLogger\<close>: \<open>lw_abs\<close> is \<open>filepath.Abs\<close>; the other
  two give the error of \<open>MkdirAll\<close> and \<open>OpenFile\<close>, if any.
\<close>

record log_world =
  lw_is_abs :: "string \<Rightarrow> bool"
  lw_abs :: "string \<Rightarrow> string option"
  lw_dir :: "string \<Rightarrow> string"
  lw_mkdir :: "string \<Rightarrow> string option"
  lw_open :: "string \<Rightarrow> string option"

text \<open>
  \<open>buildLogger\<close>: the logger and the path of the file its closer closes, if one was opened.
\<close>

definition new_sink :: "log_stream \<Rightarrow> string \<Rightarrow> string \<Rightarrow> sink" where
  "new_sink st level format =
     \<lparr>sk_stream = st, sk_level = parseLevel level, sk_json = (format = ''json''), sk_attrs = [],
      sk_groups = []\<rparr>"

definition log_path :: "log_world \<Rightarrow> Config \<Rightarrow> string" where
  "log_path w cfg =
     (if \<not> lw_is_abs w (cf_LogFilePath cfg) then
        (case lw_abs w (cf_LogFilePath cfg) of Some a \<Rightarrow> a | None \<Rightarrow> cf_LogFilePath cfg)
      else cf_LogFilePath cfg)"

definition buildLogger :: "log_world \<Rightarrow> Config \<Rightarrow> string + logger \<times> string option" where
  "buildLogger w cfg =
     (let console = new_sink Stderr (cf_LogConsoleLevel cfg) (cf_LogConsoleFormat cfg) in
      if cf_LogFilePath cfg = [] then Inr (ConsoleOnly console, None)
      else
        let logPath = log_path w cfg; dir = lw_dir w logPath in
        case (if dir \<noteq> [] then lw_mkdir w dir else None) of
          Some e \<Rightarrow> Inl (''create log dir '' @ dir @ '': '' @ e)
        | None \<Rightarrow>
            (case lw_open w logPath of
               Some e \<Rightarrow> Inl (''open log file '' @ logPath @ '': '' @ e)
             | None \<Rightarrow>
                 Inr (Both \<lparr>mh_console = console,
                            mh_file = new_sink (LogFile logPath) (cf_LogFileLevel cfg)
                                        (cf_LogFileFormat cfg)\<rparr>,
                      Some logPath)))"

section \<open>Lemmas\<close>

lemma new_sink_simps [simp]:
  "sk_stream (new_sink st lv f) = st" "sk_level (new_sink st lv f) = parseLevel lv"
  "sk_json (new_sink st lv f) \<longleftrightarrow> f = ''json''"
  by (simp_all add: new_sink_def)

lemma sink_Handle_ok: "fails (sk_stream s) = None \<Longrightarrow> sink_Handle fails s l msg = ([(s, l, msg)], None)"
  by (simp add: sink_Handle_def)

lemma buildLogger_Inr:
  assumes "buildLogger w cfg = Inr (lg, f)"
  defines "console \<equiv> new_sink Stderr (cf_LogConsoleLevel cfg) (cf_LogConsoleFormat cfg)"
  obtains "cf_LogFilePath cfg = []" "lg = ConsoleOnly console" "f = None"
  | "cf_LogFilePath cfg \<noteq> []" "f = Some (log_path w cfg)"
    "lg = Both \<lparr>mh_console = console,
                mh_file = new_sink (LogFile (log_path w cfg)) (cf_LogFileLevel cfg) (cf_LogFileFormat cfg)\<rparr>"
  using assms by (auto simp: buildLogger_def Let_def split: if_splits option.splits)

text \<open>
  Two independent sinks: while both streams accept writes, a record reaches the console
  exactly when its level is at least the console's, and the file exactly when a file is
  configured and its level is at least the file's; each in its own format and once.
\<close>

theorem log_fanout:
  assumes "buildLogger w cfg = Inr (lg, f)" and "\<And>st. fails st = None"
  shows "log_record fails lg l msg =
    (if parseLevel (cf_LogConsoleLevel cfg) \<le> l
     then [(new_sink Stderr (cf_LogConsoleLevel cfg) (cf_LogConsoleFormat cfg), l, msg)] else []) @
    (if cf_LogFilePath cfg \<noteq> [] \<and> parseLevel (cf_LogFileLevel cfg) \<le> l
     then [(new_sink (LogFile (log_path w cfg)) (cf_LogFileLevel cfg) (cf_LogFileFormat cfg), l, msg)]
     else [])"
  using assms(1)
  by (cases rule: buildLogger_Inr)
    (simp_all add: log_record_def multi_Enabled_def multi_Handle_def sink_Enabled_def
      sink_Handle_ok assms(2))

text \<open>
  The sinks are not independent of each other's failures: a record the console is asked to
  write and cannot is lost to the log file as well, whatever the file's level.
\<close>

theorem console_failure_silences_file:
  assumes "buildLogger w cfg = Inr (lg, f)" and "fails Stderr \<noteq> None"
    and "parseLevel (cf_LogConsoleLevel cfg) \<le> l"
  shows "log_record fails lg l msg = []"
  using assms(1)
  by (cases rule: buildLogger_Inr)
    (use assms(2,3) in \<open>auto simp: log_record_def multi_Enabled_def multi_Handle_def sink_Enabled_def
      sink_Handle_def\<close>)

definition free_disk :: log_world where
  "free_disk = \<lparr>lw_is_abs = (\<lambda>p. take 1 p = ''/''), lw_abs = (\<lambda>p. Some (''/srv/'' @ p)),
     lw_dir = (\<lambda>p. ''/srv''), lw_mkdir = (\<lambda>_. None), lw_open = (\<lambda>_. None)\<rparr>"

definition file_log_config :: Config where
  "file_log_config = (defaults_Apply zero_config)\<lparr>cf_LogFilePath := ''x.log'', cf_LogFileLevel := ''debug''\<rparr>"

lemma file_log_values [simp]:
  "cf_LogConsoleLevel file_log_config = ''info''" "cf_LogConsoleFormat file_log_config = ''text''"
  "cf_LogFileFormat file_log_config = ''text''" "cf_LogFilePath file_log_config = ''x.log''"
  "cf_LogFileLevel file_log_config = ''debug''" "log_path free_disk file_log_config = ''/srv/x.log''"
  by (simp_all add: file_log_config_def free_disk_def log_path_def)

lemma file_log_built:
  "buildLogger free_disk file_log_config =
     Inr (Both \<lparr>mh_console = new_sink Stderr ''info'' ''text'',
                mh_file = new_sink (LogFile ''/srv/x.log'') ''debug'' ''text''\<rparr>, Some ''/srv/x.log'')"
  by (simp add: buildLogger_def Let_def) (simp add: free_disk_def)

theorem log_fanout_witness:
  "\<exists>lg f. buildLogger free_disk file_log_config = Inr (lg, f) \<and>
     log_record (\<lambda>_. None) lg LevelDebug ''x'' =
       [(new_sink (LogFile ''/srv/x.log'') ''debug'' ''text'', LevelDebug, ''x'')]"
  using log_fanout [OF file_log_built, of "\<lambda>_. None" LevelDebug "''x''"]
  by (simp add: file_log_built parseLevel_def less_eq_log_level_def level_num_def)

theorem console_failure_silences_file_witness:
  "\<exists>lg f. buildLogger free_disk file_log_config = Inr (lg, f) \<and>
     log_record (\<lambda>st. if st = Stderr then Some ''bad handle'' else None) lg LevelError ''x'' = []"
  using console_failure_silences_file [OF file_log_built,
      of "\<lambda>st. if st = Stderr then Some ''bad handle'' else None" LevelError "''x''"]
  by (simp add: file_log_built parseLevel_def less_eq_log_level_def level_num_def)

end
