(* ===== verification/Runner.thy ===== *)
theory Runner
  imports Logging Udp_Gateway
begin

text \<open>
  \<open>runGateway\<close> of \<open>gateway_runner.go\<close>, the mappings of \<open>main.go\<close> from validated strings to the
  gateways' enumerations, and the socket adapters of \<open>internal/tcp/tcp.go\<close>. Every resource
  opened or released is an effect.
\<close>

section \<open>Validated strings as enumerations\<close>

definition gatewayPolicy :: "string \<Rightarrow> Policy" where
  "gatewayPolicy s =
     (if s = ''require'' then PolicyRequire else if s = ''reject'' then PolicyReject else PolicyUse)"

definition untrustedProxyAction :: "string \<Rightarrow> UntrustedAction" where
  "untrustedProxyAction s = (if s = ''strip'' then UntrustedStrip else UntrustedReject)"

definition tcpHeaderVersion :: "string \<Rightarrow> nat" where
  "tcpHeaderVersion s = (if s = ''v1'' then 1 else 2)"

definition familyMismatch :: "string \<Rightarrow> FamilyMismatchAction" where
  "familyMismatch s =
     (if s = ''unknown'' then FamilyMismatchUnknown
      else if s = ''legacy'' then FamilyMismatchLegacy else FamilyMismatchReject)"

definition udpHeaderMode :: "string \<Rightarrow> OutputMode" where
  "udpHeaderMode s = (if s = ''first_datagram'' then OutputFirstDatagram else OutputEveryDatagram)"

section \<open>Sockets\<close>

datatype run_effect =
    OpenLog string
  | CloseLog string
  | OpenListener string
  | CloseListener string
  | OpenConn string
  | CloseConn string
  | StartServe

text \<open>
  What the network answers: \<open>rw_listen\<close> is \<open>net.Listen\<close>, with whether the listener is a
  \<open>*net.TCPListener\<close>; \<open>rw_dial\<close> is \<open>net.Dial\<close> likewise, both by network and address; \<open>rw_resolve_udp\<close> and \<open>rw_listen_udp\<close>
  are what \<open>udp.New\<close> asks for.
\<close>

record run_world = log_world +
  rw_listen :: "string \<Rightarrow> string \<Rightarrow> string + bool"
  rw_dial :: "string \<Rightarrow> string \<Rightarrow> string + bool"
  rw_resolve_udp :: "string \<Rightarrow> string + net_addr"
  rw_listen_udp :: "string \<Rightarrow> string + net_addr"

definition not_tcp :: "string \<Rightarrow> string" where
  "not_tcp network = ''tcp: '' @ quote_ascii network @ '' is not tcp''"

definition tcp_Listen :: "run_world \<Rightarrow> string \<Rightarrow> string \<Rightarrow> run_effect list \<times> (string + unit)" where
  "tcp_Listen w network address =
     (case rw_listen w network address of
        Inl e \<Rightarrow> ([], Inl e)
      | Inr is_tcp \<Rightarrow>
          if \<not> is_tcp then ([OpenListener address, CloseListener address], Inl (not_tcp network))
          else ([OpenListener address], Inr ()))"

text \<open>\<open>TCPDialer.Dial\<close>.\<close>

definition tcp_Dial :: "run_world \<Rightarrow> string \<Rightarrow> string \<Rightarrow> run_effect list \<times> (string + unit)" where
  "tcp_Dial w network address =
     (case rw_dial w network address of
        Inl e \<Rightarrow> ([], Inl e)
      | Inr is_tcp \<Rightarrow>
          if \<not> is_tcp then ([OpenConn address, CloseConn address], Inl (not_tcp network))
          else ([OpenConn address], Inr ()))"

section \<open>Starting a gateway\<close>

text \<open>The gateway that runs: the TCP one with its writer's header version, or the UDP one.\<close>

datatype running = RunTCP Gateway nat | RunUDP UDPGateway Manager

definition gateway_New ::
    "Policy \<Rightarrow> string \<Rightarrow> duration \<Rightarrow> duration \<Rightarrow> TrustChecker option \<Rightarrow> UntrustedAction \<Rightarrow>
     FamilyMismatchAction \<Rightarrow> int \<Rightarrow> Gateway" where
  "gateway_New policy upstream detectTimeout pipeIdleTimeout trust untrusted mixedFamily maxConns =
     \<lparr>g_policy = policy, g_upstream = upstream, g_detectTimeout = detectTimeout,
      g_pipeIdleTimeout = pipeIdleTimeout, g_trust = trust, g_untrusted = untrusted,
      g_mixedFamily = mixedFamily, g_maxConns = maxConns\<rparr>"

definition close_log :: "string option \<Rightarrow> run_effect list" where
  "close_log f = (case f of None \<Rightarrow> [] | Some p \<Rightarrow> [CloseLog p])"

definition open_log :: "string option \<Rightarrow> run_effect list" where
  "open_log f = (case f of None \<Rightarrow> [] | Some p \<Rightarrow> [OpenLog p])"

text \<open>The UDP branch and the TCP branch, each with the effects of the closer it returns.\<close>

definition run_udp ::
    "run_world \<Rightarrow> gop_format \<Rightarrow> Config \<Rightarrow> TrustChecker \<Rightarrow> string option \<Rightarrow>
     run_effect list \<times> (string + running \<times> run_effect list)" where
  "run_udp w fmt cfg trust f =
     (case New (rw_resolve_udp w (cf_Upstream cfg)) (rw_listen_udp w (cf_Listen cfg)) fmt
             (gatewayPolicy (cf_Policy cfg)) (Some trust)
             (untrustedProxyAction (cf_UntrustedProxyAction cfg))
             (udpHeaderMode (cf_UDPHeaderMode cfg)) (cf_IdleTimeout cfg) (cf_MaxSessions cfg)
             (cf_MaxDatagramSize cfg) of
        Inl e \<Rightarrow> (close_log f, Inl (''udp gateway: '' @ e))
      | Inr (g, m) \<Rightarrow>
          ([OpenListener (cf_Listen cfg), StartServe],
           Inr (RunUDP g m, CloseListener (cf_Listen cfg) # close_log f)))"

definition run_tcp ::
    "run_world \<Rightarrow> Config \<Rightarrow> TrustChecker \<Rightarrow> string option \<Rightarrow>
     run_effect list \<times> (string + running \<times> run_effect list)" where
  "run_tcp w cfg trust f =
     (case tcp_Listen w ''tcp'' (cf_Listen cfg) of
        (eff, Inl e) \<Rightarrow> (eff @ close_log f, Inl (''listen: '' @ e))
      | (eff, Inr u) \<Rightarrow>
          let g = gateway_New (gatewayPolicy (cf_Policy cfg)) (cf_Upstream cfg) (cf_DetectTimeout cfg)
                    (cf_TCPIdleTimeout cfg) (Some trust)
                    (untrustedProxyAction (cf_UntrustedProxyAction cfg))
                    (familyMismatch (cf_TCPFamilyMismatch cfg)) (cf_TCPMaxConnections cfg)
          in (eff @ [StartServe],
              Inr (RunTCP g (tcpHeaderVersion (cf_TCPHeaderVersion cfg)),
                   CloseListener (cf_Listen cfg) # close_log f)))"

definition runGateway ::
    "run_world \<Rightarrow> gop_format \<Rightarrow> Config \<Rightarrow>
     run_effect list \<times> (string + logger \<times> running \<times> run_effect list)" where
  "runGateway w fmt cfg =
     (case buildLogger (log_world.truncate w) cfg of
        Inl e \<Rightarrow> ([], Inl (''logger: '' @ e))
      | Inr (lg, f) \<Rightarrow>
          (case NewTrustChecker (cf_TrustedNetworks cfg) of
             Inl e \<Rightarrow> (open_log f @ close_log f, Inl e)
           | Inr trust \<Rightarrow>
               (case (if cf_Protocol cfg = ''udp'' then run_udp w fmt cfg trust f
                      else run_tcp w cfg trust f) of
                  (eff, Inl e) \<Rightarrow> (open_log f @ eff, Inl e)
                | (eff, Inr (r, closer)) \<Rightarrow> (open_log f @ eff, Inr (lg, r, closer)))))"

section \<open>The mappings invert the names\<close>

lemma gatewayPolicy_String [simp]: "gatewayPolicy (Policy_String p) = p"
  by (cases p) (simp_all add: gatewayPolicy_def)

lemma Policy_String_gatewayPolicy:
  "s \<in> {''use'', ''require'', ''reject''} \<Longrightarrow> Policy_String (gatewayPolicy s) = s"
  by (auto simp: gatewayPolicy_def)

lemma UntrustedAction_String_untrustedProxyAction:
  "s \<in> {''reject'', ''strip''} \<Longrightarrow> UntrustedAction_String (untrustedProxyAction s) = s"
  by (auto simp: untrustedProxyAction_def)

lemma FamilyMismatchAction_String_familyMismatch:
  "s \<in> {''reject'', ''unknown'', ''legacy''} \<Longrightarrow> FamilyMismatchAction_String (familyMismatch s) = s"
  by (auto simp: familyMismatch_def)

lemma OutputMode_String_udpHeaderMode:
  "s \<in> {''every_datagram'', ''first_datagram''} \<Longrightarrow> OutputMode_String (udpHeaderMode s) = s"
  by (auto simp: udpHeaderMode_def)

lemma tcpHeaderVersion_text:
  "s \<in> {''v1'', ''v2''} \<Longrightarrow> CHR ''v'' # show_nat (tcpHeaderVersion s) = s"
  by (auto simp: tcpHeaderVersion_def show_nat.simps digit_char_def char_of_eq_iff)

section \<open>What runs is what was configured\<close>

lemma runGateway_Inr:
  assumes "runGateway w fmt cfg = (eff, Inr (lg, r, closer))"
  obtains f trust eff' where "buildLogger (log_world.truncate w) cfg = Inr (lg, f)"
    "NewTrustChecker (cf_TrustedNetworks cfg) = Inr trust" "eff = open_log f @ eff'"
    "(if cf_Protocol cfg = ''udp'' then run_udp w fmt cfg trust f else run_tcp w cfg trust f) =
       (eff', Inr (r, closer))"
  using assms
  by (auto simp: runGateway_def split: sum.splits prod.splits)

text \<open>
  A setting as the running gateway itself prints it, where it keeps one: the specification that
  the mappings above have to meet. The trust checker keeps no text and is compared apart.
\<close>

fun effective :: "running \<Rightarrow> field \<Rightarrow> cval option" where
  "effective (RunTCP g v) f =
     (case f of
        FProtocol \<Rightarrow> Some (VStr ''tcp'')
      | FUpstream \<Rightarrow> Some (VStr (g_upstream g))
      | FPolicy \<Rightarrow> Some (VStr (Policy_String (g_policy g)))
      | FUntrustedProxyAction \<Rightarrow> Some (VStr (UntrustedAction_String (g_untrusted g)))
      | FDetectTimeout \<Rightarrow> Some (VDur (g_detectTimeout g))
      | FTCPIdleTimeout \<Rightarrow> Some (VDur (g_pipeIdleTimeout g))
      | FTCPHeaderVersion \<Rightarrow> Some (VStr (CHR ''v'' # show_nat v))
      | FTCPFamilyMismatch \<Rightarrow> Some (VStr (FamilyMismatchAction_String (g_mixedFamily g)))
      | FTCPMaxConnections \<Rightarrow> Some (VInt (g_maxConns g))
      | _ \<Rightarrow> None)"
| "effective (RunUDP g m) f =
     (case f of
        FProtocol \<Rightarrow> Some (VStr ''udp'')
      | FPolicy \<Rightarrow> Some (VStr (Policy_String (ug_policy g)))
      | FUntrustedProxyAction \<Rightarrow> Some (VStr (UntrustedAction_String (ug_untrusted g)))
      | FIdleTimeout \<Rightarrow> Some (VDur (ug_idleTimeout g))
      | FMaxSessions \<Rightarrow> Some (VInt (m_max m))
      | FMaxDatagramSize \<Rightarrow> Some (VInt (ug_maxDatagramSize g))
      | FUDPHeaderMode \<Rightarrow> Some (VStr (OutputMode_String (ug_outputMode g)))
      | _ \<Rightarrow> None)"

fun running_trust :: "running \<Rightarrow> TrustChecker option" where
  "running_trust (RunTCP g v) = g_trust g"
| "running_trust (RunUDP g m) = ug_trust g"

text \<open>Started from a validated configuration, the gateway has every setting it keeps.\<close>

lemma effective_configured:
  assumes "Validate cfg = Inr ()" and "runGateway w fmt cfg = (eff, Inr (lg, r, closer))"
  shows "(effective r f = Some v \<longrightarrow> v = value_of f cfg) \<and>
         (\<exists>t. NewTrustChecker (cf_TrustedNetworks cfg) = Inr t \<and> running_trust r = Some t)"
proof -
  note enums = Validate_enums [OF assms(1)]
  note names = Policy_String_gatewayPolicy [OF enums(1)]
    UntrustedAction_String_untrustedProxyAction [OF enums(2)] OutputMode_String_udpHeaderMode [OF enums(4)]
    tcpHeaderVersion_text [OF enums(5)] FamilyMismatchAction_String_familyMismatch [OF enums(6)]
  from assms(2) obtain lf trust eff'
    where t: "NewTrustChecker (cf_TrustedNetworks cfg) = Inr trust"
      and r: "(if cf_Protocol cfg = ''udp'' then run_udp w fmt cfg trust lf else run_tcp w cfg trust lf) =
        (eff', Inr (r, closer))"
    by (rule runGateway_Inr)
  show ?thesis
  proof (cases "cf_Protocol cfg = ''udp''")
    case True
    with r t show ?thesis
      by (cases f)
        (auto simp: run_udp_def New_def bindE_def names NewUDPSessionManager_def split: sum.splits)
  next
    case False
    with enums(3) have "cf_Protocol cfg = ''tcp''" by simp
    with r t show ?thesis
      by (cases f)
        (auto simp: run_tcp_def gateway_New_def names Let_def split: sum.splits prod.splits)
  qed
qed

section \<open>The limit Validate does not set\<close>

text \<open>
  C36. A validated configuration may still ask for a UDP datagram size for which \<open>Serve\<close> cannot
  make its buffer: the gateway starts, and then \<open>Serve\<close> panics before the first read exactly
  when the size is \<open>2 ^ 48\<close> or more, the largest 64-bit value included, for which the buffer's
  length wraps around to a negative one. \<open>Validate\<close> accepts every such size.
\<close>

theorem datagram_limit_bound:
  assumes "Validate cfg = Inr ()" and "runGateway w fmt cfg = (eff, Inr (lg, RunUDP g m0, closer))"
    and "cf_MaxDatagramSize cfg < 2 ^ 63" and "0 \<le> n"
  shows "(snd (snd (udp_Serve g m rs)) = ServePanic \<longleftrightarrow> 2 ^ 48 \<le> cf_MaxDatagramSize cfg) \<and>
         Validate (cfg\<lparr>cf_MaxDatagramSize := n\<rparr>) = Inr ()"
proof -
  have "ug_maxDatagramSize g = cf_MaxDatagramSize cfg"
    using effective_configured [OF assms(1,2), of FMaxDatagramSize "VInt (ug_maxDatagramSize g)"] by simp
  moreover have "Validate (cfg\<lparr>cf_MaxDatagramSize := n\<rparr>) = Inr ()"
    using assms(4,1) by (rule Validate_datagram_size)
  moreover have "snd (snd (udp_Serve g m rs)) = ServePanic \<longleftrightarrow> recv_buffer (ug_maxDatagramSize g) = None"
    using serve_loop_no_panic [of g m rs] by (simp add: udp_Serve_def split: option.split)
  ultimately show ?thesis using recv_buffer_None [OF assms(3)] by simp
qed

section \<open>Resources\<close>

definition net_of :: "run_effect \<Rightarrow> run_effect \<Rightarrow> run_effect list \<Rightarrow> int" where
  "net_of opened closed eff = int (count_list eff opened) - int (count_list eff closed)"

text \<open>As many closes as opens of every file and of every listener.\<close>

definition balanced :: "run_effect list \<Rightarrow> bool" where
  "balanced eff \<longleftrightarrow>
     (\<forall>p. net_of (OpenLog p) (CloseLog p) eff = 0 \<and> net_of (OpenListener p) (CloseListener p) eff = 0)"

lemma count_list_append: "count_list (xs @ ys) x = count_list xs x + count_list ys x"
  by (induction xs) auto

lemma net_of_simps [simp]:
  "net_of a b [] = 0"
  "net_of a b (x # xs) = (if x = a then 1 else 0) - (if x = b then 1 else 0) + net_of a b xs"
  "net_of a b (xs @ ys) = net_of a b xs + net_of a b ys"
  by (auto simp: net_of_def count_list_append)

lemma net_log [simp]:
  "net_of (OpenLog p) (CloseLog p) (open_log f) = (if f = Some p then 1 else 0)"
  "net_of (OpenLog p) (CloseLog p) (close_log f) = (if f = Some p then -1 else 0)"
  "net_of (OpenListener p) (CloseListener p) (open_log f) = 0"
  "net_of (OpenListener p) (CloseListener p) (close_log f) = 0"
  by (cases f; simp add: open_log_def close_log_def)+

lemma no_serve_log [simp]: "count_list (open_log f) StartServe = 0" "count_list (close_log f) StartServe = 0"
  by (cases f; simp add: open_log_def close_log_def)+

text \<open>A dial leaves a connection open exactly when it reports none of the errors.\<close>

lemma tcp_Dial_open:
  "tcp_Dial w network address = (eff, r) \<Longrightarrow>
   net_of (OpenConn address) (CloseConn address) eff = (case r of Inl e \<Rightarrow> 0 | Inr u \<Rightarrow> 1)"
  by (auto simp: tcp_Dial_def split: sum.splits if_splits)

text \<open>
  Nothing leaks and nothing starts twice: when starting fails, whatever the reason, every
  file and listener that was opened has been closed and no accept loop runs; when it succeeds,
  exactly one loop runs and the returned closer releases exactly what is still open.
\<close>

lemma runGateway_releases:
  "case runGateway w fmt cfg of
     (eff, Inl e) \<Rightarrow> balanced eff \<and> StartServe \<notin> set eff
   | (eff, Inr (lg, r, closer)) \<Rightarrow> balanced (eff @ closer) \<and> count_list eff StartServe = 1"
proof -
  have serve: "StartServe \<notin> set eff \<longleftrightarrow> count_list eff StartServe = 0" for eff
    by (simp add: count_list_0_iff)
  show ?thesis
    unfolding serve
    by (auto simp: runGateway_def run_udp_def run_tcp_def tcp_Listen_def balanced_def Let_def
        count_list_append split: sum.splits prod.splits if_splits)
qed

lemma truncate_world [simp]:
  "lw_mkdir (log_world.truncate w) = lw_mkdir w" "lw_open (log_world.truncate w) = lw_open w"
  by (simp_all add: log_world.defs)

lemma buildLogger_no_error:
  assumes "lw_mkdir w = (\<lambda>_. None)" and "lw_open w = (\<lambda>_. None)"
  shows "\<exists>lg f. buildLogger w cfg = Inr (lg, f)"
  using assms by (simp add: buildLogger_def Let_def)

text \<open>
  C40. A validated configuration can only fail to start because of the machine it starts on: a
  log file or directory that cannot be opened, an address that cannot be listened on or, for
  UDP, resolved; never because of the configuration's own content.
\<close>

theorem validated_starts:
  assumes "Validate cfg = Inr ()"
    and "lw_mkdir w = (\<lambda>_. None)" and "lw_open w = (\<lambda>_. None)"
    and "rw_listen w ''tcp'' (cf_Listen cfg) = Inr True"
    and "rw_resolve_udp w (cf_Upstream cfg) = Inr up" and "rw_listen_udp w (cf_Listen cfg) = Inr local"
  shows "\<exists>eff lg r closer. runGateway w fmt cfg = (eff, Inr (lg, r, closer))"
proof -
  obtain t where t: "NewTrustChecker (cf_TrustedNetworks cfg) = Inr t"
    using Validate_networks [OF assms(1)] by blast
  obtain lg f where b: "buildLogger (log_world.truncate w) cfg = Inr (lg, f)"
    using buildLogger_no_error [of "log_world.truncate w" cfg] assms(2,3) by auto
  show ?thesis
    by (cases "cf_Protocol cfg = ''udp''")
      (simp_all add: runGateway_def b t run_udp_def run_tcp_def New_def tcp_Listen_def Let_def
        assms(4-6))
qed

section \<open>An instance\<close>

definition open_world :: run_world where
  "open_world = log_world.extend free_disk
     \<lparr>rw_listen = (\<lambda>_ _. Inr True), rw_dial = (\<lambda>_ _. Inr True),
      rw_resolve_udp = (\<lambda>_. Inr (UDPAddr (Some [10, 0, 0, 1]) 53 [])),
      rw_listen_udp = (\<lambda>_. Inr (UDPAddr (Some [0, 0, 0, 0]) 9000 []))\<rparr>"

lemma open_world_simps [simp]:
  "lw_mkdir open_world = (\<lambda>_. None)" "lw_open open_world = (\<lambda>_. None)"
  "rw_listen open_world = (\<lambda>_ _. Inr True)"
  "rw_resolve_udp open_world = (\<lambda>_. Inr (UDPAddr (Some [10, 0, 0, 1]) 53 []))"
  "rw_listen_udp open_world = (\<lambda>_. Inr (UDPAddr (Some [0, 0, 0, 0]) 9000 []))"
  by (simp_all add: open_world_def log_world.defs free_disk_def)

definition default_gateway :: Gateway where
  "default_gateway = gateway_New PolicyUse ''127.0.0.1:9001'' 1000000000 300000000000
     (Some \<lparr>nets = [], all_trusted = True\<rparr>) UntrustedReject FamilyMismatchReject 4096"

lemma default_run:
  "runGateway open_world ref_format (defaults_Apply zero_config) =
     ([OpenListener '':9000'', StartServe],
      Inr (ConsoleOnly (new_sink Stderr ''info'' ''text''), RunTCP default_gateway 2,
           [CloseListener '':9000'']))"
  by (simp add: runGateway_def buildLogger_def NewTrustChecker_def run_tcp_def tcp_Listen_def
      default_gateway_def gatewayPolicy_def untrustedProxyAction_def familyMismatch_def
      tcpHeaderVersion_def open_log_def close_log_def Let_def)

theorem validated_starts_witness:
  "\<exists>eff lg r closer.
     runGateway open_world ref_format (defaults_Apply zero_config) = (eff, Inr (lg, r, closer))"
  by (rule validated_starts [OF defaults_valid]) simp_all

text \<open>The defaults over UDP with the largest size a flag can give.\<close>

definition huge_config :: Config where
  "huge_config = (defaults_Apply zero_config)\<lparr>cf_Protocol := ''udp'', cf_MaxDatagramSize := 2 ^ 63 - 1\<rparr>"

theorem datagram_limit_bound_witness:
  "\<exists>eff lg g m closer.
     runGateway open_world ref_format huge_config = (eff, Inr (lg, RunUDP g m, closer)) \<and>
     snd (snd (udp_Serve g m [])) = ServePanic"
proof -
  have v: "Validate huge_config = Inr ()"
    by (simp add: huge_config_def Validate_def validLevel_def validFormat_def)
  have udp: "cf_Protocol huge_config = ''udp''" by (simp add: huge_config_def)
  have "\<exists>eff lg r closer. runGateway open_world ref_format huge_config = (eff, Inr (lg, r, closer))"
    by (rule validated_starts [OF v]) simp_all
  then obtain eff lg r closer where
    started: "runGateway open_world ref_format huge_config = (eff, Inr (lg, r, closer))" by blast
  moreover from started udp obtain g m where r: "r = RunUDP g m"
    by (rule_tac runGateway_Inr [OF started]) (auto simp: run_udp_def split: sum.splits)
  ultimately show ?thesis
    using datagram_limit_bound [OF v started [unfolded r], of 0 m "[]"] by (auto simp: huge_config_def)
qed

end
