(* ===== verification/Service.thy ===== *)
theory Service
  imports Runner
begin

text \<open>
  \<open>service_program.go\<close>: the gateway as a system service. After \<open>Start\<close> three goroutines share
  the error channel, the \<open>done\<close> channel and the listener: the one running \<open>Serve\<close>, the monitor,
  and the service manager's call of \<open>Stop\<close>. The model is their interleaving.
\<close>

section \<open>The state\<close>

text \<open>
  The monitor: waiting on \<open>errc\<close>, holding the result it received, past \<open>close(done)\<close>, or
  returned. \<open>Stop\<close>: not called, inside \<open>closer()\<close> with the listener closed, selecting, or returned.
\<close>

datatype monitor_pc = Waiting | Received "string option" | Announced "string option" | MonitorGone

datatype stop_pc = NotCalled | StopClosing | StopWaiting | StopReturned

text \<open>
  \<open>sv_serve\<close> is \<open>Serve\<close>'s result once it has returned; \<open>sv_errc\<close> is the buffered channel of
  capacity one; \<open>sv_exit\<close> is the status of a process that has ended.
\<close>

record svc =
  sv_listening :: bool
  sv_serve :: "string option option"
  sv_errc :: "string option option"
  sv_done :: bool
  sv_monitor :: monitor_pc
  sv_stop :: stop_pc
  sv_exit :: "int option"

text \<open>The state \<open>Start\<close> leaves when \<open>runGateway\<close> succeeded; otherwise the process exits.\<close>

definition svc_started :: svc where
  "svc_started = \<lparr>sv_listening = True, sv_serve = None, sv_errc = None, sv_done = False,
                  sv_monitor = Waiting, sv_stop = NotCalled, sv_exit = None\<rparr>"

definition svc_Start :: "string + 'r \<Rightarrow> svc" where
  "svc_Start r =
     (case r of
        Inl e \<Rightarrow> svc_started\<lparr>sv_listening := False, sv_exit := Some 1\<rparr>
      | Inr x \<Rightarrow> svc_started)"

section \<open>The steps\<close>

text \<open>
  \<open>Serve\<close> returns nil only on a closed listener, and an error at any time; its goroutine puts
  the result into the channel. The last step is the process's own exit, once \<open>Run\<close> has seen
  \<open>Stop\<close> return. That \<open>closer()\<close> returns is plain for TCP, and for UDP the subject of theory
  Udp_Shutdown. \<open>late\<close> is whether the ten seconds of \<open>Stop\<close> may pass.
\<close>

inductive svc_step :: "bool \<Rightarrow> svc \<Rightarrow> svc \<Rightarrow> bool" for late :: bool where
  serve_closed:
    "sv_exit s = None \<Longrightarrow> sv_serve s = None \<Longrightarrow> \<not> sv_listening s \<Longrightarrow>
     svc_step late s (s\<lparr>sv_serve := Some None, sv_errc := Some None\<rparr>)"
| serve_fails:
    "sv_exit s = None \<Longrightarrow> sv_serve s = None \<Longrightarrow>
     svc_step late s (s\<lparr>sv_serve := Some (Some e), sv_errc := Some (Some e)\<rparr>)"
| receive:
    "sv_exit s = None \<Longrightarrow> sv_monitor s = Waiting \<Longrightarrow> sv_errc s = Some r \<Longrightarrow>
     svc_step late s (s\<lparr>sv_errc := None, sv_monitor := Received r\<rparr>)"
| announce:
    "sv_exit s = None \<Longrightarrow> sv_monitor s = Received r \<Longrightarrow>
     svc_step late s (s\<lparr>sv_done := True, sv_monitor := Announced r\<rparr>)"
| fatal:
    "sv_exit s = None \<Longrightarrow> sv_monitor s = Announced (Some e) \<Longrightarrow>
     svc_step late s (s\<lparr>sv_exit := Some 1\<rparr>)"
| monitor_ends:
    "sv_exit s = None \<Longrightarrow> sv_monitor s = Announced None \<Longrightarrow>
     svc_step late s (s\<lparr>sv_monitor := MonitorGone\<rparr>)"
| stop_closes:
    "sv_exit s = None \<Longrightarrow> sv_stop s = NotCalled \<Longrightarrow>
     svc_step late s (s\<lparr>sv_listening := False, sv_stop := StopClosing\<rparr>)"
| closer_returns:
    "sv_exit s = None \<Longrightarrow> sv_stop s = StopClosing \<Longrightarrow>
     svc_step late s (s\<lparr>sv_stop := StopWaiting\<rparr>)"
| stop_done:
    "sv_exit s = None \<Longrightarrow> sv_stop s = StopWaiting \<Longrightarrow> sv_done s \<Longrightarrow>
     svc_step late s (s\<lparr>sv_stop := StopReturned\<rparr>)"
| stop_late:
    "sv_exit s = None \<Longrightarrow> sv_stop s = StopWaiting \<Longrightarrow> late \<Longrightarrow>
     svc_step late s (s\<lparr>sv_stop := StopReturned\<rparr>)"
| run_returns:
    "sv_exit s = None \<Longrightarrow> sv_stop s = StopReturned \<Longrightarrow>
     svc_step late s (s\<lparr>sv_exit := Some 0\<rparr>)"

inductive_cases svc_stepE: "svc_step late s t"

text \<open>A run of a given number of steps.\<close>

abbreviation svc_run :: "bool \<Rightarrow> nat \<Rightarrow> svc \<Rightarrow> bool" where
  "svc_run late n s \<equiv> stepn (svc_step late) n svc_started s"

lemmas started = stepn_refl [of "svc_step late"] for late
lemmas stepped = stepn_more [of "svc_step late"] for late

section \<open>The invariant\<close>

fun monitor_result :: "monitor_pc \<Rightarrow> string option option" where
  "monitor_result Waiting = None"
| "monitor_result (Received r) = Some r"
| "monitor_result (Announced r) = Some r"
| "monitor_result MonitorGone = Some None"

fun announced :: "monitor_pc \<Rightarrow> bool" where
  "announced (Announced r) \<longleftrightarrow> True"
| "announced MonitorGone \<longleftrightarrow> True"
| "announced m \<longleftrightarrow> False"

lemma monitor_result_None [simp]:
  "monitor_result m = None \<longleftrightarrow> m = Waiting" "None = monitor_result m \<longleftrightarrow> m = Waiting"
  by (cases m; simp)+

text \<open>
  The result of \<open>Serve\<close> is in exactly one place: not yet there, in the channel, or with the
  monitor, which alone decides \<open>done\<close>.
\<close>

definition svc_inv :: "bool \<Rightarrow> svc \<Rightarrow> bool" where
  "svc_inv late s \<longleftrightarrow>
     (sv_serve s = (case sv_errc s of Some r \<Rightarrow> Some r | None \<Rightarrow> monitor_result (sv_monitor s))) \<and>
     (sv_errc s \<noteq> None \<longrightarrow> sv_monitor s = Waiting) \<and>
     (sv_done s \<longleftrightarrow> announced (sv_monitor s)) \<and>
     (sv_listening s \<longleftrightarrow> sv_stop s = NotCalled) \<and>
     (sv_serve s = Some None \<longrightarrow> \<not> sv_listening s) \<and>
     (sv_stop s = StopReturned \<longrightarrow> sv_done s \<or> late) \<and>
     (sv_exit s = Some 0 \<longrightarrow> sv_stop s = StopReturned) \<and>
     (\<forall>n. sv_exit s = Some n \<longrightarrow> n = 0 \<or> n = 1 \<and> (\<exists>e. sv_monitor s = Announced (Some e)))"

lemma svc_inv_step: "svc_step late s t \<Longrightarrow> svc_inv late s \<Longrightarrow> svc_inv late t"
  by (induction rule: svc_step.induct) (auto simp: svc_inv_def split: option.splits)

lemma svc_inv_started: "svc_inv late svc_started"
  by (simp add: svc_inv_def svc_started_def)

text \<open>Every goroutine is straight-line code: each step uses up one of at most eight.\<close>

definition svc_left :: "svc \<Rightarrow> nat" where
  "svc_left s =
     (if sv_exit s = None then 1 else 0) + (if sv_serve s = None then 1 else 0) +
     (case sv_monitor s of Waiting \<Rightarrow> 3 | Received r \<Rightarrow> 2 | Announced r \<Rightarrow> 1 | MonitorGone \<Rightarrow> 0) +
     (case sv_stop s of NotCalled \<Rightarrow> 3 | StopClosing \<Rightarrow> 2 | StopWaiting \<Rightarrow> 1 | StopReturned \<Rightarrow> 0)"

lemma svc_left_step: "svc_step late s t \<Longrightarrow> svc_left t < svc_left s"
  by (induction rule: svc_step.induct) (auto simp: svc_left_def split: monitor_pc.splits stop_pc.splits)

lemma svc_stuck_exited:
  assumes "svc_inv late s" and "\<nexists>t. svc_step late s t"
  shows "sv_exit s \<noteq> None"
proof
  assume run: "sv_exit s = None"
  note stuck = assms(2)
  consider "sv_stop s = NotCalled" | "sv_stop s = StopClosing" | "sv_stop s = StopWaiting" | "sv_stop s = StopReturned"
    by (cases "sv_stop s")
  then show False
  proof cases
    case 1
    with run stuck show False by (blast intro: svc_step.stop_closes)
  next
    case 2
    with run stuck show False by (blast intro: svc_step.closer_returns)
  next
    case 4
    with run stuck show False by (blast intro: svc_step.run_returns)
  next
    case 3
    then have closed: "\<not> sv_listening s" using assms(1) by (simp add: svc_inv_def)
    show False
    proof (cases "sv_monitor s")
      case Waiting
      show False
      proof (cases "sv_serve s")
        case None
        with run closed stuck show False by (blast intro: svc_step.serve_closed)
      next
        case (Some r)
        with Waiting assms(1) have "sv_errc s = Some r"
          by (auto simp: svc_inv_def split: option.splits)
        with run Waiting stuck show False by (blast intro: svc_step.receive)
      qed
    next
      case (Received r)
      with run stuck show False by (blast intro: svc_step.announce)
    next
      case (Announced r)
      with assms(1) have "sv_done s" by (simp add: svc_inv_def)
      with run 3 stuck show False by (blast intro: svc_step.stop_done)
    next
      case MonitorGone
      with assms(1) have "sv_done s" by (simp add: svc_inv_def)
      with run 3 stuck show False by (blast intro: svc_step.stop_done)
    qed
  qed
qed

interpretation svc: finishing "svc_step late" "svc_inv late" svc_left "\<lambda>s. sv_exit s \<noteq> None"
  for late
  by unfold_locales (fact svc_inv_step, rule svc_left_step, assumption, rule svc_stuck_exited)

text \<open>
  C26. The exit status of the service: the process ends with status 1 only after \<open>Serve\<close> has
  failed, so that the service manager's recovery runs, with status 0 only after \<open>Stop\<close> has
  returned, and with no other. \<open>Serve\<close>'s one result is received exactly once: it is in the
  channel or with the monitor, never in both. A listener closed by nobody keeps the gateway
  serving.
\<close>

theorem service_status:
  assumes "svc_run late n s"
  shows "(sv_exit s = Some 1 \<longrightarrow> (\<exists>e. sv_serve s = Some (Some e))) \<and>
         (sv_exit s = Some 0 \<longrightarrow> sv_stop s = StopReturned) \<and>
         sv_exit s \<in> {None, Some 0, Some 1} \<and>
         (sv_errc s \<noteq> None \<longrightarrow> sv_monitor s = Waiting) \<and>
         (sv_stop s = NotCalled \<longrightarrow> sv_serve s \<noteq> Some None)"
proof -
  have "svc_inv late s" by (rule svc.inv_stepn [OF assms svc_inv_started])
  then show ?thesis
    by (cases "sv_exit s") (auto simp: svc_inv_def split: option.splits)
qed

text \<open>
  C25. The shutdown always ends, without help of the ten-second limit: every run of the service
  is at most eight steps long, whatever the order of the goroutines, and one that cannot go on
  has exited; so no order of \<open>Stop\<close>, the monitor and \<open>Serve\<close> deadlocks.
\<close>

theorem service_terminates:
  assumes "svc_run late n s"
  shows "n \<le> 8 \<and> ((\<nexists>t. svc_step late s t) \<longrightarrow> sv_exit s \<noteq> None)"
  using svc.stepn_bound [OF assms svc_inv_started] svc.stuck_stepn [OF assms svc_inv_started]
  by (simp add: svc_started_def svc_left_def)

text \<open>A run: \<open>Stop\<close>, the nil result, its announcement, and the exit.\<close>

lemma stopped_run:
  "svc_run False 7 (svc_started\<lparr>sv_listening := False, sv_serve := Some None, sv_done := True,
     sv_monitor := Announced None, sv_stop := StopReturned, sv_exit := Some 0\<rparr>)"
proof -
  let ?s1 = "svc_started\<lparr>sv_listening := False, sv_stop := StopClosing\<rparr>"
  let ?s2 = "?s1\<lparr>sv_serve := Some None, sv_errc := Some None\<rparr>"
  let ?s3 = "?s2\<lparr>sv_errc := None, sv_monitor := Received None\<rparr>"
  let ?s4 = "?s3\<lparr>sv_stop := StopWaiting\<rparr>"
  let ?s5 = "?s4\<lparr>sv_done := True, sv_monitor := Announced None\<rparr>"
  let ?s6 = "?s5\<lparr>sv_stop := StopReturned\<rparr>"
  note at = svc_started_def
  have 1: "svc_run False (Suc 0) ?s1"
    by (rule stepped [OF started stop_closes]) (simp_all add: at)
  have 2: "svc_run False (Suc (Suc 0)) ?s2"
    by (rule stepped [OF 1 serve_closed]) (simp_all add: at)
  have 3: "svc_run False (Suc (Suc (Suc 0))) ?s3"
    by (rule stepped [OF 2 receive]) (simp_all add: at)
  have 4: "svc_run False (Suc (Suc (Suc (Suc 0)))) ?s4"
    by (rule stepped [OF 3 closer_returns]) (simp_all add: at)
  have 5: "svc_run False (Suc (Suc (Suc (Suc (Suc 0))))) ?s5"
    by (rule stepped [OF 4 announce]) (simp_all add: at)
  have 6: "svc_run False (Suc (Suc (Suc (Suc (Suc (Suc 0)))))) ?s6"
    by (rule stepped [OF 5 stop_done]) (simp_all add: at)
  have 7: "svc_run False (Suc (Suc (Suc (Suc (Suc (Suc (Suc 0))))))) (?s6\<lparr>sv_exit := Some 0\<rparr>)"
    by (rule stepped [OF 6 run_returns]) (simp_all add: at)
  then show ?thesis by (simp add: at eval_nat_numeral)
qed

theorem service_status_witness:
  "\<exists>s. svc_run False 7 s \<and> sv_exit s = Some 0 \<and> sv_stop s = StopReturned"
proof (intro exI conjI)
  let ?s = "svc_started\<lparr>sv_listening := False, sv_serve := Some None, sv_done := True,
     sv_monitor := Announced None, sv_stop := StopReturned, sv_exit := Some 0\<rparr>"
  show "svc_run False 7 ?s" by (rule stopped_run)
  show "sv_exit ?s = Some 0" by simp
  then show "sv_stop ?s = StopReturned" using service_status [OF stopped_run] by blast
qed

theorem service_terminates_witness:
  "\<exists>s. svc_run False 7 s \<and> ((\<nexists>t. svc_step False s t) \<longrightarrow> sv_exit s \<noteq> None)"
  using service_terminates [OF stopped_run] stopped_run by blast

end
