(* ===== verification/I18n.thy ===== *)
theory I18n
  imports Go_Std
begin

text \<open>
  \<open>internal/i18n/i18n.go\<close>: locale detection and the message catalogs. The embedded locale
  files as \<open>yaml.Unmarshal\<close> reads them, and \<open>fmt.Sprintf\<close> on a message, are parameters.
\<close>

type_synonym Locale = string

definition LocaleEN :: Locale where
  "LocaleEN = ''en''"

definition LocaleZhCN :: Locale where
  "LocaleZhCN = ''zh-CN''"

definition LocaleZhTW :: Locale where
  "LocaleZhTW = ''zh-TW''"

text \<open>The keys of \<open>localeData\<close>.\<close>

definition supported :: "Locale list" where
  "supported = [LocaleEN, LocaleZhCN, LocaleZhTW]"

section \<open>Detection\<close>

text \<open>
  \<open>strings.ToLower\<close> as far as a comparison with ASCII text can see it: ASCII letters, and the
  two other characters whose lower case is ASCII (U+0130 and U+212A). The bytes of every other
  character are left alone; their lower case is never ASCII.
\<close>

fun ascii_lower :: "string \<Rightarrow> string" where
  "ascii_lower [] = []"
| "ascii_lower (c # cs) =
     (if c = CHR 0xC4 \<and> take 1 cs = [CHR 0xB0] then CHR ''i'' # ascii_lower (drop 1 cs)
      else if c = CHR 0xE2 \<and> take 2 cs = [CHR 0x84, CHR 0xAA] then CHR ''k'' # ascii_lower (drop 2 cs)
      else (if 65 \<le> (of_char c :: nat) \<and> (of_char c :: nat) \<le> 90
            then char_of ((of_char c :: nat) + 32) else c) # ascii_lower cs)"

definition normalizeLocale :: "string \<Rightarrow> Locale" where
  "normalizeLocale s0 =
     (let s = TrimSpace s0;
          s = (case cut_at (CHR ''.'') s of Some (a, b) \<Rightarrow> a | None \<Rightarrow> s);
          lower = ascii_lower (map (\<lambda>c. if c = CHR ''_'' then CHR ''-'' else c) s)
      in if lower = ''en'' \<or> has_prefix lower ''en-'' then LocaleEN
         else if lower = ''zh-tw'' \<or> lower = ''zh-hk'' then LocaleZhTW
         else if lower = ''zh'' \<or> lower = ''zh-cn'' \<or> has_prefix lower ''zh-'' then LocaleZhCN
         else LocaleEN)"

text \<open>\<open>env\<close> is \<open>os.Getenv\<close>, empty for an unset variable.\<close>

fun first_set :: "(string \<Rightarrow> string) \<Rightarrow> string list \<Rightarrow> string option" where
  "first_set env [] = None"
| "first_set env (v # vs) = (if env v \<noteq> [] then Some (env v) else first_set env vs)"

definition DetectLocale :: "(string \<Rightarrow> string) \<Rightarrow> string \<Rightarrow> Locale" where
  "DetectLocale env explicit =
     (if explicit \<noteq> [] then normalizeLocale explicit
      else case first_set env [''LANG'', ''LC_ALL''] of
             Some v \<Rightarrow> normalizeLocale v
           | None \<Rightarrow> LocaleEN)"

section \<open>Catalogs\<close>

text \<open>The messages, and the English catalog behind them unless this is the English one.\<close>

datatype Catalog = Catalog (messages: "string \<rightharpoonup> string") (fallback: "Catalog option")

text \<open>
  \<open>parsed l\<close> is what unmarshalling the embedded file of the supported locale \<open>l\<close> gives. The
  recursion of \<open>Load\<close> through \<open>LoadEN\<close> is one deep: for English no fallback is loaded.
\<close>

type_synonym locale_files = "Locale \<Rightarrow> string + (string \<rightharpoonup> string)"

definition load_messages :: "locale_files \<Rightarrow> Locale \<Rightarrow> string + (string \<rightharpoonup> string)" where
  "load_messages parsed locale' =
     (case parsed locale' of
        Inl e \<Rightarrow> Inl (''parse locale '' @ locale' @ '': '' @ e)
      | Inr msgs \<Rightarrow> Inr msgs)"

definition LoadEN :: "locale_files \<Rightarrow> Catalog" where
  "LoadEN parsed =
     (case load_messages parsed LocaleEN of
        Inl e \<Rightarrow> Catalog (\<lambda>_. None) None
      | Inr msgs \<Rightarrow> Catalog msgs None)"

definition Load :: "locale_files \<Rightarrow> Locale \<Rightarrow> string + Catalog" where
  "Load parsed locale0 =
     (let locale' = (if locale0 \<in> set supported then locale0 else LocaleEN)
      in bindE (load_messages parsed locale') (\<lambda>msgs.
           Inr (Catalog msgs (if locale' \<noteq> LocaleEN then Some (LoadEN parsed) else None))))"

text \<open>\<open>sprintf\<close> is applied only when there are arguments.\<close>

fun T :: "(string \<Rightarrow> 'a list \<Rightarrow> string) \<Rightarrow> Catalog \<Rightarrow> string \<Rightarrow> 'a list \<Rightarrow> string" where
  "T sprintf (Catalog ms fb) key args =
     (case ms key of
        Some msg \<Rightarrow> if args \<noteq> [] then sprintf msg args else msg
      | None \<Rightarrow>
          (case fb of
             Some c \<Rightarrow> T sprintf c key args
           | None \<Rightarrow> ''[missing:'' @ key @ '']''))"

definition Keys :: "Catalog \<Rightarrow> string set" where
  "Keys c = dom (messages c)"

section \<open>Lemmas\<close>

lemma normalizeLocale_supported: "normalizeLocale s \<in> set supported"
  by (simp add: normalizeLocale_def supported_def Let_def)

lemma DetectLocale_supported: "DetectLocale env x \<in> set supported"
  by (auto simp: DetectLocale_def normalizeLocale_supported split: option.splits)
    (simp add: supported_def)

text \<open>Text that begins and ends with visible ASCII has nothing to trim.\<close>

definition visible :: "char \<Rightarrow> bool" where
  "visible c \<longleftrightarrow> 32 < (of_char c :: nat) \<and> (of_char c :: nat) < 127"

lemma space_seqs_ends:
  "list_all (\<lambda>p. p \<noteq> [] \<and> \<not> visible (hd p) \<and> \<not> visible (last p)) space_seqs"
  by (simp add: space_seqs_def utf8_3_def visible_def upt_rec of_char_of)

lemma trim_left_visible:
  assumes "s \<noteq> []" and "visible (hd s)" and "list_all (\<lambda>p. p \<noteq> [] \<and> \<not> visible (hd p)) seqs"
  shows "trim_left seqs n s = s"
proof (cases n)
  case (Suc m)
  have "\<not> has_prefix s p" if "p \<in> set seqs" for p
    using assms that by (cases p; cases s) (auto simp: has_prefix_def list_all_iff)
  then have "find (\<lambda>p. has_prefix s p) seqs = None" by (simp add: find_None_iff)
  with Suc show ?thesis by simp
qed simp

lemma TrimSpace_visible:
  assumes "s \<noteq> []" and "visible (hd s)" and "visible (last s)"
  shows "TrimSpace s = s"
proof -
  have front: "list_all (\<lambda>p. p \<noteq> [] \<and> \<not> visible (hd p)) space_seqs"
    and rear: "list_all (\<lambda>p. p \<noteq> [] \<and> \<not> visible (hd p)) (map rev space_seqs)"
    using space_seqs_ends by (auto simp: list_all_iff hd_rev)
  have "trim_left space_seqs n s = s" for n
    by (rule trim_left_visible [OF assms(1,2) front])
  moreover have "trim_left (map rev space_seqs) n (rev s) = rev s" for n
    using assms by (intro trim_left_visible [OF _ _ rear]) (simp_all add: hd_rev)
  ultimately show ?thesis by (simp add: TrimSpace_def Let_def)
qed

lemmas locale_names = supported_def LocaleEN_def LocaleZhCN_def LocaleZhTW_def

lemma supported_cases:
  assumes "l \<in> set supported"
  obtains "l = ''en''" | "l = ''zh-CN''" | "l = ''zh-TW''"
  using assms by (auto simp: locale_names)

lemma lowered_names:
  "ascii_lower ''en'' = ''en''" "ascii_lower ''zh-CN'' = ''zh-cn''" "ascii_lower ''zh-TW'' = ''zh-tw''"
  by (simp_all add: char_of_eq_iff)

lemma trimmed_names:
  "TrimSpace ''en'' = ''en''" "TrimSpace ''zh-CN'' = ''zh-CN''" "TrimSpace ''zh-TW'' = ''zh-TW''"
  by (rule TrimSpace_visible; simp add: visible_def)+

lemma supported_fixed:
  assumes "l \<in> set supported"
  shows "normalizeLocale l = l"
  using assms
  by (cases rule: supported_cases)
    (simp_all add: normalizeLocale_def trimmed_names lowered_names Let_def locale_names
      has_prefix_def del: ascii_lower.simps)

text \<open>
  A language the configuration accepts is the language shown: the names validation allows
  are fixed points of the detection, so \<open>Load\<close> picks exactly that catalog; and whatever is
  asked for, the detection ends in a language there is a catalog for.
\<close>

theorem DetectLocale_sound:
  "DetectLocale env x \<in> set supported \<and>
   (x \<in> set supported \<longrightarrow> DetectLocale env x = x)"
proof
  show "DetectLocale env x \<in> set supported" by (rule DetectLocale_supported)
  show "x \<in> set supported \<longrightarrow> DetectLocale env x = x"
    by (auto simp: DetectLocale_def supported_fixed elim: supported_cases)
qed

theorem DetectLocale_sound_witness:
  "DetectLocale (\<lambda>v. ''C'') ''zh-TW'' = ''zh-TW''"
  using DetectLocale_sound [of "\<lambda>v. ''C''" "''zh-TW''"]
  by (simp add: locale_names)

text \<open>
  Translation: a loaded catalog shows a message of its own language where there is one, an
  English one where there is not, and the bracketed key where English has none either, also
  when the English file itself cannot be read.
\<close>

theorem T_falls_back:
  assumes "Load parsed l = Inr c" and "l \<in> set supported"
  shows "\<exists>ms. parsed l = Inr ms \<and>
    T sprintf c key args =
      (let en = (case parsed LocaleEN of Inl e \<Rightarrow> (\<lambda>_. None) | Inr m \<Rightarrow> m);
           shown = (\<lambda>msg. if args = [] then msg else sprintf msg args)
       in case ms key of
            Some msg \<Rightarrow> shown msg
          | None \<Rightarrow> (case en key of Some msg \<Rightarrow> shown msg | None \<Rightarrow> ''[missing:'' @ key @ '']''))"
proof -
  obtain ms where ms: "parsed l = Inr ms"
    and c: "c = Catalog ms (if l \<noteq> LocaleEN then Some (LoadEN parsed) else None)"
    using assms by (auto simp: Load_def Let_def load_messages_def split: sum.splits)
  show ?thesis
    by (rule exI [of _ ms], cases "l = LocaleEN"; cases "parsed LocaleEN"; cases "ms key")
      (use ms in \<open>auto simp: c LoadEN_def load_messages_def Let_def split: option.split\<close>)
qed

theorem T_falls_back_witness:
  "T (\<lambda>m (a :: string list). m) (Catalog [''a'' \<mapsto> ''yi''] (Some (Catalog [''b'' \<mapsto> ''two''] None)))
     ''b'' [] = ''two''"
proof -
  let ?parsed = "(\<lambda>l. Inr (if l = LocaleEN then [''b'' \<mapsto> ''two''] else [''a'' \<mapsto> ''yi'']))
    :: locale_files"
  have l: "Load ?parsed LocaleZhCN =
      Inr (Catalog [''a'' \<mapsto> ''yi''] (Some (Catalog [''b'' \<mapsto> ''two''] None)))"
    by (simp add: Load_def LoadEN_def load_messages_def locale_names)
  show ?thesis
    using T_falls_back [OF l, of "\<lambda>m (a :: string list). m" "''b''" "[]"]
    by (simp add: supported_def LocaleEN_def LocaleZhCN_def LocaleZhTW_def)
qed

end
