(* ===== verification/Version.thy ===== *)
theory Version
  imports Go_Std
begin

text \<open>
  \<open>internal/version/version.go\<close>: the build's version strings. The variables set at link time
  are a record; \<open>debug.ReadBuildInfo\<close> and \<open>runtime\<close> are parameters.
\<close>

record build =
  v_Version :: string
  v_BuildNumber :: string
  v_Commit :: string
  v_BuildTime :: string

text \<open>The values of a build without link-time settings.\<close>

definition local_build :: build where
  "local_build = \<lparr>v_Version = ''dev'', v_BuildNumber = ''0'', v_Commit = ''unknown'',
                  v_BuildTime = ''unknown''\<rparr>"

text \<open>\<open>strings.Index\<close>: the text before the first occurrence of \<open>p\<close>.\<close>

fun before :: "string \<Rightarrow> string \<Rightarrow> string option" where
  "before p s =
     (if has_prefix s p then Some []
      else case s of [] \<Rightarrow> None | c # cs \<Rightarrow> map_option (Cons c) (before p cs))"

declare before.simps [simp del]

definition Short :: "build \<Rightarrow> string" where
  "Short b = (case before ''-dev.'' (v_Version b) of Some s \<Rightarrow> s | None \<Rightarrow> v_Version b)"

definition IsRelease :: "build \<Rightarrow> bool" where
  "IsRelease b \<longleftrightarrow> v_Version b \<noteq> ''dev'' \<and> before ''-dev.'' (v_Version b) = None"

text \<open>The settings of \<open>debug.BuildInfo\<close>, in order; a missing one is the empty string.\<close>

definition vcsSetting :: "(string \<times> string) list \<Rightarrow> string \<Rightarrow> string" where
  "vcsSetting settings key = (case map_of settings key of Some v \<Rightarrow> v | None \<Rightarrow> [])"

definition shortSha :: "string \<Rightarrow> string" where
  "shortSha s = (if length s > 7 then take 7 s else s)"

definition banner_commit :: "build \<Rightarrow> (string \<times> string) list option \<Rightarrow> string" where
  "banner_commit b info =
     (case info of
        None \<Rightarrow> v_Commit b
      | Some bi \<Rightarrow>
          if v_Commit b = [] \<or> v_Commit b = ''unknown'' then
            (let r = vcsSetting bi ''vcs.revision'' in if r \<noteq> [] then r else v_Commit b)
          else v_Commit b)"

definition banner_built :: "build \<Rightarrow> (string \<times> string) list option \<Rightarrow> string" where
  "banner_built b info =
     (case info of
        None \<Rightarrow> v_BuildTime b
      | Some bi \<Rightarrow>
          if v_BuildTime b = [] \<or> v_BuildTime b = ''unknown'' then vcsSetting bi ''vcs.time''
          else v_BuildTime b)"

definition banner_modified :: "(string \<times> string) list option \<Rightarrow> bool" where
  "banner_modified info = (case info of None \<Rightarrow> False | Some bi \<Rightarrow> vcsSetting bi ''vcs.modified'' = ''true'')"

text \<open>\<open>String\<close>: \<open>os_arch\<close> is \<open>runtime.GOOS\<close> and \<open>GOARCH\<close>, \<open>go\<close> is \<open>runtime.Version()\<close>.\<close>

definition version_String ::
    "build \<Rightarrow> (string \<times> string) list option \<Rightarrow> string \<times> string \<Rightarrow> string \<Rightarrow> string" where
  "version_String b info os_arch go =
     (let line = (\<lambda>k v. char_of (10 :: nat) # k @ v) in
      ''ProxyDge '' @ v_Version b
      @ line ''Build: '' (v_BuildNumber b)
      @ line ''Commit: '' (shortSha (banner_commit b info))
      @ line ''Built: '' (banner_built b info)
      @ line ''Modified: '' (if banner_modified info then ''true'' else ''false'')
      @ line ''Platform: '' (fst os_arch @ ''/'' @ snd os_arch)
      @ line ''Go: '' go)"

section \<open>Lemmas\<close>

lemma before_step: "\<not> has_prefix (c # cs) p \<Longrightarrow> before p (c # cs) = map_option (Cons c) (before p cs)"
  by (simp add: before.simps [of p "c # cs"])

lemma before_append:
  assumes "hd p \<notin> set a" and "p \<noteq> []"
  shows "before p (a @ p @ b) = Some a"
  using assms
proof (induction a)
  case Nil
  then show ?case by (simp add: before.simps)
next
  case (Cons x a)
  then have "\<not> has_prefix (x # a @ p @ b) p" by (cases p) (auto simp: has_prefix_def)
  with Cons show ?case by (simp add: before_step)
qed

text \<open>
  The short version of a development build is its SemVer core: cutting \<open>-dev.\<close> and the build
  number off restores exactly what they were appended to; a release keeps its whole version.
\<close>

theorem Short_core:
  "(CHR ''-'' \<notin> set core \<longrightarrow> Short (b\<lparr>v_Version := core @ ''-dev.'' @ n\<rparr>) = core \<and>
                          \<not> IsRelease (b\<lparr>v_Version := core @ ''-dev.'' @ n\<rparr>)) \<and>
   (IsRelease b \<longrightarrow> Short b = v_Version b)"
  using before_append [of "''-dev.''" core n] by (auto simp: Short_def IsRelease_def)

theorem Short_core_witness:
  "Short (local_build\<lparr>v_Version := ''v0.1.0'' @ ''-dev.'' @ ''1112''\<rparr>) = ''v0.1.0''"
  using Short_core [where core = "''v0.1.0''" and b = local_build and n = "''1112''"] by simp

lemma shortSha_length: "length (shortSha s) \<le> 7 \<and> take 7 s = shortSha s"
  by (simp add: shortSha_def)

end
