(* ===== verification/Config_Sources.thy ===== *)
theory Config_Sources
  imports Config
begin

text \<open>
  \<open>internal/config/config.go\<close>, the overlaying sources: environment, flags and the fields of a
  parsed file. Each is a list of settings, one per \<open>if\<close> block of the code and in its order;
  a setting is a field with the value the source provides for it, if any, or the error that
  ends the overlay.
\<close>

section \<open>Settings\<close>

fun put :: "field \<Rightarrow> cval \<Rightarrow> Config \<Rightarrow> Config" where
  "put FProtocol (VStr x) c = c\<lparr>cf_Protocol := x\<rparr>"
| "put FListen (VStr x) c = c\<lparr>cf_Listen := x\<rparr>"
| "put FUpstream (VStr x) c = c\<lparr>cf_Upstream := x\<rparr>"
| "put FPolicy (VStr x) c = c\<lparr>cf_Policy := x\<rparr>"
| "put FLang (VStr x) c = c\<lparr>cf_Lang := x\<rparr>"
| "put FTrustedNetworks (VList x) c = c\<lparr>cf_TrustedNetworks := x\<rparr>"
| "put FUntrustedProxyAction (VStr x) c = c\<lparr>cf_UntrustedProxyAction := x\<rparr>"
| "put FDetectTimeout (VDur x) c = c\<lparr>cf_DetectTimeout := x\<rparr>"
| "put FTCPIdleTimeout (VDur x) c = c\<lparr>cf_TCPIdleTimeout := x\<rparr>"
| "put FTCPHeaderVersion (VStr x) c = c\<lparr>cf_TCPHeaderVersion := x\<rparr>"
| "put FTCPFamilyMismatch (VStr x) c = c\<lparr>cf_TCPFamilyMismatch := x\<rparr>"
| "put FTCPMaxConnections (VInt x) c = c\<lparr>cf_TCPMaxConnections := x\<rparr>"
| "put FIdleTimeout (VDur x) c = c\<lparr>cf_IdleTimeout := x\<rparr>"
| "put FMaxSessions (VInt x) c = c\<lparr>cf_MaxSessions := x\<rparr>"
| "put FMaxDatagramSize (VInt x) c = c\<lparr>cf_MaxDatagramSize := x\<rparr>"
| "put FUDPHeaderMode (VStr x) c = c\<lparr>cf_UDPHeaderMode := x\<rparr>"
| "put FLogConsoleLevel (VStr x) c = c\<lparr>cf_LogConsoleLevel := x\<rparr>"
| "put FLogConsoleFormat (VStr x) c = c\<lparr>cf_LogConsoleFormat := x\<rparr>"
| "put FLogFilePath (VStr x) c = c\<lparr>cf_LogFilePath := x\<rparr>"
| "put FLogFileLevel (VStr x) c = c\<lparr>cf_LogFileLevel := x\<rparr>"
| "put FLogFileFormat (VStr x) c = c\<lparr>cf_LogFileFormat := x\<rparr>"
| "put _ _ c = c"

type_synonym setting = "field \<times> (string + cval option)"

text \<open>\<open>c.F = v; c.mark(f, src)\<close> for each provided value, stopping at the first error.\<close>

fun apply_settings :: "string \<Rightarrow> setting list \<Rightarrow> Config \<Rightarrow> string + Config" where
  "apply_settings src [] c = Inr c"
| "apply_settings src ((f, r) # rest) c =
     bindE r (\<lambda>ov. apply_settings src rest
       (case ov of None \<Rightarrow> c | Some v \<Rightarrow> mark (fname f) src (put f v c)))"

section \<open>Environment\<close>

definition envPrefix :: string where
  "envPrefix = ''PROXYDGE_''"

text \<open>\<open>os.LookupEnv\<close>; an empty value counts as absent.\<close>

definition env_val :: "(string \<rightharpoonup> string) \<Rightarrow> string \<Rightarrow> string option" where
  "env_val env key =
     (case env (envPrefix @ key) of None \<Rightarrow> None | Some v \<Rightarrow> if v = [] then None else Some v)"

definition env_str :: "(string \<rightharpoonup> string) \<Rightarrow> string \<Rightarrow> string + cval option" where
  "env_str env key = Inr (map_option VStr (env_val env key))"

text \<open>A typed value, or the error naming the variable.\<close>

definition env_typed ::
    "(string \<Rightarrow> cval option) \<Rightarrow> (string \<rightharpoonup> string) \<Rightarrow> string \<Rightarrow> string + cval option" where
  "env_typed parse env key =
     (case env_val env key of
        None \<Rightarrow> Inr None
      | Some v \<Rightarrow> (case parse v of None \<Rightarrow> Inl (envPrefix @ key @ ''='' @ v) | Some x \<Rightarrow> Inr (Some x)))"

definition env_dur :: "frac_fn \<Rightarrow> (string \<rightharpoonup> string) \<Rightarrow> string \<Rightarrow> string + cval option" where
  "env_dur frac = env_typed (\<lambda>v. map_option VDur (ParseDuration frac v))"

definition env_int :: "(string \<rightharpoonup> string) \<Rightarrow> string \<Rightarrow> string + cval option" where
  "env_int = env_typed (\<lambda>v. map_option VInt (Atoi v))"

definition parseCIDRList :: "string \<Rightarrow> string list" where
  "parseCIDRList s = filter (\<lambda>p. p \<noteq> []) (map TrimSpace (split_on (CHR '','') s))"

definition env_list :: "(string \<rightharpoonup> string) \<Rightarrow> string \<Rightarrow> string + cval option" where
  "env_list env key = Inr (map_option (\<lambda>v. VList (parseCIDRList v)) (env_val env key))"

definition env_settings :: "frac_fn \<Rightarrow> (string \<rightharpoonup> string) \<Rightarrow> setting list" where
  "env_settings frac env =
     [(FListen, env_str env ''LISTEN''),
      (FUpstream, env_str env ''UPSTREAM''),
      (FPolicy, env_str env ''POLICY''),
      (FDetectTimeout, env_dur frac env ''TCP_DETECT_TIMEOUT''),
      (FTCPIdleTimeout, env_dur frac env ''TCP_IDLE_TIMEOUT''),
      (FTCPHeaderVersion, env_str env ''TCP_HEADER_VERSION''),
      (FTCPFamilyMismatch, env_str env ''TCP_FAMILY_MISMATCH''),
      (FTCPMaxConnections, env_int env ''TCP_MAX_CONNECTIONS''),
      (FLang, env_str env ''LANG''),
      (FLogConsoleLevel, env_str env ''LOG_CONSOLE_LEVEL''),
      (FLogConsoleFormat, env_str env ''LOG_CONSOLE_FORMAT''),
      (FLogFilePath, env_str env ''LOG_FILE''),
      (FLogFileLevel, env_str env ''LOG_FILE_LEVEL''),
      (FLogFileFormat, env_str env ''LOG_FILE_FORMAT''),
      (FTrustedNetworks, env_list env ''TRUSTED_NETWORKS''),
      (FUntrustedProxyAction, env_str env ''UNTRUSTED_PROXY_ACTION''),
      (FProtocol, env_str env ''PROTOCOL''),
      (FIdleTimeout, env_dur frac env ''UDP_IDLE_TIMEOUT''),
      (FMaxSessions, env_int env ''UDP_MAX_SESSIONS''),
      (FMaxDatagramSize, env_int env ''UDP_MAX_DATAGRAM_SIZE''),
      (FUDPHeaderMode, env_str env ''UDP_HEADER_MODE'')]"

definition env_Apply :: "frac_fn \<Rightarrow> (string \<rightharpoonup> string) \<Rightarrow> Config \<Rightarrow> string + Config" where
  "env_Apply frac env = apply_settings ''env'' (env_settings frac env)"

section \<open>Flags\<close>

definition formal_flags :: "string \<rightharpoonup> flag_kind" where
  "formal_flags = map_of
     [(''listen'', KString),
      (''upstream'', KString),
      (''policy'', KString),
      (''config'', KString),
      (''tcp-detect-timeout'', KDuration),
      (''tcp-idle-timeout'', KDuration),
      (''tcp-header-version'', KString),
      (''tcp-family-mismatch'', KString),
      (''tcp-max-connections'', KInt),
      (''lang'', KString),
      (''log-console-level'', KString),
      (''log-console-format'', KString),
      (''log-file'', KString),
      (''log-file-level'', KString),
      (''log-file-format'', KString),
      (''trusted-networks'', KString),
      (''untrusted-proxy-action'', KString),
      (''protocol'', KString),
      (''udp-idle-timeout'', KDuration),
      (''udp-max-sessions'', KInt),
      (''udp-max-datagram-size'', KInt),
      (''udp-header-mode'', KString)]"

definition parseFlags :: "frac_fn \<Rightarrow> string list \<Rightarrow> flag_err + flag_values" where
  "parseFlags frac args = flag_Parse frac formal_flags args no_flags"

definition flag_str :: "flag_values \<Rightarrow> string \<Rightarrow> string + cval option" where
  "flag_str fv name = Inr (map_option VStr (fv_str fv name))"

definition flag_dur :: "flag_values \<Rightarrow> string \<Rightarrow> string + cval option" where
  "flag_dur fv name = Inr (map_option VDur (fv_dur fv name))"

definition flag_int :: "flag_values \<Rightarrow> string \<Rightarrow> string + cval option" where
  "flag_int fv name = Inr (map_option VInt (fv_int fv name))"

definition flag_list :: "flag_values \<Rightarrow> string \<Rightarrow> string + cval option" where
  "flag_list fv name = Inr (map_option (\<lambda>v. VList (parseCIDRList v)) (fv_str fv name))"

text \<open>The flags before and after \<open>-config\<close>, which sets the path and is not a field.\<close>

definition flag_settings1 :: "flag_values \<Rightarrow> setting list" where
  "flag_settings1 fv =
     [(FListen, flag_str fv ''listen''),
      (FUpstream, flag_str fv ''upstream''),
      (FPolicy, flag_str fv ''policy''),
      (FDetectTimeout, flag_dur fv ''tcp-detect-timeout''),
      (FTCPIdleTimeout, flag_dur fv ''tcp-idle-timeout''),
      (FTCPHeaderVersion, flag_str fv ''tcp-header-version''),
      (FTCPFamilyMismatch, flag_str fv ''tcp-family-mismatch''),
      (FTCPMaxConnections, flag_int fv ''tcp-max-connections''),
      (FLang, flag_str fv ''lang'')]"

definition flag_settings2 :: "flag_values \<Rightarrow> setting list" where
  "flag_settings2 fv =
     [(FLogConsoleLevel, flag_str fv ''log-console-level''),
      (FLogConsoleFormat, flag_str fv ''log-console-format''),
      (FLogFilePath, flag_str fv ''log-file''),
      (FLogFileLevel, flag_str fv ''log-file-level''),
      (FLogFileFormat, flag_str fv ''log-file-format''),
      (FTrustedNetworks, flag_list fv ''trusted-networks''),
      (FUntrustedProxyAction, flag_str fv ''untrusted-proxy-action''),
      (FProtocol, flag_str fv ''protocol''),
      (FIdleTimeout, flag_dur fv ''udp-idle-timeout''),
      (FMaxSessions, flag_int fv ''udp-max-sessions''),
      (FMaxDatagramSize, flag_int fv ''udp-max-datagram-size''),
      (FUDPHeaderMode, flag_str fv ''udp-header-mode'')]"

definition flag_Apply :: "flag_values \<Rightarrow> Config \<Rightarrow> string + Config" where
  "flag_Apply fv c =
     bindE (apply_settings ''flag'' (flag_settings1 fv) c) (\<lambda>c1.
       apply_settings ''flag'' (flag_settings2 fv)
         (case fv_str fv ''config'' of None \<Rightarrow> c1 | Some p \<Rightarrow> c1\<lparr>cf_ConfigPath := p\<rparr>))"

section \<open>The fields of a file\<close>

record yamlTCP =
  yt_DetectTimeout :: "string option"
  yt_IdleTimeout :: "string option"
  yt_HeaderVersion :: "string option"
  yt_FamilyMismatch :: "string option"
  yt_MaxConnections :: "int option"

record yamlUDP =
  yu_IdleTimeout :: "string option"
  yu_MaxSessions :: "int option"
  yu_MaxDatagramSize :: "int option"
  yu_HeaderMode :: "string option"

record yamlLogConsole =
  yc_Level :: "string option"
  yc_Format :: "string option"

record yamlLogFile =
  yf_Path :: "string option"
  yf_Level :: "string option"
  yf_Format :: "string option"

record yamlLog =
  yl_Console :: "yamlLogConsole option"
  yl_File :: "yamlLogFile option"

record yamlFields =
  y_Version :: "int option"
  y_Listen :: "string option"
  y_Upstream :: "string option"
  y_Policy :: "string option"
  y_Lang :: "string option"
  y_TrustedNetworks :: "string list option"
  y_UntrustedProxyAction :: "string option"
  y_Protocol :: "string option"
  y_TCP :: "yamlTCP option"
  y_UDP :: "yamlUDP option"
  y_Log :: "yamlLog option"

definition no_yaml :: yamlFields where
  "no_yaml =
     \<lparr>y_Version = None, y_Listen = None, y_Upstream = None, y_Policy = None, y_Lang = None,
      y_TrustedNetworks = None, y_UntrustedProxyAction = None, y_Protocol = None, y_TCP = None,
      y_UDP = None, y_Log = None\<rparr>"

definition file_str :: "string option \<Rightarrow> string + cval option" where
  "file_str v = Inr (map_option VStr v)"

definition file_int :: "int option \<Rightarrow> string + cval option" where
  "file_int v = Inr (map_option VInt v)"

definition file_dur :: "frac_fn \<Rightarrow> string \<Rightarrow> string option \<Rightarrow> string + cval option" where
  "file_dur frac what v =
     (case v of
        None \<Rightarrow> Inr None
      | Some s \<Rightarrow> (case ParseDuration frac s of None \<Rightarrow> Inl (what @ '' '' @ s) | Some d \<Rightarrow> Inr (Some (VDur d))))"

text \<open>\<open>y.TCP != nil && y.TCP.X != nil\<close>, and the nested tests of the other sections.\<close>

definition sub :: "'a option \<Rightarrow> ('a \<Rightarrow> 'b option) \<Rightarrow> 'b option" where
  "sub o' sel = Option.bind o' sel"

definition file_settings :: "frac_fn \<Rightarrow> yamlFields \<Rightarrow> setting list" where
  "file_settings frac y =
     [(FListen, file_str (y_Listen y)),
      (FUpstream, file_str (y_Upstream y)),
      (FPolicy, file_str (y_Policy y)),
      (FDetectTimeout, file_dur frac ''detect-timeout'' (sub (y_TCP y) yt_DetectTimeout)),
      (FTCPIdleTimeout, file_dur frac ''tcp.idle-timeout'' (sub (y_TCP y) yt_IdleTimeout)),
      (FTCPHeaderVersion, file_str (sub (y_TCP y) yt_HeaderVersion)),
      (FTCPFamilyMismatch, file_str (sub (y_TCP y) yt_FamilyMismatch)),
      (FTCPMaxConnections, file_int (sub (y_TCP y) yt_MaxConnections)),
      (FLang, file_str (y_Lang y)),
      (FTrustedNetworks, Inr (map_option VList (y_TrustedNetworks y))),
      (FUntrustedProxyAction, file_str (y_UntrustedProxyAction y)),
      (FProtocol, file_str (y_Protocol y)),
      (FIdleTimeout, file_dur frac ''idle-timeout'' (sub (y_UDP y) yu_IdleTimeout)),
      (FMaxSessions, file_int (sub (y_UDP y) yu_MaxSessions)),
      (FMaxDatagramSize, file_int (sub (y_UDP y) yu_MaxDatagramSize)),
      (FUDPHeaderMode, file_str (sub (y_UDP y) yu_HeaderMode)),
      (FLogConsoleLevel, file_str (sub (sub (y_Log y) yl_Console) yc_Level)),
      (FLogConsoleFormat, file_str (sub (sub (y_Log y) yl_Console) yc_Format)),
      (FLogFilePath, file_str (sub (sub (y_Log y) yl_File) yf_Path)),
      (FLogFileLevel, file_str (sub (sub (y_Log y) yl_File) yf_Level)),
      (FLogFileFormat, file_str (sub (sub (y_Log y) yl_File) yf_Format))]"

definition file_overlay :: "frac_fn \<Rightarrow> yamlFields \<Rightarrow> Config \<Rightarrow> string + Config" where
  "file_overlay frac y = apply_settings ''file'' (file_settings frac y)"

section \<open>What a source provides\<close>

definition provided :: "setting list \<Rightarrow> field \<Rightarrow> cval option" where
  "provided ss f = (case map_of ss f of Some (Inr ov) \<Rightarrow> ov | _ \<Rightarrow> None)"

fun is_VStr where "is_VStr (VStr s) = True" | "is_VStr _ = False"
fun is_VDur where "is_VDur (VDur s) = True" | "is_VDur _ = False"
fun is_VInt where "is_VInt (VInt s) = True" | "is_VInt _ = False"
fun is_VList where "is_VList (VList s) = True" | "is_VList _ = False"

fun has_kind :: "field \<Rightarrow> cval \<Rightarrow> bool" where
  "has_kind FProtocol v \<longleftrightarrow> is_VStr v"
| "has_kind FListen v \<longleftrightarrow> is_VStr v"
| "has_kind FUpstream v \<longleftrightarrow> is_VStr v"
| "has_kind FPolicy v \<longleftrightarrow> is_VStr v"
| "has_kind FLang v \<longleftrightarrow> is_VStr v"
| "has_kind FTrustedNetworks v \<longleftrightarrow> is_VList v"
| "has_kind FUntrustedProxyAction v \<longleftrightarrow> is_VStr v"
| "has_kind FDetectTimeout v \<longleftrightarrow> is_VDur v"
| "has_kind FTCPIdleTimeout v \<longleftrightarrow> is_VDur v"
| "has_kind FTCPHeaderVersion v \<longleftrightarrow> is_VStr v"
| "has_kind FTCPFamilyMismatch v \<longleftrightarrow> is_VStr v"
| "has_kind FTCPMaxConnections v \<longleftrightarrow> is_VInt v"
| "has_kind FIdleTimeout v \<longleftrightarrow> is_VDur v"
| "has_kind FMaxSessions v \<longleftrightarrow> is_VInt v"
| "has_kind FMaxDatagramSize v \<longleftrightarrow> is_VInt v"
| "has_kind FUDPHeaderMode v \<longleftrightarrow> is_VStr v"
| "has_kind FLogConsoleLevel v \<longleftrightarrow> is_VStr v"
| "has_kind FLogConsoleFormat v \<longleftrightarrow> is_VStr v"
| "has_kind FLogFilePath v \<longleftrightarrow> is_VStr v"
| "has_kind FLogFileLevel v \<longleftrightarrow> is_VStr v"
| "has_kind FLogFileFormat v \<longleftrightarrow> is_VStr v"

text \<open>Every field set at most once, with a value of its kind.\<close>

definition typed :: "string + cval option \<Rightarrow> (cval \<Rightarrow> bool) \<Rightarrow> bool" where
  "typed r P \<longleftrightarrow> (case r of Inr (Some v) \<Rightarrow> P v | _ \<Rightarrow> True)"

definition settings_ok :: "setting list \<Rightarrow> bool" where
  "settings_ok ss \<longleftrightarrow> distinct (map fst ss) \<and> list_all (\<lambda>(f, r). typed r (has_kind f)) ss"

declare env_str_def [field_eval] env_dur_def [field_eval] env_int_def [field_eval]
  env_list_def [field_eval] env_typed_def [field_eval] flag_str_def [field_eval]
  flag_dur_def [field_eval] flag_int_def [field_eval] flag_list_def [field_eval]
  file_str_def [field_eval] file_int_def [field_eval] file_dur_def [field_eval]

declare parseFlags_def [flag_eval] formal_flags_def [flag_eval] flag_Apply_def [flag_eval]
  flag_settings1_def [flag_eval] flag_settings2_def [flag_eval]

lemma typed_Some [simp]: "typed (Inr (Some v)) P = P v"
  by (simp add: typed_def)

lemma typed_simps [simp]:
  "(\<And>s. P (VStr s)) \<Longrightarrow> typed (env_str env k) P"
  "(\<And>d. P (VDur d)) \<Longrightarrow> typed (env_dur frac env k) P"
  "(\<And>i. P (VInt i)) \<Longrightarrow> typed (env_int env k) P"
  "(\<And>l. P (VList l)) \<Longrightarrow> typed (env_list env k) P"
  "(\<And>s. P (VStr s)) \<Longrightarrow> typed (flag_str fv k) P"
  "(\<And>d. P (VDur d)) \<Longrightarrow> typed (flag_dur fv k) P"
  "(\<And>i. P (VInt i)) \<Longrightarrow> typed (flag_int fv k) P"
  "(\<And>l. P (VList l)) \<Longrightarrow> typed (flag_list fv k) P"
  "(\<And>s. P (VStr s)) \<Longrightarrow> typed (file_str v) P"
  "(\<And>i. P (VInt i)) \<Longrightarrow> typed (file_int w) P"
  "(\<And>d. P (VDur d)) \<Longrightarrow> typed (file_dur frac k v) P"
  "(\<And>l. P (VList l)) \<Longrightarrow> typed (Inr (map_option VList u)) P"
  by (auto simp: typed_def field_eval split: option.splits)

lemma value_of_put: "has_kind f v \<Longrightarrow> value_of g (put f v c) = (if g = f then v else value_of g c)"
  by (cases f; cases v; cases g) simp_all

lemma prov_put [simp]: "cf_prov (put f v c) = cf_prov c"
  by (cases f; cases v) simp_all

lemma provided_Cons: "provided ((g, Inr ov) # ss) f = (if f = g then ov else provided ss f)"
  by (simp add: provided_def)

lemma apply_settings_overlay:
  assumes "apply_settings src ss c = Inr c'" and "settings_ok ss"
  shows "value_of f c' = (case provided ss f of Some v \<Rightarrow> v | None \<Rightarrow> value_of f c) \<and>
         cf_prov c' (fname f) = (case provided ss f of Some v \<Rightarrow> Some src | None \<Rightarrow> cf_prov c (fname f))"
  using assms
proof (induction ss arbitrary: c)
  case Nil
  then show ?case by (simp add: provided_def)
next
  case (Cons s ss)
  obtain g r where s: "s = (g, r)" by (cases s)
  from Cons.prems(1) obtain ov where r: "r = Inr ov"
    and rest: "apply_settings src ss
      (case ov of None \<Rightarrow> c | Some v \<Rightarrow> mark (fname g) src (put g v c)) = Inr c'"
    by (auto simp: s)
  have ok: "settings_ok ss" and "map_of ss g = None"
    and kind: "\<And>v. ov = Some v \<Longrightarrow> has_kind g v"
    using Cons.prems(2) by (auto simp: settings_ok_def s r map_of_eq_None_iff)
  then have fresh: "provided ss g = None" by (simp add: provided_def)
  from Cons.IH [OF rest ok] fresh kind show ?case
    unfolding s r provided_Cons
    by (cases ov; cases "f = g"; cases "provided ss f") (auto simp: value_of_put)
qed

lemma apply_settings_failure:
  "apply_settings src ss c = Inl e \<Longrightarrow> apply_settings src ss d = Inl e"
proof (induction ss arbitrary: c d)
  case (Cons s ss)
  then show ?case by (cases s; cases "snd s") auto
qed simp

text \<open>A source with nothing to say changes nothing.\<close>

lemma apply_settings_silent:
  "(\<And>f r. (f, r) \<in> set ss \<Longrightarrow> r = Inr None) \<Longrightarrow> apply_settings src ss c = Inr c"
proof (induction ss)
  case (Cons s ss)
  then show ?case by (cases s) force
qed simp

lemma env_unset [simp]:
  "env_val (\<lambda>_. None) k = None" "env_str (\<lambda>_. None) k = Inr None"
  "env_dur frac (\<lambda>_. None) k = Inr None" "env_int (\<lambda>_. None) k = Inr None"
  "env_list (\<lambda>_. None) k = Inr None"
  by (simp_all add: env_val_def field_eval)

lemma env_Apply_unset: "env_Apply frac (\<lambda>_. None) c = Inr c"
  unfolding env_Apply_def by (rule apply_settings_silent) (auto simp: env_settings_def)

section \<open>The contract of a source\<close>

text \<open>
  \<open>config.Source\<close>: a source sets and marks exactly the fields it provides, leaves every
  other field and its provenance alone, and whether it fails does not depend on the
  configuration it is applied to: sources never read each other.
\<close>

locale config_source =
  fixes apply_to :: "Config \<Rightarrow> string + Config"
    and label :: string
    and provides :: "field \<Rightarrow> cval option"
  assumes overlay_value: "apply_to c = Inr c' \<Longrightarrow>
      value_of f c' = (case provides f of Some v \<Rightarrow> v | None \<Rightarrow> value_of f c)"
    and overlay_prov: "apply_to c = Inr c' \<Longrightarrow>
      cf_prov c' (fname f) = (case provides f of Some v \<Rightarrow> Some label | None \<Rightarrow> cf_prov c (fname f))"
    and failure_blind: "apply_to c = Inl e \<Longrightarrow> apply_to d = Inl e"
begin

lemma untouched:
  "apply_to c = Inr c' \<Longrightarrow> provides f = None \<Longrightarrow>
   value_of f c' = value_of f c \<and> sourceOf c' (fname f) = sourceOf c (fname f)"
  using overlay_value overlay_prov by (simp add: sourceOf_def)

lemma taken:
  "apply_to c = Inr c' \<Longrightarrow> provides f = Some v \<Longrightarrow>
   value_of f c' = v \<and> sourceOf c' (fname f) = label"
  using overlay_value overlay_prov by (simp add: sourceOf_def)

lemma success_blind: "apply_to c = Inr c' \<Longrightarrow> \<exists>d'. apply_to d = Inr d'"
  using failure_blind [of d _ c] by (cases "apply_to d") auto

end

text \<open>Two sources applied one after the other: the second takes precedence.\<close>

locale config_overlay = lo: config_source apply_lo label_lo provides_lo
    + hi: config_source apply_hi label_hi provides_hi
  for apply_lo label_lo provides_lo apply_hi label_hi provides_hi
begin

lemma both_field:
  assumes "bindE (apply_lo c) apply_hi = Inr c'"
  shows "value_of f c' =
           (case provides_hi f of Some v \<Rightarrow> v
            | None \<Rightarrow> (case provides_lo f of Some v \<Rightarrow> v | None \<Rightarrow> value_of f c)) \<and>
         sourceOf c' (fname f) =
           (if provides_hi f \<noteq> None then label_hi
            else if provides_lo f \<noteq> None then label_lo else sourceOf c (fname f))"
proof -
  from assms obtain c1 where c1: "apply_lo c = Inr c1" "apply_hi c1 = Inr c'"
    by auto
  show ?thesis
    using hi.taken [OF c1(2), of f] hi.untouched [OF c1(2), of f] lo.taken [OF c1(1), of f]
      lo.untouched [OF c1(1), of f]
    by (cases "provides_hi f"; cases "provides_lo f") auto
qed

end

lemma settings_source:
  "settings_ok ss \<Longrightarrow> config_source (apply_settings src ss) src (provided ss)"
proof
  assume ok: "settings_ok ss"
  fix c c' d :: Config and f e
  note over = apply_settings_overlay [OF _ ok, of src c c' f]
  show "apply_settings src ss c = Inr c' \<Longrightarrow>
      value_of f c' = (case provided ss f of Some v \<Rightarrow> v | None \<Rightarrow> value_of f c)"
    using over by blast
  show "apply_settings src ss c = Inr c' \<Longrightarrow> cf_prov c' (fname f) =
      (case provided ss f of Some v \<Rightarrow> Some src | None \<Rightarrow> cf_prov c (fname f))"
    using over by blast
  show "apply_settings src ss c = Inl e \<Longrightarrow> apply_settings src ss d = Inl e"
    by (rule apply_settings_failure)
qed

lemma env_settings_ok: "settings_ok (env_settings frac env)"
  by (simp add: settings_ok_def env_settings_def)

lemma file_settings_ok: "settings_ok (file_settings frac y)"
  by (simp add: settings_ok_def file_settings_def)

lemma flag_settings_ok: "settings_ok (flag_settings1 fv @ flag_settings2 fv)"
  by (simp add: settings_ok_def flag_settings1_def flag_settings2_def)

interpretation env_src: config_source "env_Apply frac env" "''env''" "provided (env_settings frac env)"
  for frac env
  unfolding env_Apply_def by (rule settings_source [OF env_settings_ok])

interpretation file_src: config_source "file_overlay frac y" "''file''" "provided (file_settings frac y)"
  for frac y
  unfolding file_overlay_def by (rule settings_source [OF file_settings_ok])

lemma provided_append:
  "distinct (map fst (xs @ ys)) \<Longrightarrow>
   provided (xs @ ys) f = (case provided xs f of Some v \<Rightarrow> Some v | None \<Rightarrow> provided ys f)"
proof (induction xs)
  case Nil
  then show ?case by (simp add: provided_def)
next
  case (Cons x xs)
  obtain g r where x: "x = (g, r)" by (cases x)
  have "map_of ys g = None" using Cons.prems by (auto simp: x map_of_eq_None_iff)
  then have "provided ys g = None" by (simp add: provided_def)
  with Cons show ?case
    by (cases r) (auto simp: x provided_def map_add_def split: option.splits)
qed

lemma settings_ok_append: "settings_ok (xs @ ys) \<Longrightarrow> settings_ok xs \<and> settings_ok ys"
  by (auto simp: settings_ok_def)

lemma with_path [simp]:
  "value_of f (case p of None \<Rightarrow> c | Some q \<Rightarrow> c\<lparr>cf_ConfigPath := q\<rparr>) = value_of f c"
  "cf_prov (case p of None \<Rightarrow> c | Some q \<Rightarrow> c\<lparr>cf_ConfigPath := q\<rparr>) = cf_prov c"
  by (cases f; cases p; simp)+

lemma flag_overlay:
  assumes "flag_Apply fv c = Inr c'"
  shows "value_of f c' = (case provided (flag_settings1 fv @ flag_settings2 fv) f of
           Some v \<Rightarrow> v | None \<Rightarrow> value_of f c) \<and>
         cf_prov c' (fname f) = (case provided (flag_settings1 fv @ flag_settings2 fv) f of
           Some v \<Rightarrow> Some ''flag'' | None \<Rightarrow> cf_prov c (fname f))"
proof -
  let ?s1 = "flag_settings1 fv" and ?s2 = "flag_settings2 fv"
  have d: "distinct (map fst (?s1 @ ?s2))"
    using flag_settings_ok unfolding settings_ok_def by blast
  from assms obtain c1 where c1: "apply_settings ''flag'' ?s1 c = Inr c1"
    and c2: "apply_settings ''flag'' ?s2
      (case fv_str fv ''config'' of None \<Rightarrow> c1 | Some p \<Rightarrow> c1\<lparr>cf_ConfigPath := p\<rparr>) = Inr c'"
    by (auto simp: flag_Apply_def)
  have ok: "settings_ok ?s1" "settings_ok ?s2"
    using settings_ok_append [OF flag_settings_ok [of fv]] by auto
  have "provided ?s1 f = None \<or> provided ?s2 f = None"
    using d by (auto simp: provided_def map_of_eq_None_iff disjoint_iff split: option.splits sum.splits
        dest!: map_of_SomeD) (metis fst_conv imageI)
  with apply_settings_overlay [OF c1 ok(1), of f] apply_settings_overlay [OF c2 ok(2), of f]
  show ?thesis
    unfolding provided_append [OF d] with_path
    by (cases "provided ?s1 f"; cases "provided ?s2 f") simp_all
qed

lemma apply_settings_total:
  "list_all (\<lambda>(f, r). \<exists>v. r = Inr v) ss \<Longrightarrow> \<exists>c'. apply_settings src ss c = Inr c'"
  by (induction ss arbitrary: c) auto

text \<open>The flags were parsed before: overlaying them cannot fail.\<close>

lemma flag_total: "\<exists>c'. flag_Apply fv c = Inr c'"
proof -
  have "\<exists>c'. apply_settings ''flag'' (flag_settings1 fv) c = Inr c'" for c
    by (rule apply_settings_total)
      (simp add: flag_settings1_def flag_str_def flag_dur_def flag_int_def)
  moreover have "\<exists>c'. apply_settings ''flag'' (flag_settings2 fv) c = Inr c'" for c
    by (rule apply_settings_total)
      (simp add: flag_settings2_def flag_str_def flag_dur_def flag_int_def flag_list_def)
  ultimately show ?thesis unfolding flag_Apply_def by (metis bindE_simps(2))
qed

interpretation flag_src: config_source "flag_Apply fv" "''flag''"
    "provided (flag_settings1 fv @ flag_settings2 fv)" for fv
proof
  fix c c' d :: Config and f e
  show "flag_Apply fv c = Inr c' \<Longrightarrow> value_of f c' = (case provided (flag_settings1 fv @ flag_settings2 fv) f of
           Some v \<Rightarrow> v | None \<Rightarrow> value_of f c)"
    using flag_overlay by blast
  show "flag_Apply fv c = Inr c' \<Longrightarrow> cf_prov c' (fname f) =
      (case provided (flag_settings1 fv @ flag_settings2 fv) f of
           Some v \<Rightarrow> Some ''flag'' | None \<Rightarrow> cf_prov c (fname f))"
    using flag_overlay by blast
  show "flag_Apply fv c = Inl e \<Longrightarrow> flag_Apply fv d = Inl e"
    using flag_total [of fv c] by auto
qed

text \<open>Only the file source records which file was loaded.\<close>

lemma loadedFile_put [simp]: "cf_loadedFile (put f v c) = cf_loadedFile c"
  by (cases f; cases v) simp_all

lemma loadedFile_mark [simp]: "cf_loadedFile (mark k src c) = cf_loadedFile c"
  by (simp add: mark_def)

lemma loadedFile_apply_settings:
  "apply_settings src ss c = Inr c' \<Longrightarrow> cf_loadedFile c' = cf_loadedFile c"
proof (induction ss arbitrary: c)
  case (Cons s ss)
  then show ?case by (cases s) (auto split: option.splits)
qed simp

lemma loadedFile_env: "env_Apply frac env c = Inr c' \<Longrightarrow> cf_loadedFile c' = cf_loadedFile c"
  by (auto simp: env_Apply_def dest: loadedFile_apply_settings)

lemma loadedFile_flag: "flag_Apply fv c = Inr c' \<Longrightarrow> cf_loadedFile c' = cf_loadedFile c"
  by (auto simp: flag_Apply_def dest!: loadedFile_apply_settings split: option.splits)

end
