(* ===== verification/Config_File.thy ===== *)
theory Config_File
  imports Config_Sources "HOL-Library.Sublist"
begin

text \<open>
  \<open>internal/config/config.go\<close>, the file: the rewriting of quotes, the migration of old
  versions with its backup, the file source and \<open>Load\<close>. The YAML library is a parameter.
\<close>

section \<open>fixWindowsPaths\<close>

lemma cut_at_shorter: "cut_at c xs = Some (a, b) \<Longrightarrow> length b < length xs"
  using cut_at_Some_append by fastforce

function fixWindowsPaths :: "string \<Rightarrow> string" where
  "fixWindowsPaths [] = []"
| "fixWindowsPaths (c # cs) =
     (if c = squote then
        (case cut_at squote cs of
           None \<Rightarrow> c # cs
         | Some (a, b) \<Rightarrow> squote # a @ squote # fixWindowsPaths b)
      else if c = dquote then
        (case cut_at dquote cs of
           None \<Rightarrow> c # cs
         | Some (a, b) \<Rightarrow> squote # a @ squote # fixWindowsPaths b)
      else c # fixWindowsPaths cs)"
  by pat_completeness auto
termination
  by (relation "measure length") (auto simp: less_SucI cut_at_shorter)

section \<open>The text of a migrated file\<close>

text \<open>Values of an untyped YAML mapping; a float is given by its conversion to \<open>int\<close>.\<close>

datatype yaml_any = YStr string | YInt int | YInt64 int | YFloat int | YOther string

text \<open>
  The library: \<open>Unmarshal\<close> into the typed fields, which keeps the fields the text does not
  mention, \<open>Unmarshal\<close> into a map, the order in which \<open>range\<close> visits that map, \<open>Marshal\<close>
  of one entry, and \<open>fmt\<close>'s verb \<open>%q\<close>.
\<close>

record yaml_lib =
  unmarshal :: "string \<Rightarrow> yamlFields \<Rightarrow> string + yamlFields"
  unmarshal_raw :: "string \<Rightarrow> string + (string \<rightharpoonup> yaml_any)"
  range_keys :: "(string \<rightharpoonup> yaml_any) \<Rightarrow> string list"
  marshal_entry :: "string \<Rightarrow> yaml_any \<Rightarrow> string"
  verb_q :: "string \<Rightarrow> string"

definition nl :: string where
  "nl = [char_of (10 :: nat)]"

definition em_dash :: string where
  "em_dash = [char_of (0xE2 :: nat), char_of (0x80 :: nat), char_of (0x94 :: nat)]"

definition arrow :: string where
  "arrow = [char_of (0xE2 :: nat), char_of (0x86 :: nat), char_of (0x92 :: nat)]"

text \<open>A rule of \<open>n\<close> box-drawing characters.\<close>

definition hbar :: "nat \<Rightarrow> string" where
  "hbar n = concat (replicate n [char_of (0xE2 :: nat), char_of (0x94 :: nat), char_of (0x80 :: nat)])"

definition knownConfigKeys :: "string list" where
  "knownConfigKeys =
     [''version'', ''listen'', ''upstream'', ''policy'', ''lang'', ''trusted-networks'',
      ''untrusted-proxy-action'', ''protocol'', ''tcp'', ''udp'', ''log'',
      ''detect-timeout'', ''idle-timeout'', ''max-sessions'', ''max-datagram-size'',
      ''udp-output'', ''header-mode'']"

definition writeStrFieldIndent ::
    "(string \<Rightarrow> string) \<Rightarrow> string \<Rightarrow> string option \<Rightarrow> string \<Rightarrow> string \<Rightarrow> string \<Rightarrow> string" where
  "writeStrFieldIndent q name val dflt comment indent =
     indent @ name @ '': '' @ q (case val of None \<Rightarrow> dflt | Some v \<Rightarrow> v) @ ''  # '' @ comment @ nl"

definition writeStrField ::
    "(string \<Rightarrow> string) \<Rightarrow> string \<Rightarrow> string option \<Rightarrow> string \<Rightarrow> string \<Rightarrow> string" where
  "writeStrField q name val dflt comment = writeStrFieldIndent q name val dflt comment []"

definition rawInt :: "(string \<rightharpoonup> yaml_any) \<Rightarrow> string \<Rightarrow> int option" where
  "rawInt raw key =
     (case raw key of
        Some (YInt n) \<Rightarrow> Some n
      | Some (YInt64 n) \<Rightarrow> Some n
      | Some (YFloat n) \<Rightarrow> Some n
      | _ \<Rightarrow> None)"

text \<open>\<open>raw[key].(string)\<close>\<close>

definition rawStr :: "(string \<rightharpoonup> yaml_any) \<Rightarrow> string \<Rightarrow> string option" where
  "rawStr raw key = (case raw key of Some (YStr s) \<Rightarrow> Some s | _ \<Rightarrow> None)"

definition or_else :: "'a option \<Rightarrow> 'a option \<Rightarrow> 'a option" where
  "or_else a b = (case a of None \<Rightarrow> b | Some x \<Rightarrow> Some x)"

definition mig_general :: "(string \<Rightarrow> string) \<Rightarrow> yamlFields \<Rightarrow> string" where
  "mig_general q y =
     ''# ProxyDge configuration file.'' @ nl @
     ''# Auto-migrated by proxydge.'' @ nl @
     ''# Precedence (highest to lowest): CLI flags > env (PROXYDGE_*) > this file > defaults.'' @ nl @ nl @
     ''version: '' @ show_int currentConfigVersion @ ''  # config format version '' @ em_dash @
       '' do NOT change; used for auto-migration'' @ nl @ nl @
     ''# '' @ hbar 2 @ '' General '' @ hbar 59 @ nl @
     writeStrField q ''protocol'' (y_Protocol y) ''tcp''
       (''tcp (default) | udp '' @ em_dash @ '' selects gateway mode'') @
     writeStrField q ''listen'' (y_Listen y) '':9000'' ''listen address (host:port)'' @
     writeStrField q ''upstream'' (y_Upstream y) ''127.0.0.1:9001'' ''downstream target host:port'' @
     writeStrField q ''policy'' (y_Policy y) ''use'' ''use | require | reject'' @
     writeStrField q ''lang'' (y_Lang y) [] ''display language: en|zh-CN|zh-TW (empty=auto)''"

definition mig_trust :: "(string \<Rightarrow> string) \<Rightarrow> yamlFields \<Rightarrow> string" where
  "mig_trust q y =
     nl @ ''# Trust control: only these networks may send PROXY headers.'' @ nl @
     ''# Supports CIDR (10.0.0.0/8, 2001:db8::/32) and bare IPs (10.0.0.1, fe80::1).'' @ nl @
     ''# Empty (default) trusts everyone '' @ em_dash @ '' configure in production to prevent spoofing.'' @ nl @
     (case y_TrustedNetworks y of
        Some (n # ns) \<Rightarrow>
          ''trusted-networks:'' @ nl @ concat (map (\<lambda>cidr. ''  - '' @ q cidr @ nl) (n # ns))
      | _ \<Rightarrow>
          ''trusted-networks:'' @ nl @
          ''  # - '' @ [dquote] @ ''10.0.0.0/8'' @ [dquote] @ nl @
          ''  # - '' @ [dquote] @ ''192.168.1.0/24'' @ [dquote] @ nl @
          ''  # - '' @ [dquote] @ ''2001:db8::/32'' @ [dquote] @ nl @
          ''  # - '' @ [dquote] @ ''10.0.0.1'' @ [dquote] @ ''        # bare IP '' @ arrow @
            '' /32 (IPv4) or /128 (IPv6)'' @ nl) @
     writeStrField q ''untrusted-proxy-action'' (y_UntrustedProxyAction y) ''reject''
       ''reject (default) | strip''"

text \<open>The values the migration chooses, with the flat version 1 keys as fallbacks.\<close>

definition mig_detectTimeout :: "yamlFields \<Rightarrow> (string \<rightharpoonup> yaml_any) \<Rightarrow> string option" where
  "mig_detectTimeout y raw = or_else (sub (y_TCP y) yt_DetectTimeout) (rawStr raw ''detect-timeout'')"

definition mig_familyMismatch :: "yamlFields \<Rightarrow> string option" where
  "mig_familyMismatch y = or_else (sub (y_TCP y) yt_FamilyMismatch) (Some ''legacy'')"

definition mig_maxConnections :: "yamlFields \<Rightarrow> int" where
  "mig_maxConnections y = (case sub (y_TCP y) yt_MaxConnections of None \<Rightarrow> 4096 | Some n \<Rightarrow> n)"

definition mig_idleTimeout :: "yamlFields \<Rightarrow> (string \<rightharpoonup> yaml_any) \<Rightarrow> string option" where
  "mig_idleTimeout y raw = or_else (sub (y_UDP y) yu_IdleTimeout) (rawStr raw ''idle-timeout'')"

definition mig_maxSessions :: "yamlFields \<Rightarrow> (string \<rightharpoonup> yaml_any) \<Rightarrow> int option" where
  "mig_maxSessions y raw = or_else (sub (y_UDP y) yu_MaxSessions) (rawInt raw ''max-sessions'')"

definition mig_maxDatagramSize :: "yamlFields \<Rightarrow> (string \<rightharpoonup> yaml_any) \<Rightarrow> int option" where
  "mig_maxDatagramSize y raw =
     or_else (sub (y_UDP y) yu_MaxDatagramSize) (rawInt raw ''max-datagram-size'')"

definition mig_headerMode :: "yamlFields \<Rightarrow> (string \<rightharpoonup> yaml_any) \<Rightarrow> string option" where
  "mig_headerMode y raw =
     or_else (sub (y_UDP y) yu_HeaderMode)
       (or_else (rawStr raw ''udp-output'') (rawStr raw ''header-mode''))"

definition mig_tcp :: "(string \<Rightarrow> string) \<Rightarrow> yamlFields \<Rightarrow> (string \<rightharpoonup> yaml_any) \<Rightarrow> string" where
  "mig_tcp q y raw = concat
     [nl @ ''# '' @ hbar 2 @ '' TCP (protocol=tcp) '' @ hbar 47 @ nl,
      ''tcp:'' @ nl,
      writeStrFieldIndent q ''detect-timeout'' (mig_detectTimeout y raw) ''1s''
        ''PROXY header detection timeout (0=block indefinitely)'' ''  '',
      writeStrFieldIndent q ''idle-timeout'' (sub (y_TCP y) yt_IdleTimeout) ''5m''
        ''pipe idle timeout, 0=disabled'' ''  '',
      writeStrFieldIndent q ''header-version'' (sub (y_TCP y) yt_HeaderVersion) ''v2''
        ''downstream PROXY header version: v1|v2'' ''  '',
      writeStrFieldIndent q ''family-mismatch'' (mig_familyMismatch y) ''reject''
        ''mixed address-family action: reject|unknown|legacy'' ''  '',
      ''  max-connections: '' @ show_int (mig_maxConnections y) @
        ''  # max concurrent connections, 0=unlimited'' @ nl]"

definition mig_udp :: "(string \<Rightarrow> string) \<Rightarrow> yamlFields \<Rightarrow> (string \<rightharpoonup> yaml_any) \<Rightarrow> string" where
  "mig_udp q y raw = concat
     [nl @ ''# '' @ hbar 2 @ '' UDP (protocol=udp) '' @ hbar 47 @ nl,
      ''# The following fields are only used when protocol=udp.'' @ nl,
      ''udp:'' @ nl,
      writeStrFieldIndent q ''idle-timeout'' (mig_idleTimeout y raw) ''30s''
        ''UDP session idle timeout'' ''  '',
      ''  max-sessions: '' @ show_int (case mig_maxSessions y raw of None \<Rightarrow> 1024 | Some n \<Rightarrow> n) @
        ''  # max concurrent UDP sessions, 0=unlimited'' @ nl,
      ''  max-datagram-size: '' @
        show_int (case mig_maxDatagramSize y raw of None \<Rightarrow> 65535 | Some n \<Rightarrow> n) @
        ''  # max datagram size, 0=unlimited, oversized=drop'' @ nl,
      writeStrFieldIndent q ''header-mode'' (mig_headerMode y raw) ''every_datagram''
        ''every_datagram (default) | first_datagram'' ''  '']"

definition mig_log :: "(string \<Rightarrow> string) \<Rightarrow> yamlFields \<Rightarrow> string" where
  "mig_log q y =
     (let con = sub (y_Log y) yl_Console; fil = sub (y_Log y) yl_File in
      nl @ ''# '' @ hbar 2 @ '' Logging '' @ hbar 58 @ nl @
      ''log:'' @ nl @
      ''  console:  # logs to stderr'' @ nl @
      writeStrFieldIndent q ''level'' (sub con yc_Level) ''info'' ''debug | info | warn | error'' ''    '' @
      writeStrFieldIndent q ''format'' (sub con yc_Format) ''text'' ''text | json'' ''    '' @
      ''  file:  # logs to a file (path empty => disabled)'' @ nl @
      writeStrFieldIndent q ''path'' (sub fil yf_Path) [] ''e.g. /var/log/proxydge.log'' ''    '' @
      ''    level: '' @ q (case sub fil yf_Level of None \<Rightarrow> ''info'' | Some v \<Rightarrow> v) @ nl @
      ''    format: '' @ q (case sub fil yf_Format of None \<Rightarrow> ''text'' | Some v \<Rightarrow> v) @ nl)"

definition mig_unknown :: "yaml_lib \<Rightarrow> (string \<rightharpoonup> yaml_any) \<Rightarrow> string" where
  "mig_unknown lib raw =
     concat (map (\<lambda>k. case raw k of
                        None \<Rightarrow> []
                      | Some v \<Rightarrow> if k \<in> set knownConfigKeys then [] else nl @ marshal_entry lib k v)
                 (range_keys lib raw))"

definition generateMigratedConfig ::
    "yaml_lib \<Rightarrow> yamlFields \<Rightarrow> (string \<rightharpoonup> yaml_any) \<Rightarrow> string" where
  "generateMigratedConfig lib y raw = concat
     [mig_general (verb_q lib) y, mig_trust (verb_q lib) y, mig_tcp (verb_q lib) y raw,
      mig_udp (verb_q lib) y raw, mig_log (verb_q lib) y, mig_unknown lib raw]"

section \<open>Files\<close>

text \<open>
  A failing read gives its error. A failing write gives its error and what it leaves in the
  file, if anything.
\<close>

record os =
  os_files :: "string \<rightharpoonup> string"
  os_read_err :: "string \<Rightarrow> string option"
  os_write_err :: "string \<Rightarrow> (string \<times> string option) option"

datatype os_error = ErrNotExist | OsError string

definition ReadFile :: "os \<Rightarrow> string \<Rightarrow> os_error + string" where
  "ReadFile os path =
     (case os_read_err os path of
        Some e \<Rightarrow> Inl (OsError e)
      | None \<Rightarrow> (case os_files os path of None \<Rightarrow> Inl ErrNotExist | Some d \<Rightarrow> Inr d))"

definition WriteFile :: "os \<Rightarrow> string \<Rightarrow> string \<Rightarrow> os \<times> string option" where
  "WriteFile os path data =
     (case os_write_err os path of
        Some (e, left) \<Rightarrow> (os\<lparr>os_files := (os_files os)(path := left)\<rparr>, Some e)
      | None \<Rightarrow> (os\<lparr>os_files := (os_files os)(path \<mapsto> data)\<rparr>, None))"

datatype load_error =
    ReadErr os_error
  | ParseErr string
  | MissingVersion
  | TooNew int
  | BackupFailed string
  | MigrateFailed string
  | ReReadErr os_error
  | ReParseErr string
  | FieldErr string
  | FlagError flag_err
  | Invalid config_error

definition field_err :: "string + Config \<Rightarrow> load_error + Config" where
  "field_err r = (case r of Inl e \<Rightarrow> Inl (FieldErr e) | Inr c \<Rightarrow> Inr c)"

text \<open>The backup and the rewriting of a file of an older version, and its second parse.\<close>

definition migrate_file ::
    "yaml_lib \<Rightarrow> os \<Rightarrow> string \<Rightarrow> string \<Rightarrow> yamlFields \<Rightarrow> os \<times> (load_error + yamlFields)" where
  "migrate_file lib os path data y =
     (case unmarshal_raw lib data of
        Inl e \<Rightarrow> (os, Inl (ParseErr e))
      | Inr raw \<Rightarrow>
          (case WriteFile os (path @ ''.bak'') data of
             (os1, Some e) \<Rightarrow> (os1, Inl (BackupFailed e))
           | (os1, None) \<Rightarrow>
               (case WriteFile os1 path (generateMigratedConfig lib y raw) of
                  (os2, Some e) \<Rightarrow> (os2, Inl (MigrateFailed e))
                | (os2, None) \<Rightarrow>
                    (case ReadFile os2 path of
                       Inl e \<Rightarrow> (os2, Inl (ReReadErr e))
                     | Inr data2 \<Rightarrow>
                         (case unmarshal lib data2 y of
                            Inl e \<Rightarrow> (os2, Inl (ReParseErr e))
                          | Inr y2 \<Rightarrow> (os2, Inr y2))))))"

definition file_Apply ::
    "yaml_lib \<Rightarrow> frac_fn \<Rightarrow> os \<Rightarrow> string \<Rightarrow> bool \<Rightarrow> Config \<Rightarrow> os \<times> (load_error + Config)" where
  "file_Apply lib frac os path optional c =
     (case ReadFile os path of
        Inl e \<Rightarrow> if optional \<and> e = ErrNotExist then (os, Inr c) else (os, Inl (ReadErr e))
      | Inr raw_data \<Rightarrow>
          let data = fixWindowsPaths raw_data in
          (case unmarshal lib data no_yaml of
             Inl e \<Rightarrow> (os, Inl (ParseErr e))
           | Inr y \<Rightarrow>
               (case y_Version y of
                  None \<Rightarrow> (os, Inl MissingVersion)
                | Some v \<Rightarrow>
                    if v > currentConfigVersion then (os, Inl (TooNew v))
                    else if v < currentConfigVersion then
                      (case migrate_file lib os path data y of
                         (os', Inl e) \<Rightarrow> (os', Inl e)
                       | (os', Inr y2) \<Rightarrow>
                           (os', field_err (file_overlay frac y2
                                   (c\<lparr>cf_Migrated := True, cf_loadedFile := path\<rparr>))))
                    else (os, field_err (file_overlay frac y (c\<lparr>cf_loadedFile := path\<rparr>))))))"

section \<open>Load\<close>

definition resolveConfigPath :: "flag_values \<Rightarrow> string \<Rightarrow> string \<times> bool" where
  "resolveConfigPath fv defaultPath =
     (case fv_str fv ''config'' of
        None \<Rightarrow> (defaultPath, True)
      | Some p \<Rightarrow> if p \<noteq> [] then (p, False) else (defaultPath, True))"

definition Load ::
    "yaml_lib \<Rightarrow> frac_fn \<Rightarrow> os \<Rightarrow> (string \<rightharpoonup> string) \<Rightarrow> string \<Rightarrow> string list \<Rightarrow> os \<times> (load_error + Config)" where
  "Load lib frac os env defaultPath args =
     (let c0 = defaults_Apply zero_config in
      case parseFlags frac args of
        Inl e \<Rightarrow> (os, Inl (FlagError e))
      | Inr fv \<Rightarrow>
          (case resolveConfigPath fv defaultPath of (path, optional) \<Rightarrow>
            (case (if path = [] then (os, Inr c0) else file_Apply lib frac os path optional c0) of
               (os1, Inl e) \<Rightarrow> (os1, Inl e)
             | (os1, Inr c1) \<Rightarrow>
                 (os1, bindE (field_err (env_Apply frac env c1)) (\<lambda>c2.
                         bindE (field_err (flag_Apply fv c2)) (\<lambda>c3.
                           case Validate c3 of Inl e \<Rightarrow> Inl (Invalid e) | Inr u \<Rightarrow> Inr c3))))))"

section \<open>Quotes\<close>

lemma squote_neq [simp]: "squote \<noteq> dquote" "dquote \<noteq> squote" "backslash \<noteq> dquote" "backslash \<noteq> squote"
  "dquote \<noteq> backslash" "squote \<noteq> backslash"
  by (simp_all add: squote_def dquote_def backslash_def)

lemma fix_no_quotes:
  "squote \<notin> set pre \<Longrightarrow> dquote \<notin> set pre \<Longrightarrow> fixWindowsPaths (pre @ s) = pre @ fixWindowsPaths s"
  by (induction pre) auto

lemma fix_single: "squote \<notin> set p \<Longrightarrow>
  fixWindowsPaths (squote # p @ squote # rest) = squote # p @ squote # fixWindowsPaths rest"
  by (simp add: cut_at_append)

lemma fix_double: "dquote \<notin> set p \<Longrightarrow>
  fixWindowsPaths (dquote # p @ dquote # rest) = squote # p @ squote # fixWindowsPaths rest"
  by (simp add: cut_at_append)

lemma fix_length: "length (fixWindowsPaths s) = length s"
proof (induction s rule: fixWindowsPaths.induct)
  case (2 c cs)
  consider (single) "c = squote" | (double) "c = dquote" | (other) "c \<noteq> squote" "c \<noteq> dquote"
    by blast
  then show ?case
  proof cases
    case single
    with 2(1) show ?thesis
      by (cases "cut_at squote cs") (auto dest: cut_at_Some_append)
  next
    case double
    with 2(2) show ?thesis
      by (cases "cut_at dquote cs") (auto dest: cut_at_Some_append)
  next
    case other
    with 2(3) show ?thesis by simp
  qed
qed simp

text \<open>
  Rewriting the quotes never changes the length of the text: text outside quotes and in
  single quotes is copied, and a double-quoted value keeps its characters, backslashes
  included, under single quotes.
\<close>

theorem fixWindowsPaths_literal:
  assumes "squote \<notin> set pre" and "dquote \<notin> set pre" and "dquote \<notin> set p" and "squote \<notin> set q"
  shows "fixWindowsPaths (pre @ dquote # p @ dquote # rest) = pre @ squote # p @ squote # fixWindowsPaths rest \<and>
         fixWindowsPaths (pre @ squote # q @ squote # rest) = pre @ squote # q @ squote # fixWindowsPaths rest \<and>
         fixWindowsPaths pre = pre \<and> length (fixWindowsPaths s) = length s"
  using fix_no_quotes [OF assms(1,2)] fix_no_quotes [OF assms(1,2), of "[]"] fix_double [OF assms(3)]
    fix_single [OF assms(4)] fix_length by simp

theorem fixWindowsPaths_literal_witness:
  "fixWindowsPaths (''path: '' @ dquote # (CHR ''C'' # CHR '':'' # backslash # ''logs'') @ dquote # []) =
   ''path: '' @ squote # (CHR ''C'' # CHR '':'' # backslash # ''logs'') @ squote # fixWindowsPaths []"
proof -
  have "dquote \<notin> set (CHR ''C'' # CHR '':'' # backslash # ''logs'')" "squote \<notin> set ''path: ''"
    "dquote \<notin> set ''path: ''" "squote \<notin> set ''x''"
    by (simp_all add: dquote_def squote_def backslash_def)
  from conjunct1 [OF fixWindowsPaths_literal [OF this(2,3,1,4)]] show ?thesis .
qed

text \<open>
  A value that the migration writes with \<open>%q\<close> is not read back the same on the next start:
  the rewriting turns the escaped text into a single-quoted one, in which every backslash of
  the value now stands twice.
\<close>

theorem migrated_backslashes_double:
  assumes "squote \<notin> set v" and "dquote \<notin> set v" and "q v = quote_ascii v"
  shows "fixWindowsPaths (writeStrFieldIndent q ''path'' (Some v) [] cmt ''    '') =
         ''    path: '' @ squote # concat (map (\<lambda>c. if c = backslash then [c, c] else [c]) v) @ squote #
           fixWindowsPaths (''  # '' @ cmt @ nl)"
proof -
  let ?d = "concat (map (\<lambda>c. if c = backslash then [c, c] else [c]) v)"
  have m: "map (\<lambda>c. if c = dquote \<or> c = backslash then [backslash, c] else [c]) v =
      map (\<lambda>c. if c = backslash then [c, c] else [c]) v"
    using assms(2) by (intro map_cong refl) auto
  have q: "q v = dquote # ?d @ [dquote]"
    unfolding assms(3) quote_ascii_def m ..
  have "dquote \<notin> set ?d" using assms(2) by auto
  moreover have "squote \<notin> set ''    path: ''" "dquote \<notin> set ''    path: ''"
    by (simp_all add: squote_def dquote_def)
  ultimately show ?thesis
    using fix_no_quotes [of "''    path: ''" "dquote # ?d @ dquote # ''  # '' @ cmt @ nl"]
      fix_double [of ?d "''  # '' @ cmt @ nl"]
    by (simp add: writeStrFieldIndent_def q)
qed

theorem migrated_backslashes_double_witness:
  "fixWindowsPaths (writeStrFieldIndent quote_ascii ''path'' (Some (CHR ''C'' # CHR '':'' # backslash # ''a'')) []
       ''x'' ''    '') =
   ''    path: '' @ squote # CHR ''C'' # CHR '':'' # backslash # backslash # CHR ''a'' # squote #
     fixWindowsPaths (''  # '' @ ''x'' @ nl)"
proof -
  let ?v = "CHR ''C'' # CHR '':'' # backslash # ''a''"
  have "squote \<notin> set ?v" "dquote \<notin> set ?v" by (simp_all add: squote_def dquote_def backslash_def)
  from migrated_backslashes_double [where q = quote_ascii and cmt = "''x''", OF this refl] show ?thesis
    by (simp add: backslash_def)
qed

section \<open>Migration\<close>

lemma sublist_concat: "b \<in> set bs \<Longrightarrow> sublist x b \<Longrightarrow> sublist x (concat bs)"
proof -
  assume "b \<in> set bs" and "sublist x b"
  then obtain us vs ps ss where "bs = us @ b # vs" "b = ps @ x @ ss"
    by (auto simp: sublist_def dest!: split_list)
  then have "concat bs = (concat us @ ps) @ x @ (ss @ concat vs)" by simp
  then show ?thesis unfolding sublist_def by blast
qed

lemma field_line:
  "sublist (indent @ name @ '': '' @ q (case val of None \<Rightarrow> dflt | Some v \<Rightarrow> v))
     (writeStrFieldIndent q name val dflt cmt indent)"
  unfolding writeStrFieldIndent_def sublist_def
  by (rule exI [of _ "[]"], rule exI [of _ "''  # '' @ cmt @ nl"]) simp

lemma int_line: "sublist (name @ show_int n) (name @ show_int n @ rest)"
  unfolding sublist_def by (rule exI [of _ "[]"], rule exI [of _ rest]) simp

text \<open>
  What a migrated file says: a tcp.family-mismatch that was not there is written as
  "legacy", so an upgrade changes no wire behaviour; an explicit limit survives, zero
  included; and the flat version 1 keys reappear under their nested names.
\<close>

theorem migration_text:
  fixes lib y raw
  defines "text \<equiv> generateMigratedConfig lib y raw" and "q \<equiv> verb_q lib"
  shows "sublist (''  family-mismatch: '' @
           q (case sub (y_TCP y) yt_FamilyMismatch of None \<Rightarrow> ''legacy'' | Some v \<Rightarrow> v)) text \<and>
         sublist (''  max-connections: '' @
           show_int (case sub (y_TCP y) yt_MaxConnections of None \<Rightarrow> 4096 | Some n \<Rightarrow> n)) text \<and>
         sublist (''  max-sessions: '' @
           show_int (case sub (y_UDP y) yu_MaxSessions of Some n \<Rightarrow> n
                     | None \<Rightarrow> (case rawInt raw ''max-sessions'' of Some n \<Rightarrow> n | None \<Rightarrow> 1024))) text \<and>
         sublist (''  detect-timeout: '' @
           q (case sub (y_TCP y) yt_DetectTimeout of Some v \<Rightarrow> v
              | None \<Rightarrow> (case rawStr raw ''detect-timeout'' of Some v \<Rightarrow> v | None \<Rightarrow> ''1s''))) text \<and>
         sublist (''  header-mode: '' @
           q (case sub (y_UDP y) yu_HeaderMode of Some v \<Rightarrow> v
              | None \<Rightarrow> (case rawStr raw ''udp-output'' of Some v \<Rightarrow> v
                         | None \<Rightarrow> (case rawStr raw ''header-mode'' of Some v \<Rightarrow> v
                                    | None \<Rightarrow> ''every_datagram'')))) text"
proof -
  have tcp: "sublist xs (mig_tcp q y raw) \<Longrightarrow> sublist xs text" for xs
    unfolding text_def generateMigratedConfig_def q_def by (rule sublist_concat) simp_all
  have udp: "sublist xs (mig_udp q y raw) \<Longrightarrow> sublist xs text" for xs
    unfolding text_def generateMigratedConfig_def q_def by (rule sublist_concat) simp_all
  have fm: "(case mig_familyMismatch y of None \<Rightarrow> ''reject'' | Some v \<Rightarrow> v) =
      (case sub (y_TCP y) yt_FamilyMismatch of None \<Rightarrow> ''legacy'' | Some v \<Rightarrow> v)"
    by (simp add: mig_familyMismatch_def or_else_def split: option.split)
  have ms: "(case mig_maxSessions y raw of None \<Rightarrow> 1024 | Some n \<Rightarrow> n) =
      (case sub (y_UDP y) yu_MaxSessions of Some n \<Rightarrow> n
       | None \<Rightarrow> (case rawInt raw ''max-sessions'' of Some n \<Rightarrow> n | None \<Rightarrow> 1024))"
    by (simp add: mig_maxSessions_def or_else_def split: option.split)
  have dt: "(case mig_detectTimeout y raw of None \<Rightarrow> ''1s'' | Some v \<Rightarrow> v) =
      (case sub (y_TCP y) yt_DetectTimeout of Some v \<Rightarrow> v
       | None \<Rightarrow> (case rawStr raw ''detect-timeout'' of Some v \<Rightarrow> v | None \<Rightarrow> ''1s''))"
    by (simp add: mig_detectTimeout_def or_else_def split: option.split)
  have hm: "(case mig_headerMode y raw of None \<Rightarrow> ''every_datagram'' | Some v \<Rightarrow> v) =
      (case sub (y_UDP y) yu_HeaderMode of Some v \<Rightarrow> v
       | None \<Rightarrow> (case rawStr raw ''udp-output'' of Some v \<Rightarrow> v
                  | None \<Rightarrow> (case rawStr raw ''header-mode'' of Some v \<Rightarrow> v
                             | None \<Rightarrow> ''every_datagram'')))"
    by (simp add: mig_headerMode_def or_else_def split: option.split)
  have "sublist (''  '' @ ''family-mismatch'' @ '': '' @
      q (case mig_familyMismatch y of None \<Rightarrow> ''reject'' | Some v \<Rightarrow> v)) (mig_tcp q y raw)"
    unfolding mig_tcp_def
    by (rule sublist_concat [OF _ field_line [where cmt = "''mixed address-family action: reject|unknown|legacy''"]]) simp
  moreover have "sublist (''  max-connections: '' @ show_int (mig_maxConnections y)) (mig_tcp q y raw)"
    unfolding mig_tcp_def
    by (rule sublist_concat [OF _ int_line [where rest = "''  # max concurrent connections, 0=unlimited'' @ nl"]]) simp
  moreover have "sublist (''  '' @ ''detect-timeout'' @ '': '' @
      q (case mig_detectTimeout y raw of None \<Rightarrow> ''1s'' | Some v \<Rightarrow> v)) (mig_tcp q y raw)"
    unfolding mig_tcp_def
    by (rule sublist_concat [OF _ field_line [where cmt = "''PROXY header detection timeout (0=block indefinitely)''"]]) simp
  moreover have "sublist (''  max-sessions: '' @
      show_int (case mig_maxSessions y raw of None \<Rightarrow> 1024 | Some n \<Rightarrow> n)) (mig_udp q y raw)"
    unfolding mig_udp_def
    by (rule sublist_concat [OF _ int_line [where rest = "''  # max concurrent UDP sessions, 0=unlimited'' @ nl"]]) simp
  moreover have "sublist (''  '' @ ''header-mode'' @ '': '' @
      q (case mig_headerMode y raw of None \<Rightarrow> ''every_datagram'' | Some v \<Rightarrow> v)) (mig_udp q y raw)"
    unfolding mig_udp_def
    by (rule sublist_concat [OF _ field_line [where cmt = "''every_datagram (default) | first_datagram''"]]) simp
  ultimately show ?thesis
    unfolding fm ms dt hm mig_maxConnections_def using tcp udp by simp
qed

text \<open>
  A flat version 1 timeout that the file gives as a plain number is dropped by the
  migration: only text is taken over, so an unquoted zero, which means no timeout, becomes
  the one-second default.
\<close>

theorem flat_number_timeout_dropped:
  assumes "sub (y_TCP y) yt_DetectTimeout = None" and "raw ''detect-timeout'' = Some (YInt n)"
  shows "sublist (''  detect-timeout: '' @ q ''1s'') (mig_tcp q y raw)"
proof -
  have "mig_detectTimeout y raw = None"
    using assms by (simp add: mig_detectTimeout_def or_else_def rawStr_def)
  then have "sublist (''  '' @ ''detect-timeout'' @ '': '' @ q (case None of None \<Rightarrow> ''1s'' | Some v \<Rightarrow> v))
      (mig_tcp q y raw)"
    unfolding mig_tcp_def
    by (intro sublist_concat [OF _ field_line
          [where cmt = "''PROXY header detection timeout (0=block indefinitely)''"]]) simp
  then show ?thesis by simp
qed

theorem flat_number_timeout_dropped_witness:
  "sublist (''  detect-timeout: '' @ quote_ascii ''1s'')
     (mig_tcp quote_ascii no_yaml [''detect-timeout'' \<mapsto> YInt 0])"
  by (rule flat_number_timeout_dropped) (simp_all add: no_yaml_def sub_def)

section \<open>Files are never lost\<close>

lemma WriteFile_other: "WriteFile os p d = (os', r) \<Longrightarrow> x \<noteq> p \<Longrightarrow> os_files os' x = os_files os x"
  by (auto simp: WriteFile_def split: option.splits prod.splits)

lemma WriteFile_done: "WriteFile os p d = (os', None) \<Longrightarrow> os_files os' p = Some d"
  by (auto simp: WriteFile_def split: option.splits prod.splits)

lemma bak_neq: "path @ ''.bak'' \<noteq> path"
  by simp

lemma migrate_file_safe:
  assumes "migrate_file lib os path data y = (os', r)"
  shows "(\<forall>p. p \<noteq> path \<longrightarrow> p \<noteq> path @ ''.bak'' \<longrightarrow> os_files os' p = os_files os p) \<and>
         (os_files os' path = os_files os path \<or> os_files os' (path @ ''.bak'') = Some data)"
proof (cases "unmarshal_raw lib data")
  case (Inl e)
  with assms show ?thesis by (simp add: migrate_file_def)
next
  case (Inr raw)
  obtain os1 e1 where w1: "WriteFile os (path @ ''.bak'') data = (os1, e1)" by fastforce
  note other1 = WriteFile_other [OF w1]
  show ?thesis
  proof (cases e1)
    case (Some e)
    with assms Inr w1 have "os' = os1" by (simp add: migrate_file_def)
    with other1 show ?thesis by simp
  next
    case None
    obtain os2 e2 where w2: "WriteFile os1 path (generateMigratedConfig lib y raw) = (os2, e2)"
      by fastforce
    have "os' = os2"
      using assms Inr w1 None w2
      by (cases e2) (auto simp: migrate_file_def split: sum.splits)
    moreover have "os_files os1 (path @ ''.bak'') = Some data"
      using WriteFile_done w1 None by simp
    ultimately show ?thesis
      using other1 WriteFile_other [OF w2] by simp
  qed
qed

text \<open>
  C23. Loading a file never loses it: only the file itself and its .bak can change, and in every
  outcome, a failed write included, either the file is as it was or the backup holds its
  text, as rewritten by fixWindowsPaths. A file of the current version is never written.
\<close>

theorem config_file_never_lost:
  assumes "file_Apply lib frac os path optional c = (os', r)" and "ReadFile os path = Inr orig"
  shows "(\<forall>p. p \<noteq> path \<longrightarrow> p \<noteq> path @ ''.bak'' \<longrightarrow> os_files os' p = os_files os p) \<and>
         (os_files os' path = os_files os path \<or>
          os_files os' (path @ ''.bak'') = Some (fixWindowsPaths orig)) \<and>
         (\<forall>y. unmarshal lib (fixWindowsPaths orig) no_yaml = Inr y \<and> y_Version y = Some currentConfigVersion
              \<longrightarrow> os' = os)"
proof (cases "unmarshal lib (fixWindowsPaths orig) no_yaml")
  case (Inl e)
  with assms show ?thesis by (simp add: file_Apply_def)
next
  case (Inr y)
  show ?thesis
  proof (cases "y_Version y")
    case None
    with assms Inr show ?thesis by (simp add: file_Apply_def)
  next
    case (Some v)
    obtain os1 r1 where m: "migrate_file lib os path (fixWindowsPaths orig) y = (os1, r1)" by fastforce
    have "os' = (if v < currentConfigVersion then os1 else os)"
      using assms Inr Some m
      by (cases r1) (auto simp: file_Apply_def Let_def split: if_splits)
    with migrate_file_safe [OF m] Inr Some show ?thesis by auto
  qed
qed

text \<open>A library that reads any text as a version 2 file, and a disk that cannot be written.\<close>

definition old_lib :: yaml_lib where
  "old_lib = \<lparr>unmarshal = (\<lambda>d y. Inr (no_yaml\<lparr>y_Version := Some 2\<rparr>)),
     unmarshal_raw = (\<lambda>d. Inr (\<lambda>_. None)), range_keys = (\<lambda>m. []),
     marshal_entry = (\<lambda>k v. []), verb_q = quote_ascii\<rparr>"

definition full_disk :: os where
  "full_disk = \<lparr>os_files = [''c.yaml'' \<mapsto> ''version: 2''], os_read_err = (\<lambda>_. None),
     os_write_err = (\<lambda>p. if p = ''c.yaml'' then Some (''no space'', None) else None)\<rparr>"

theorem config_file_never_lost_witness:
  "os_files (fst (file_Apply old_lib (\<lambda>f u n. 0) full_disk ''c.yaml'' True zero_config)) ''c.yaml'' =
     os_files full_disk ''c.yaml'' \<or>
   os_files (fst (file_Apply old_lib (\<lambda>f u n. 0) full_disk ''c.yaml'' True zero_config)) (''c.yaml'' @ ''.bak'') =
     Some (fixWindowsPaths ''version: 2'')"
proof -
  have r: "ReadFile full_disk ''c.yaml'' = Inr ''version: 2''"
    by (simp add: ReadFile_def full_disk_def)
  show ?thesis
    by (rule conjunct1 [OF conjunct2 [OF config_file_never_lost [OF prod.collapse [symmetric] r]]])
qed

section \<open>Precedence\<close>

text \<open>The fields the file source reads: those of the file, or of the file it migrated it to.\<close>

definition file_fields :: "yaml_lib \<Rightarrow> os \<Rightarrow> string \<Rightarrow> yamlFields option" where
  "file_fields lib os path =
     (case ReadFile os path of
        Inl e \<Rightarrow> None
      | Inr d \<Rightarrow>
          (case unmarshal lib (fixWindowsPaths d) no_yaml of
             Inl e \<Rightarrow> None
           | Inr y \<Rightarrow>
               if y_Version y = Some currentConfigVersion then Some y
               else (case snd (migrate_file lib os path (fixWindowsPaths d) y) of
                       Inl e \<Rightarrow> None | Inr y2 \<Rightarrow> Some y2)))"

lemma field_err_Inr [simp]: "field_err r = Inr c \<longleftrightarrow> r = Inr c"
  by (cases r) (simp_all add: field_err_def)

lemma value_of_loaded [simp]:
  "value_of f (c\<lparr>cf_loadedFile := p\<rparr>) = value_of f c"
  "value_of f (c\<lparr>cf_Migrated := b\<rparr>) = value_of f c"
  by (cases f; simp)+

lemma file_Apply_cases:
  assumes "file_Apply lib frac os path optional c = (os', Inr c')"
  obtains (absent) "c' = c" "file_fields lib os path = None"
    | (read) y d where "file_fields lib os path = Some y" "file_overlay frac y d = Inr c'"
        "\<forall>f. value_of f d = value_of f c" "cf_prov d = cf_prov c"
proof (cases "ReadFile os path")
  case (Inl e)
  with assms have "c' = c" by (simp add: file_Apply_def split: if_splits)
  then show ?thesis using Inl absent by (simp add: file_fields_def)
next
  case (Inr d0)
  obtain y where y: "unmarshal lib (fixWindowsPaths d0) no_yaml = Inr y"
    using assms Inr by (auto simp: file_Apply_def Let_def split: sum.splits)
  obtain v where v: "y_Version y = Some v" "v \<le> currentConfigVersion"
    using assms Inr y by (auto simp: file_Apply_def Let_def split: option.splits if_splits)
  show ?thesis
  proof (cases "v = currentConfigVersion")
    case True
    with assms Inr y v have "file_overlay frac y (c\<lparr>cf_loadedFile := path\<rparr>) = Inr c'"
      by (simp add: file_Apply_def Let_def)
    moreover have "file_fields lib os path = Some y" using Inr y v True by (simp add: file_fields_def)
    ultimately show ?thesis using read [of y "c\<lparr>cf_loadedFile := path\<rparr>"] by simp
  next
    case False
    obtain os1 r1 where m: "migrate_file lib os path (fixWindowsPaths d0) y = (os1, r1)" by fastforce
    with assms Inr y v False obtain y2 where y2: "r1 = Inr y2"
      and o: "file_overlay frac y2 (c\<lparr>cf_Migrated := True, cf_loadedFile := path\<rparr>) = Inr c'"
      by (cases r1) (auto simp: file_Apply_def Let_def)
    moreover have "file_fields lib os path = Some y2"
      using Inr y v False m y2 by (simp add: file_fields_def)
    ultimately show ?thesis
      using read [of y2 "c\<lparr>cf_Migrated := True, cf_loadedFile := path\<rparr>"] by simp
  qed
qed

interpretation env_flag: config_overlay "env_Apply frac env" "''env''" "provided (env_settings frac env)"
    "flag_Apply fv" "''flag''" "provided (flag_settings1 fv @ flag_settings2 fv)" for frac env fv
  by unfold_locales

text \<open>What the file provides for a field, when one is read.\<close>

definition from_file :: "yaml_lib \<Rightarrow> frac_fn \<Rightarrow> os \<Rightarrow> string \<Rightarrow> field \<Rightarrow> cval option" where
  "from_file lib frac os path f =
     (if path = [] then None
      else Option.bind (file_fields lib os path) (\<lambda>y. provided (file_settings frac y) f))"

lemma file_stage:
  assumes "(if path = [] then (os, Inr c0) else file_Apply lib frac os path optional c0) = (os', Inr c1)"
  shows "value_of f c1 = (case from_file lib frac os path f of Some v \<Rightarrow> v | None \<Rightarrow> value_of f c0) \<and>
         sourceOf c1 (fname f) =
           (if from_file lib frac os path f \<noteq> None then ''file'' else sourceOf c0 (fname f))"
proof (cases "path = []")
  case True
  with assms show ?thesis by (simp add: from_file_def)
next
  case False
  with assms have "file_Apply lib frac os path optional c0 = (os', Inr c1)" by simp
  then show ?thesis
  proof (cases rule: file_Apply_cases)
    case absent
    then show ?thesis by (simp add: from_file_def)
  next
    case (read y d)
    have "sourceOf d (fname f) = sourceOf c0 (fname f)" using read(4) by (simp add: sourceOf_def)
    with read(1,3) False file_src.taken [OF read(2), of f] file_src.untouched [OF read(2), of f]
    show ?thesis by (cases "provided (file_settings frac y) f") (auto simp: from_file_def)
  qed
qed

lemma validated_Inr [simp]:
  "(case Validate d of Inl e \<Rightarrow> Inl (Invalid e) | Inr u \<Rightarrow> Inr d) = Inr c \<longleftrightarrow> d = c \<and> Validate d = Inr ()"
  by (cases "Validate d") auto

text \<open>The value of the highest source that provides a field, and that source's name.\<close>

definition precedence ::
    "yaml_lib \<Rightarrow> frac_fn \<Rightarrow> os \<Rightarrow> (string \<rightharpoonup> string) \<Rightarrow> string \<Rightarrow> flag_values \<Rightarrow> field \<Rightarrow> cval \<times> string" where
  "precedence lib frac os env dp fv f =
     (case provided (flag_settings1 fv @ flag_settings2 fv) f of
        Some v \<Rightarrow> (v, ''flag'')
      | None \<Rightarrow>
          (case provided (env_settings frac env) f of
             Some v \<Rightarrow> (v, ''env'')
           | None \<Rightarrow>
               (case from_file lib frac os (fst (resolveConfigPath fv dp)) f of
                  Some v \<Rightarrow> (v, ''file'')
                | None \<Rightarrow> (def_val f, ''default''))))"

lemma Load_fields:
  assumes "Load lib frac os env dp args = (os', Inr c)"
  obtains fv where "parseFlags frac args = Inr fv" "Validate c = Inr ()"
    "\<And>f. (value_of f c, sourceOf c (fname f)) = precedence lib frac os env dp fv f"
proof -
  obtain fv where fv: "parseFlags frac args = Inr fv"
    using assms by (auto simp: Load_def Let_def split: sum.splits)
  obtain path optional where p: "resolveConfigPath fv dp = (path, optional)" by fastforce
  let ?c0 = "defaults_Apply zero_config"
  obtain os1 c1 where f: "(if path = [] then (os, Inr ?c0) else file_Apply lib frac os path optional ?c0) =
      (os1, Inr c1)"
    using assms fv p
    by (cases "if path = [] then (os, Inr ?c0) else file_Apply lib frac os path optional ?c0";
        cases "snd (if path = [] then (os, Inr ?c0) else file_Apply lib frac os path optional ?c0)")
      (auto simp: Load_def Let_def split: if_splits)
  have "\<exists>c2. env_Apply frac env c1 = Inr c2 \<and> flag_Apply fv c2 = Inr c \<and> Validate c = Inr ()"
    using assms by (auto simp: Load_def Let_def fv p f)
  then have both: "bindE (env_Apply frac env c1) (flag_Apply fv) = Inr c" and v: "Validate c = Inr ()"
    by auto
  have "(value_of g c, sourceOf c (fname g)) = precedence lib frac os env dp fv g" for g
  proof -
    have "sourceOf ?c0 (fname g) = ''default''" by (simp add: sourceOf_def defaults_prov)
    with env_flag.both_field [OF both, of g] file_stage [OF f, of g] p defaults_value [of g]
    show ?thesis
      by (cases "provided (flag_settings1 fv @ flag_settings2 fv) g";
          cases "provided (env_settings frac env) g"; cases "from_file lib frac os path g")
        (simp_all add: precedence_def)
  qed
  with fv v show thesis by (rule that)
qed

text \<open>
  C20. Precedence: in a configuration that loads, every field has the value of the highest
  source that provides it, flags over environment over file over defaults, its recorded
  provenance is that source, and the whole has been validated. A source never disturbs a
  field it does not provide.
\<close>

theorem load_precedence:
  assumes "Load lib frac os env dp args = (os', Inr c)"
  shows "Validate c = Inr () \<and>
    (\<exists>fv. parseFlags frac args = Inr fv \<and>
       (let by_flag = provided (flag_settings1 fv @ flag_settings2 fv) f;
            by_env = provided (env_settings frac env) f;
            by_file = from_file lib frac os (fst (resolveConfigPath fv dp)) f
        in value_of f c =
             (case by_flag of Some v \<Rightarrow> v | None \<Rightarrow>
               (case by_env of Some v \<Rightarrow> v | None \<Rightarrow>
                 (case by_file of Some v \<Rightarrow> v | None \<Rightarrow> def_val f))) \<and>
           sourceOf c (fname f) =
             (if by_flag \<noteq> None then ''flag'' else if by_env \<noteq> None then ''env''
              else if by_file \<noteq> None then ''file'' else ''default'')))"
proof -
  obtain fv where fv: "parseFlags frac args = Inr fv" "Validate c = Inr ()"
    and eq: "\<And>f. (value_of f c, sourceOf c (fname f)) = precedence lib frac os env dp fv f"
    using Load_fields [OF assms] by blast
  show ?thesis
    using fv eq [of f] unfolding precedence_def Let_def
    by (intro conjI exI [of _ fv])
      (auto split: option.splits)
qed

text \<open>A file that had to be there was read, and the configuration says so.\<close>

lemma file_Apply_required:
  assumes "file_Apply lib frac os path False c = (os', Inr c')"
  shows "os_files os path \<noteq> None \<and> cf_loadedFile c' = path"
proof -
  obtain d where d: "ReadFile os path = Inr d"
    using assms by (cases "ReadFile os path") (simp_all add: file_Apply_def)
  then have "os_files os path \<noteq> None" by (auto simp: ReadFile_def split: option.splits)
  moreover have "cf_loadedFile c' = path"
    using assms d
    by (auto simp: file_Apply_def file_overlay_def field_err_def Let_def
        split: sum.splits option.splits if_splits prod.splits dest!: loadedFile_apply_settings)
  ultimately show ?thesis by blast
qed

lemma Load_required:
  assumes "Config_File.Load lib frac os env dp args = (os', Inr c)"
    and "parseFlags frac args = Inr fv" and "fv_str fv ''config'' = Some p" and "p \<noteq> []"
  shows "os_files os p \<noteq> None \<and> cf_loadedFile c = p"
proof -
  have r: "resolveConfigPath fv dp = (p, False)" using assms(3,4) by (simp add: resolveConfigPath_def)
  obtain os1 c1 where f: "file_Apply lib frac os p False (defaults_Apply zero_config) = (os1, Inr c1)"
    and rest: "bindE (env_Apply frac env c1) (flag_Apply fv) = Inr c"
  proof -
    obtain os1 x where fa: "file_Apply lib frac os p False (defaults_Apply zero_config) = (os1, x)"
      by fastforce
    show thesis
    proof (cases x)
      case (Inl e)
      with assms fa r show ?thesis by (simp add: Load_def)
    next
      case (Inr c1)
      with assms fa r have "\<exists>c2. env_Apply frac env c1 = Inr c2 \<and> flag_Apply fv c2 = Inr c"
        by (auto simp: Load_def)
      with that [of os1 c1] fa Inr show ?thesis by auto
    qed
  qed
  from rest have "cf_loadedFile c = cf_loadedFile c1"
    by (auto dest!: loadedFile_env loadedFile_flag)
  with file_Apply_required [OF f] show ?thesis by simp
qed

lemma file_Apply_no_flag_error: "file_Apply lib frac os path opt c \<noteq> (os', Inl (FlagError e))"
  by (auto simp: file_Apply_def migrate_file_def field_err_def Let_def
      split: sum.splits option.splits if_splits prod.splits)

lemma Load_flag_error:
  assumes "Load lib frac os env dp args = (os', Inl (FlagError e))"
  shows "parseFlags frac args = Inl e"
proof (cases "parseFlags frac args")
  case (Inl e')
  with assms show ?thesis by (simp add: Load_def)
next
  case (Inr fv)
  obtain path opt where r: "resolveConfigPath fv dp = (path, opt)" by fastforce
  obtain os1 x where f: "(if path = [] then (os, Inr (defaults_Apply zero_config))
      else file_Apply lib frac os path opt (defaults_Apply zero_config)) = (os1, x)"
    by fastforce
  from assms Inr r f file_Apply_no_flag_error [of lib frac os path opt "defaults_Apply zero_config" os' e]
  show ?thesis
    by (cases x)
      (auto simp: Load_def Let_def bindE_def field_err_def split: if_splits sum.splits)
qed

lemma config_flag_parsed:
  "parseFlags frac [''-config'', p] = Inr (no_flags\<lparr>fv_str := [''config'' \<mapsto> p]\<rparr>)"
  by (simp add: flag_eval)

text \<open>A start with no file, one variable and one flag.\<close>

definition plain_os :: os where
  "plain_os = \<lparr>os_files = (\<lambda>_. None), os_read_err = (\<lambda>_. None), os_write_err = (\<lambda>_. None)\<rparr>"

definition udp_env_vars :: "string \<rightharpoonup> string" where
  "udp_env_vars = [''PROXYDGE_PROTOCOL'' \<mapsto> ''udp'', ''PROXYDGE_LISTEN'' \<mapsto> '':7'']"

lemma plain_flags:
  "parseFlags frac [''-listen'', '':8''] = Inr (no_flags\<lparr>fv_str := [''listen'' \<mapsto> '':8'']\<rparr>)"
  by (simp add: flag_eval)

lemma plain_env:
  "env_Apply frac udp_env_vars c =
     Inr (mark ''protocol'' ''env'' (mark ''listen'' ''env'' c\<lparr>cf_Listen := '':7''\<rparr>)\<lparr>cf_Protocol := ''udp''\<rparr>)"
  by (simp add: env_Apply_def env_settings_def field_eval env_val_def envPrefix_def udp_env_vars_def
      mark_def)

lemma plain_load:
  "\<exists>c. Load old_lib frac plain_os udp_env_vars [] [''-listen'', '':8''] = (plain_os, Inr c)"
proof -
  let ?fv = "no_flags\<lparr>fv_str := [''listen'' \<mapsto> '':8'']\<rparr>"
  have r: "resolveConfigPath ?fv [] = ([], True)"
    by (simp add: resolveConfigPath_def no_flags_def)
  have fl: "flag_Apply ?fv c = Inr (mark ''listen'' ''flag'' c\<lparr>cf_Listen := '':8''\<rparr>)" for c
    by (simp add: flag_eval field_eval mark_def)
  show ?thesis
    by (simp add: Load_def plain_flags r plain_env fl)
      (simp add: Validate_def validLevel_def validFormat_def mark_def defaults_Apply_def
        zero_config_def configFields_def)
qed

theorem load_precedence_witness:
  "\<exists>c. snd (Load old_lib (\<lambda>_ _ _. 0) plain_os udp_env_vars [] [''-listen'', '':8'']) = Inr c \<and>
       value_of FListen c = VStr '':8'' \<and> sourceOf c ''listen'' = ''flag'' \<and> Validate c = Inr ()"
proof -
  obtain c where c: "Load old_lib (\<lambda>_ _ _. 0) plain_os udp_env_vars [] [''-listen'', '':8''] = (plain_os, Inr c)"
    using plain_load by blast
  have f: "provided (flag_settings1 (no_flags\<lparr>fv_str := [''listen'' \<mapsto> '':8'']\<rparr>) @
      flag_settings2 (no_flags\<lparr>fv_str := [''listen'' \<mapsto> '':8'']\<rparr>)) FListen = Some (VStr '':8'')"
    by (simp add: provided_def flag_settings1_def flag_str_def no_flags_def)
  from load_precedence [OF c, of FListen] c show ?thesis
    by (simp add: plain_flags f Let_def)
qed

end
