(* ===== verification/Sample.thy ===== *)
theory Sample
  imports Config_File
begin

text \<open>
  \<open>sampleConfig\<close> and \<open>WriteSample\<close> of \<open>internal/config/config.go\<close>: the file that
  \<open>proxydge init\<close> writes, line by line, and what loading it gives.
\<close>

section \<open>The text\<close>

text \<open>A line is a sequence of quoted values and of text outside quotes.\<close>

datatype piece = Plain string | Quoted string

fun piece_text :: "char \<Rightarrow> piece \<Rightarrow> string" where
  "piece_text q (Plain s) = s"
| "piece_text q (Quoted s) = q # s @ [q]"

definition line_text :: "char \<Rightarrow> piece list \<Rightarrow> string" where
  "line_text q ps = concat (map (piece_text q) ps) @ nl"

definition sample_lines :: "piece list list" where
  "sample_lines = [
     [Plain ''# ProxyDge configuration file.''],
     [Plain ''# Generated by: proxydge -init''],
     [Plain ''#''],
     [Plain ''# Precedence (highest to lowest): CLI flags > env (PROXYDGE_*) > this file > defaults.''],
     [],
     [Plain (''version: 3  # config format version '' @ em_dash @ '' do NOT change; used for auto-migration'')],
     [],
     [Plain (''# '' @ hbar 2 @ '' General '' @ hbar 59)],
     [Plain ''protocol: '', Quoted ''tcp'',
       Plain (''                      # tcp (default) | udp '' @ em_dash @ '' selects gateway mode'')],
     [Plain ''listen: '', Quoted '':9000'', Plain ''                      # listen address (host:port)''],
     [Plain ''upstream: '', Quoted ''127.0.0.1:9001'', Plain ''          # downstream target host:port''],
     [Plain ''policy: '', Quoted ''use'', Plain ''                        # use | require | reject''],
     [Plain ''lang: '', Quoted [],
       Plain ''                             # display language: en|zh-CN|zh-TW (empty=auto)''],
     [],
     [Plain ''# Trust control: only these networks may send PROXY headers.''],
     [Plain ''# Supports CIDR (10.0.0.0/8, 2001:db8::/32) and bare IPs (10.0.0.1, fe80::1).''],
     [Plain (''# Empty (default) trusts everyone '' @ em_dash @ '' configure in production to prevent spoofing.'')],
     [Plain ''trusted-networks:''],
     [Plain ''  # - '', Quoted ''10.0.0.0/8''],
     [Plain ''  # - '', Quoted ''192.168.1.0/24''],
     [Plain ''  # - '', Quoted ''2001:db8::/32''],
     [Plain ''  # - '', Quoted ''10.0.0.1'',
       Plain (''        # bare IP '' @ arrow @ '' /32 (IPv4) or /128 (IPv6)'')],
     [Plain ''untrusted-proxy-action: '', Quoted ''reject'', Plain ''     # reject (default) | strip''],
     [],
     [Plain (''# '' @ hbar 2 @ '' TCP (protocol=tcp) '' @ hbar 47)],
     [Plain ''tcp:''],
     [Plain ''  detect-timeout: '', Quoted ''1s'',
       Plain ''               # PROXY header detection timeout (0=block indefinitely)''],
     [Plain ''  idle-timeout: '', Quoted ''5m'', Plain ''                 # pipe idle timeout, 0=disabled''],
     [Plain ''  header-version: '', Quoted ''v2'',
       Plain ''               # downstream PROXY header version: v1|v2''],
     [Plain ''  family-mismatch: '', Quoted ''reject'',
       Plain ''          # mixed address-family action: reject|unknown|legacy''],
     [Plain ''  max-connections: 4096              # max concurrent connections, 0=unlimited''],
     [],
     [Plain (''# '' @ hbar 2 @ '' UDP (protocol=udp) '' @ hbar 47)],
     [Plain ''# The following fields are only used when protocol=udp.''],
     [Plain ''udp:''],
     [Plain ''  idle-timeout: '', Quoted ''30s'', Plain ''               # UDP session idle timeout''],
     [Plain ''  max-sessions: 1024                # max concurrent UDP sessions, 0=unlimited''],
     [Plain ''  max-datagram-size: 65535          # max datagram size, 0=unlimited, oversized=drop''],
     [Plain ''  header-mode: every_datagram       # every_datagram (default) | first_datagram''],
     [],
     [Plain (''# '' @ hbar 2 @ '' Logging '' @ hbar 58)],
     [Plain ''log:''],
     [Plain ''  console:                          # logs to stderr''],
     [Plain ''    level: '', Quoted ''info'', Plain ''                    # debug | info | warn | error''],
     [Plain ''    format: '', Quoted ''text'', Plain ''                   # text | json''],
     [Plain ''  file:                             # logs to a file (path empty => disabled)''],
     [Plain ''    path: '', Quoted [], Plain ''                         # e.g. /var/log/proxydge.log''],
     [Plain ''    level: '', Quoted ''info''],
     [Plain ''    format: '', Quoted ''text'']]"

definition sampleConfig :: string where
  "sampleConfig = concat (map (line_text dquote) sample_lines)"

text \<open>\<open>WriteSample\<close>: \<open>dir_of\<close> is \<open>filepath.Dir\<close>, \<open>mkdir\<close> the error of \<open>MkdirAll\<close>.\<close>

definition WriteSample ::
    "(string \<Rightarrow> string) \<Rightarrow> (string \<Rightarrow> string option) \<Rightarrow> os \<Rightarrow> string \<Rightarrow> os \<times> string option" where
  "WriteSample dir_of mkdir os path =
     (if path = [] then (os, Some ''config: cannot write sample: empty path'')
      else
        let dir = dir_of path in
        case (if dir \<noteq> [] then mkdir dir else None) of
          Some e \<Rightarrow> (os, Some (''config: mkdir '' @ dir @ '': '' @ e))
        | None \<Rightarrow> WriteFile os path sampleConfig)"

section \<open>Its quotes\<close>

fun quote_free :: "piece \<Rightarrow> bool" where
  "quote_free (Plain s) \<longleftrightarrow> squote \<notin> set s \<and> dquote \<notin> set s"
| "quote_free (Quoted s) \<longleftrightarrow> squote \<notin> set s \<and> dquote \<notin> set s"

lemma fix_pieces:
  "list_all quote_free ps \<Longrightarrow>
   fixWindowsPaths (concat (map (piece_text dquote) ps) @ rest) =
     concat (map (piece_text squote) ps) @ fixWindowsPaths rest"
proof (induction ps)
  case (Cons p ps)
  then show ?case
    by (cases p) (simp_all add: fix_no_quotes fix_double del: fixWindowsPaths.simps)
qed simp

lemma fix_lines:
  "list_all (list_all quote_free) ls \<Longrightarrow>
   fixWindowsPaths (concat (map (line_text dquote) ls)) = concat (map (line_text squote) ls)"
proof (induction ls)
  case (Cons l ls)
  have "squote \<notin> set nl" "dquote \<notin> set nl" by code_simp+
  with Cons show ?case by (simp add: line_text_def fix_pieces fix_no_quotes)
qed simp

lemma special_chars:
  "squote \<notin> set em_dash" "dquote \<notin> set em_dash" "squote \<notin> set arrow" "dquote \<notin> set arrow"
  "squote \<notin> set (hbar 1)" "dquote \<notin> set (hbar 1)"
  by code_simp+

lemma set_hbar: "set (hbar n) \<subseteq> set (hbar 1)"
  by (auto simp: hbar_def)

lemma hbar_quotes: "squote \<notin> set (hbar n)" "dquote \<notin> set (hbar n)"
  using set_hbar special_chars(5,6) by blast+

lemma sample_quote_free: "list_all (list_all quote_free) sample_lines"
  using special_chars(1-4) hbar_quotes by (simp add: sample_lines_def squote_def dquote_def)

text \<open>The rewriting of quotes only exchanges the quotes of the sample.\<close>

lemma sample_fixed: "fixWindowsPaths sampleConfig = concat (map (line_text squote) sample_lines)"
  unfolding sampleConfig_def by (rule fix_lines [OF sample_quote_free])

end
