(* ===== verification/Cli.thy ===== *)
theory Cli
  imports Service I18n Version Sample
begin

text \<open>
  \<open>main.go\<close> and \<open>service_ctrl.go\<close>: the commands. A command is a function from the files and
  the world's answers to the new files, the effects it causes in order, and its exit status.
  Messages stay unrendered: an effect names the locale whose catalog \<open>T\<close> renders the key.
\<close>

section \<open>The outside\<close>

text \<open>
  The configuration a service is registered with: the command line the service manager starts,
  and the options with their values as text.
\<close>

record svc_config =
  sc_Name :: string
  sc_DisplayName :: string
  sc_Description :: string
  sc_Arguments :: "string list"
  sc_Option :: "(string \<times> string) list"

definition newServiceController :: "string \<Rightarrow> svc_config" where
  "newServiceController configPath =
     \<lparr>sc_Name = ''ProxyDge'', sc_DisplayName = ''ProxyDge Gateway'',
      sc_Description = ''PROXY Protocol normalizing gateway for TCP and UDP'',
      sc_Arguments = [''start'', ''-config'', configPath],
      sc_Option = [(''DelayedAutoStart'', ''true''), (''OnFailure'', ''restart''),
                   (''Restart'', ''always''), (''SuccessExitStatus'', ''0'')]\<rparr>"

text \<open>
  The service manager behind \<open>kardianos/service\<close>: its answers to the calls of \<open>service.Service\<close>;
  \<open>ct_new\<close> is the error of \<open>service.New\<close>, if any.
\<close>

datatype svc_error = ErrNotInstalled | SvcError string

datatype svc_status = StatusUnknown | StatusRunning | StatusStopped

record controller =
  ct_new :: "svc_config \<Rightarrow> string option"
  ct_status :: "svc_error + svc_status"
  ct_install :: "svc_error option"
  ct_uninstall :: "svc_error option"
  ct_start :: "svc_error option"
  ct_stop :: "svc_error option"

definition svc_error_text :: "svc_error \<Rightarrow> string" where
  "svc_error_text e =
     (case e of ErrNotInstalled \<Rightarrow> ''the service is not installed'' | SvcError m \<Rightarrow> m)"

text \<open>What ends the wait of \<open>cmdStart\<close>: a signal, then \<open>Serve\<close>'s result; or the result itself.\<close>

datatype wait_event = Signalled "string option" | Ended "string option"

record cli_world = run_world +
  cw_frac :: frac_fn
  cw_fmt :: gop_format
  cw_yaml :: yaml_lib
  cw_vars :: "string \<rightharpoonup> string"
  cw_stat_err :: "string \<Rightarrow> bool"
  cw_exe :: "string option"
  cw_join :: "string \<Rightarrow> string \<Rightarrow> string"
  cw_interactive :: bool
  cw_svc_new :: "string option"
  cw_svc_run :: "string option"
  cw_wait :: wait_event
  cw_ctl :: controller
  cw_build :: build
  cw_info :: "(string \<times> string) list option"
  cw_platform :: "string \<times> string"
  cw_go :: string

datatype ctl_call = CallStatus | CallInstall | CallUninstall | CallStart | CallStop

datatype cli_effect =
    OutHelp Locale
  | OutText string
  | ErrMsg Locale string "cval list"
  | ErrText string
  | ErrUsage string
  | ErrLoad load_error
  | Banner Config
  | Net run_effect
  | RunService Config
  | NewController svc_config
  | Ctl ctl_call

text \<open>\<open>i18n.Load(i18n.DetectLocale(x))\<close>, by the locale whose catalog it is.\<close>

definition catalog :: "cli_world \<Rightarrow> string \<Rightarrow> Locale" where
  "catalog w x = DetectLocale (\<lambda>v. case cw_vars w v of None \<Rightarrow> [] | Some s \<Rightarrow> s) x"

definition str_flag :: "flag_values \<Rightarrow> string \<Rightarrow> string" where
  "str_flag fv name = (case fv_str fv name of None \<Rightarrow> [] | Some s \<Rightarrow> s)"

definition bool_flag :: "flag_values \<Rightarrow> string \<Rightarrow> bool" where
  "bool_flag fv name = (case fv_bool fv name of None \<Rightarrow> False | Some b \<Rightarrow> b)"

definition DefaultConfigPath :: "cli_world \<Rightarrow> string" where
  "DefaultConfigPath w =
     (case cw_exe w of None \<Rightarrow> [] | Some exe \<Rightarrow> cw_join w (lw_dir w exe) ''config.yaml'')"

text \<open>\<open>os.Stat\<close> without an error.\<close>

definition stat_ok :: "cli_world \<Rightarrow> os \<Rightarrow> string \<Rightarrow> bool" where
  "stat_ok w os path \<longleftrightarrow> os_files os path \<noteq> None \<and> \<not> cw_stat_err w path"

section \<open>Commands without a gateway\<close>

definition lang_formal :: "string \<rightharpoonup> flag_kind" where
  "lang_formal = [''lang'' \<mapsto> KString]"

text \<open>The locale of the help text; errors of the flags are ignored, values before them count.\<close>

definition helpText :: "cli_world \<Rightarrow> string list \<Rightarrow> Locale" where
  "helpText w args =
     catalog w (if args \<noteq> [] then str_flag (fst (flag_scan (cw_frac w) lang_formal args no_flags)) ''lang''
                else [])"

definition init_formal :: "string \<rightharpoonup> flag_kind" where
  "init_formal = [''config'' \<mapsto> KString, ''force'' \<mapsto> KBool]"

definition cmdInit :: "cli_world \<Rightarrow> os \<Rightarrow> string list \<Rightarrow> os \<times> cli_effect list \<times> int" where
  "cmdInit w os args =
     (case flag_Parse (cw_frac w) init_formal args no_flags of
        Inl FlagHelp \<Rightarrow> (os, [ErrUsage ''proxydge init''], 0)
      | Inl (FlagErr e) \<Rightarrow> (os, [ErrUsage ''proxydge init''], 2)
      | Inr fv \<Rightarrow>
          let path = (if str_flag fv ''config'' = [] then DefaultConfigPath w else str_flag fv ''config'') in
          if \<not> bool_flag fv ''force'' \<and> stat_ok w os path
          then (os, [ErrMsg (catalog w []) ''error.init_exists'' [VStr path]], 2)
          else
            (case WriteSample (lw_dir w) (lw_mkdir w) os path of
               (os', Some e) \<Rightarrow> (os', [ErrText (''proxydge: init: '' @ e)], 1)
             | (os', None) \<Rightarrow> (os', [ErrMsg (catalog w []) ''error.init_wrote'' [VStr path]], 0)))"

definition cmdVersion :: "cli_world \<Rightarrow> string list \<Rightarrow> cli_effect list \<times> int" where
  "cmdVersion w args =
     (case flag_Parse (cw_frac w) [''short'' \<mapsto> KBool] args no_flags of
        Inl FlagHelp \<Rightarrow> ([ErrUsage ''proxydge version''], 0)
      | Inl (FlagErr e) \<Rightarrow> ([ErrUsage ''proxydge version''], 2)
      | Inr fv \<Rightarrow>
          ([OutText (if bool_flag fv ''short'' then Short (cw_build w)
                     else version_String (cw_build w) (cw_info w) (cw_platform w) (cw_go w))], 0))"

section \<open>Controlling the service\<close>

definition service_action_error :: "Locale \<Rightarrow> string \<Rightarrow> string \<Rightarrow> cli_effect" where
  "service_action_error cat action e = ErrMsg cat ''error.service_action'' [VStr action, VStr e]"

definition serviceInstall :: "cli_world \<Rightarrow> os \<Rightarrow> string list \<Rightarrow> Locale \<Rightarrow> cli_effect list \<times> int" where
  "serviceInstall w os args cat0 =
     (case flag_Parse (cw_frac w) [''config'' \<mapsto> KString, ''lang'' \<mapsto> KString] args no_flags of
        Inl FlagHelp \<Rightarrow> ([ErrUsage ''proxydge service install''], 0)
      | Inl (FlagErr e) \<Rightarrow> ([ErrUsage ''proxydge service install''], 2)
      | Inr fv \<Rightarrow>
          let cat = (if str_flag fv ''lang'' \<noteq> [] then catalog w (str_flag fv ''lang'') else cat0);
              cfgPath = (if str_flag fv ''config'' = [] then DefaultConfigPath w else str_flag fv ''config'')
          in (case lw_abs w cfgPath of
                None \<Rightarrow> ([ErrText ''proxydge: ''], 1)
              | Some absPath \<Rightarrow>
                  if \<not> stat_ok w os absPath
                  then ([ErrMsg cat ''error.config_not_found'' [VStr absPath]], 2)
                  else
                    let new = NewController (newServiceController absPath) in
                    (case ct_new (cw_ctl w) (newServiceController absPath) of
                       Some e \<Rightarrow>
                         ([new, service_action_error cat ''install'' e], 1)
                     | None \<Rightarrow>
                         (if \<exists>st. ct_status (cw_ctl w) = Inr st \<and> st \<noteq> StatusUnknown
                          then ([new, Ctl CallStatus,
                                 ErrMsg cat ''service.already_installed'' []], 0)
                          else
                            (case ct_install (cw_ctl w) of
                               Some e \<Rightarrow>
                                 ([new, Ctl CallStatus, Ctl CallInstall,
                                   service_action_error cat ''install'' (svc_error_text e)], 1)
                             | None \<Rightarrow>
                                 (case ct_start (cw_ctl w) of
                                    Some e \<Rightarrow>
                                      ([new, Ctl CallStatus, Ctl CallInstall,
                                        ErrMsg cat ''service.installed'' [], Ctl CallStart,
                                        service_action_error cat ''start'' (svc_error_text e)], 1)
                                  | None \<Rightarrow>
                                      ([new, Ctl CallStatus, Ctl CallInstall,
                                        ErrMsg cat ''service.installed'' [], Ctl CallStart,
                                        ErrMsg cat ''service.started'' []], 0)))))))"

text \<open>The calls of an action and the error that counts.\<close>

definition control_calls :: "controller \<Rightarrow> string \<Rightarrow> ctl_call list \<times> svc_error option" where
  "control_calls ct action =
     (if action = ''start'' then ([CallStart], ct_start ct)
      else if action = ''stop'' then ([CallStop], ct_stop ct)
      else if action = ''uninstall'' then ([CallStop, CallUninstall], ct_uninstall ct)
      else ([], None))"

definition control_done :: "Locale \<Rightarrow> string \<Rightarrow> cli_effect list" where
  "control_done cat action =
     (if action = ''start'' then [ErrMsg cat ''service.started'' []]
      else if action = ''stop'' then [ErrMsg cat ''service.stopped'' []]
      else if action = ''uninstall'' then [ErrMsg cat ''service.uninstalled'' []]
      else [])"

definition serviceControl ::
    "cli_world \<Rightarrow> string \<Rightarrow> string list \<Rightarrow> Locale \<Rightarrow> cli_effect list \<times> int" where
  "serviceControl w action args cat0 =
     (case flag_Parse (cw_frac w) lang_formal args no_flags of
        Inl FlagHelp \<Rightarrow> ([ErrUsage (''proxydge service '' @ action)], 0)
      | Inl (FlagErr e) \<Rightarrow> ([ErrUsage (''proxydge service '' @ action)], 2)
      | Inr fv \<Rightarrow>
          let cat = (if str_flag fv ''lang'' \<noteq> [] then catalog w (str_flag fv ''lang'') else cat0);
              path = DefaultConfigPath w;
              new = NewController (newServiceController path)
          in (case ct_new (cw_ctl w) (newServiceController path) of
                Some e \<Rightarrow> ([new, service_action_error cat action e], 1)
              | None \<Rightarrow>
                  (case control_calls (cw_ctl w) action of
                     (calls, Some ErrNotInstalled) \<Rightarrow>
                       (new # map Ctl calls @ [ErrMsg cat ''service.not_installed'' []], 2)
                   | (calls, Some (SvcError e)) \<Rightarrow>
                       (new # map Ctl calls @ [service_action_error cat action e], 1)
                   | (calls, None) \<Rightarrow>
                       (new # map Ctl calls @ control_done cat action, 0))))"

definition serviceStatus :: "cli_world \<Rightarrow> string list \<Rightarrow> Locale \<Rightarrow> cli_effect list \<times> int" where
  "serviceStatus w args cat0 =
     (case flag_Parse (cw_frac w) lang_formal args no_flags of
        Inl FlagHelp \<Rightarrow> ([ErrUsage ''proxydge service status''], 0)
      | Inl (FlagErr e) \<Rightarrow> ([ErrUsage ''proxydge service status''], 2)
      | Inr fv \<Rightarrow>
          let cat = (if str_flag fv ''lang'' \<noteq> [] then catalog w (str_flag fv ''lang'') else cat0);
              path = DefaultConfigPath w;
              new = NewController (newServiceController path)
          in (case ct_new (cw_ctl w) (newServiceController path) of
                Some e \<Rightarrow> ([new, service_action_error cat ''status'' e], 1)
              | None \<Rightarrow>
                  (case ct_status (cw_ctl w) of
                     Inl e \<Rightarrow>
                       ([new, Ctl CallStatus,
                         service_action_error cat ''status'' (svc_error_text e)], 1)
                   | Inr st \<Rightarrow>
                       ([new, Ctl CallStatus,
                         ErrMsg cat (case st of
                             StatusRunning \<Rightarrow> ''service.status.running''
                           | StatusStopped \<Rightarrow> ''service.status.stopped''
                           | StatusUnknown \<Rightarrow> ''service.status.unknown'') []], 0))))"

definition cmdService :: "cli_world \<Rightarrow> os \<Rightarrow> string list \<Rightarrow> cli_effect list \<times> int" where
  "cmdService w os args =
     (case args of
        [] \<Rightarrow> ([ErrMsg (catalog w []) ''error.run_help'' []], 2)
      | action # actionArgs \<Rightarrow>
          let cat = catalog w (str_flag (fst (flag_scan (cw_frac w) lang_formal actionArgs no_flags)) ''lang'')
          in if action = ''install'' then serviceInstall w os actionArgs cat
             else if action \<in> {''uninstall'', ''start'', ''stop''} then serviceControl w action actionArgs cat
             else if action = ''status'' then serviceStatus w actionArgs cat
             else ([ErrMsg cat ''error.unknown_command'' [VStr action]], 2))"

section \<open>Starting the gateway\<close>

definition serve_end :: "string option \<Rightarrow> cli_effect list \<times> int" where
  "serve_end r = (case r of Some e \<Rightarrow> ([ErrText (''proxydge: serve: '' @ e)], 1) | None \<Rightarrow> ([], 0))"

text \<open>The interactive path: run, then wait for a signal or for \<open>Serve\<close>.\<close>

definition run_interactive :: "cli_world \<Rightarrow> Config \<Rightarrow> cli_effect list \<times> int" where
  "run_interactive w cfg =
     (case runGateway (run_world.truncate w) (cw_fmt w) cfg of
        (eff, Inl e) \<Rightarrow> (map Net eff @ [ErrText (''proxydge: '' @ e)], 1)
      | (eff, Inr (lg, r, closer)) \<Rightarrow>
          (case cw_wait w of
             Signalled res \<Rightarrow>
               (case serve_end res of (out, code) \<Rightarrow> (map Net (eff @ closer) @ out, code))
           | Ended res \<Rightarrow>
               (case serve_end res of (out, code) \<Rightarrow> (map Net eff @ out, code))))"

text \<open>Under a service manager \<open>svc.Run\<close> drives \<open>Start\<close> and \<open>Stop\<close> of theory Service.\<close>

definition run_service :: "cli_world \<Rightarrow> Config \<Rightarrow> cli_effect list \<times> int" where
  "run_service w cfg =
     (case cw_svc_new w of
        Some e \<Rightarrow> ([ErrText (''proxydge: service: '' @ e)], 1)
      | None \<Rightarrow>
          (case cw_svc_run w of
             Some e \<Rightarrow> ([RunService cfg, ErrText (''proxydge: service run: '' @ e)], 1)
           | None \<Rightarrow> ([RunService cfg], 0)))"

definition start_notices :: "cli_world \<Rightarrow> Config \<Rightarrow> cli_effect list" where
  "start_notices w cfg =
     (let cat = catalog w (cf_Lang cfg) in
      concat (map (\<lambda>key. [ErrMsg cat ''label.warning'' [], ErrMsg cat key []]) (Warnings cfg)) @
      (case MigrationNotice cfg of (key, args) \<Rightarrow>
         if key \<noteq> [] then [ErrMsg cat ''label.notice'' [], ErrMsg cat key args] else []))"

definition cmdStart :: "cli_world \<Rightarrow> os \<Rightarrow> string list \<Rightarrow> os \<times> cli_effect list \<times> int" where
  "cmdStart w os args =
     (case Config_File.Load (cw_yaml w) (cw_frac w) os (cw_vars w) (DefaultConfigPath w) args of
        (os', Inl (FlagError FlagHelp)) \<Rightarrow> (os', [], 0)
      | (os', Inl (Invalid (ConfigError key as))) \<Rightarrow> (os', [ErrMsg (catalog w []) key as], 2)
      | (os', Inl e) \<Rightarrow> (os', [ErrLoad e], 2)
      | (os', Inr cfg) \<Rightarrow>
          (case (if \<not> cw_interactive w then run_service w cfg else run_interactive w cfg) of
             (out, code) \<Rightarrow>
               (os', [ErrText (version_String (cw_build w) (cw_info w) (cw_platform w) (cw_go w)),
                      Banner cfg] @ start_notices w cfg @ out, code)))"

section \<open>The dispatcher\<close>

definition run :: "cli_world \<Rightarrow> os \<Rightarrow> string list \<Rightarrow> os \<times> cli_effect list \<times> int" where
  "run w os args =
     (case args of
        [] \<Rightarrow> (os, [OutHelp (helpText w [])], 0)
      | cmd # rest \<Rightarrow>
          if cmd = ''start'' then cmdStart w os rest
          else if cmd = ''init'' then cmdInit w os rest
          else if cmd = ''version'' then (os, cmdVersion w rest)
          else if cmd = ''service'' then (os, cmdService w os rest)
          else if cmd = ''help'' then (os, [OutHelp (helpText w rest)], 0)
          else (os, [ErrMsg (catalog w []) ''error.unknown_command'' [VStr cmd],
                     ErrMsg (catalog w []) ''error.run_help'' []], 2))"

end
