(* ===== verification/Cli_Contract.thy ===== *)
theory Cli_Contract
  imports Cli
begin

text \<open>
  What the commands of theory Cli promise: which files \<open>init\<close> may write, the order of the
  calls to the service manager, and the contract of \<open>start\<close> about its exit status, its sockets
  and its configuration.
\<close>

section \<open>init and service\<close>

text \<open>\<open>WriteSample\<close> touches one file, and only when its directory could be made.\<close>

lemma WriteSample_files:
  "WriteSample dir_of mk os path = (os', r) \<Longrightarrow> p \<noteq> path \<Longrightarrow> os_files os' p = os_files os p"
  by (auto simp: WriteSample_def WriteFile_def Let_def split: if_splits option.splits)

definition init_path :: "cli_world \<Rightarrow> flag_values \<Rightarrow> string" where
  "init_path w fv =
     (if str_flag fv ''config'' = [] then DefaultConfigPath w else str_flag fv ''config'')"

lemma cmdInit_writes:
  assumes "cmdInit w os args = (os', out, code)"
    and "flag_Parse (cw_frac w) init_formal args no_flags = Inr fv"
    and "bool_flag fv ''force'' \<or> \<not> stat_ok w os (init_path w fv)"
  obtains r where "WriteSample (lw_dir w) (lw_mkdir w) os (init_path w fv) = (os', r)"
    "code = 0 \<longrightarrow> r = None"
  using assms
  by (auto simp: cmdInit_def Let_def init_path_def split: prod.splits option.splits if_splits)

text \<open>
  C39. \<open>init\<close> refuses to overwrite: whatever the arguments, the only file it can change is the
  one it was asked for, and that only under \<open>-force\<close> or when \<open>os.Stat\<close> cannot see it. When it
  reports success without printing its usage, the sample is in place.
\<close>

theorem init_never_overwrites:
  assumes "cmdInit w os args = (os', out, code)"
  shows "(\<forall>p. os_files os p \<noteq> None \<and> os_files os' p \<noteq> os_files os p \<longrightarrow>
      (\<exists>fv. flag_Parse (cw_frac w) init_formal args no_flags = Inr fv \<and> p = init_path w fv \<and>
            (bool_flag fv ''force'' \<or> cw_stat_err w p))) \<and>
    (code = 0 \<and> out \<noteq> [ErrUsage ''proxydge init''] \<longrightarrow>
      (\<exists>p. os_files os' p = Some sampleConfig))"
proof (cases "flag_Parse (cw_frac w) init_formal args no_flags")
  case (Inl e)
  with assms show ?thesis by (cases e) (auto simp: cmdInit_def)
next
  case (Inr fv)
  show ?thesis
  proof (cases "bool_flag fv ''force'' \<or> \<not> stat_ok w os (init_path w fv)")
    case True
    then obtain r where ws: "WriteSample (lw_dir w) (lw_mkdir w) os (init_path w fv) = (os', r)"
      and ok: "code = 0 \<longrightarrow> r = None"
      using cmdInit_writes [OF assms Inr] by blast
    have "code = 0 \<longrightarrow> os_files os' (init_path w fv) = Some sampleConfig"
      using ws ok by (auto simp: WriteSample_def WriteFile_def Let_def split: if_splits option.splits)
    moreover have "p = init_path w fv \<and> (bool_flag fv ''force'' \<or> cw_stat_err w p)"
      if "os_files os p \<noteq> None \<and> os_files os' p \<noteq> os_files os p" for p
      using WriteSample_files [OF ws, of p] True that
      by (cases "p = init_path w fv") (auto simp: stat_ok_def)
    ultimately show ?thesis using Inr by blast
  next
    case False
    with assms Inr show ?thesis by (auto simp: cmdInit_def Let_def init_path_def)
  qed
qed

text \<open>The service manager's calls among the effects.\<close>

definition ctl_calls :: "cli_effect list \<Rightarrow> ctl_call list" where
  "ctl_calls eff = concat (map (\<lambda>e. case e of Ctl c \<Rightarrow> [c] | _ \<Rightarrow> []) eff)"

lemma ctl_calls_simps [simp]:
  "ctl_calls [] = []" "ctl_calls (Ctl c # xs) = c # ctl_calls xs"
  "ctl_calls (ErrMsg l k a # xs) = ctl_calls xs" "ctl_calls (ErrText t # xs) = ctl_calls xs"
  "ctl_calls (ErrUsage t # xs) = ctl_calls xs" "ctl_calls (NewController n # xs) = ctl_calls xs"
  by (simp_all add: ctl_calls_def)

lemma ctl_calls_append [simp]: "ctl_calls (xs @ ys) = ctl_calls xs @ ctl_calls ys"
  by (simp add: ctl_calls_def)

lemma ctl_calls_map [simp]: "ctl_calls (map Ctl cs) = cs"
  by (induction cs) simp_all

lemma ctl_calls_action [simp]:
  "ctl_calls (service_action_error cat a e # xs) = ctl_calls xs" "ctl_calls (control_done cat a) = []"
  by (simp_all add: service_action_error_def control_done_def)

lemma serviceStatus_calls:
  "serviceStatus w args cat = (out, code) \<Longrightarrow> ctl_calls out \<in> {[], [CallStatus]}"
  by (auto simp: serviceStatus_def Let_def split: sum.splits flag_err.splits option.splits)

lemma serviceControl_calls:
  assumes "serviceControl w action args cat = (out, code)"
  shows "ctl_calls out = [] \<or> ctl_calls out = fst (control_calls (cw_ctl w) action)"
    and "code = 0 \<Longrightarrow> ctl_calls out \<noteq> [] \<Longrightarrow> snd (control_calls (cw_ctl w) action) = None"
  using assms
  by (auto simp: serviceControl_def Let_def
      split: sum.splits flag_err.splits option.splits prod.splits svc_error.splits)

lemma serviceInstall_calls:
  assumes "serviceInstall w os args cat = (out, code)"
  defines "ct \<equiv> cw_ctl w"
  obtains "ctl_calls out = []"
  | p cfg where "lw_abs w cfg = Some p" "stat_ok w os p" "NewController (newServiceController p) \<in> set out"
      "ctl_calls out = [CallStatus]"
  | p cfg where "lw_abs w cfg = Some p" "stat_ok w os p" "NewController (newServiceController p) \<in> set out"
      "\<forall>st. ct_status ct = Inr st \<longrightarrow> st = StatusUnknown"
      "ctl_calls out = [CallStatus, CallInstall] \<and> code = 1 \<or>
       ctl_calls out = [CallStatus, CallInstall, CallStart] \<and> ct_install ct = None \<and>
         (code = 0 \<longrightarrow> ct_start ct = None)"
  using assms
  by (auto simp: serviceInstall_def Let_def
      split: sum.splits flag_err.splits option.splits if_splits)

text \<open>
  Service commands act in a safe order: an install happens only for a configuration file
  that exists and a service not known to be installed, and a start only after the install has
  succeeded; an uninstall is always preceded by a stop; status changes nothing. Status 0 is
  returned only when the change asked for succeeded.
\<close>

theorem service_command_order:
  assumes "cmdService w os (action # args) = (out, code)" and "ct = cw_ctl w"
  shows "(ctl_calls out = [] \<or> ctl_calls out = [CallStatus] \<and> action \<in> {''install'', ''status''}) \<or>
     action = ''install'' \<and>
       (\<exists>cfg p. lw_abs w cfg = Some p \<and> stat_ok w os p \<and> NewController (newServiceController p) \<in> set out) \<and>
       (\<forall>st. ct_status ct = Inr st \<longrightarrow> st = StatusUnknown) \<and>
       (ctl_calls out = [CallStatus, CallInstall] \<and> code = 1 \<or>
        ctl_calls out = [CallStatus, CallInstall, CallStart] \<and> ct_install ct = None \<and>
          (code = 0 \<longrightarrow> ct_start ct = None)) \<or>
     action = ''start'' \<and> ctl_calls out = [CallStart] \<and> (code = 0 \<longrightarrow> ct_start ct = None) \<or>
     action = ''stop'' \<and> ctl_calls out = [CallStop] \<and> (code = 0 \<longrightarrow> ct_stop ct = None) \<or>
     action = ''uninstall'' \<and> ctl_calls out = [CallStop, CallUninstall] \<and>
       (code = 0 \<longrightarrow> ct_uninstall ct = None)"
proof -
  consider cat where "action = ''install''" "serviceInstall w os args cat = (out, code)"
    | cat where "action \<in> {''uninstall'', ''start'', ''stop''}" "serviceControl w action args cat = (out, code)"
    | cat where "action = ''status''" "serviceStatus w args cat = (out, code)"
    | "ctl_calls out = []"
    using assms(1) by (auto simp: cmdService_def Let_def split: if_splits)
  then show ?thesis
  proof cases
    case 1
    from 1(2) show ?thesis
    proof (cases rule: serviceInstall_calls)
      case (3 p cfg)
      with 1(1) show ?thesis by (simp add: assms(2)) blast
    qed (simp_all add: 1(1))
  next
    case 2
    have none: "ctl_calls out = [] \<or> ctl_calls out = fst (control_calls ct action) \<and>
        (code = 0 \<longrightarrow> snd (control_calls ct action) = None)"
      using serviceControl_calls [OF 2(2)] assms(2) by blast
    from 2(1) consider "action = ''uninstall''" | "action = ''start''" | "action = ''stop''" by auto
    then show ?thesis
    proof cases
      case 1
      with none show ?thesis by (auto simp: control_calls_def)
    next
      case 2
      with none show ?thesis by (auto simp: control_calls_def)
    next
      case 3
      with none show ?thesis by (auto simp: control_calls_def)
    qed
  next
    case 3
    with serviceStatus_calls [OF 3(2)] show ?thesis by auto
  next
    case 4
    then show ?thesis by simp
  qed
qed

section \<open>start\<close>

text \<open>The sockets and files among the effects.\<close>

definition net_effects :: "cli_effect list \<Rightarrow> run_effect list" where
  "net_effects out = concat (map (\<lambda>e. case e of Net x \<Rightarrow> [x] | _ \<Rightarrow> []) out)"

lemma net_effects_simps [simp]:
  "net_effects [] = []" "net_effects (xs @ ys) = net_effects xs @ net_effects ys"
  "net_effects (Net x # xs) = x # net_effects xs"
  "net_effects (ErrMsg l k a # xs) = net_effects xs" "net_effects (ErrText t # xs) = net_effects xs"
  "net_effects (ErrLoad e # xs) = net_effects xs" "net_effects (Banner c # xs) = net_effects xs"
  "net_effects (RunService c # xs) = net_effects xs"
  by (simp_all add: net_effects_def)

lemma net_effects_map [simp]: "net_effects (map Net xs) = xs"
  by (induction xs) simp_all

lemma net_effects_notices [simp]: "net_effects (start_notices w cfg) = []"
  by (auto simp: net_effects_def start_notices_def Let_def split: prod.splits)

lemma run_service_effects:
  "run_service w cfg = (out, code) \<Longrightarrow> net_effects out = [] \<and> code \<in> {0, 1}"
  by (auto simp: run_service_def split: option.splits)

lemma serve_end_code: "serve_end r = (out, code) \<Longrightarrow> net_effects out = [] \<and> code \<in> {0, 1} \<and> (code = 0 \<longleftrightarrow> r = None)"
  by (auto simp: serve_end_def split: option.splits)

lemma balanced_Nil [simp]: "balanced []"
  by (simp add: balanced_def)

lemma run_interactive_effects:
  assumes "run_interactive w cfg = (out, code)"
  shows "code \<in> {0, 1} \<and>
    (StartServe \<notin> set (net_effects out) \<or> (\<exists>r. cw_wait w = Signalled r) \<longrightarrow>
       balanced (net_effects out)) \<and>
    (code = 0 \<longrightarrow> StartServe \<in> set (net_effects out) \<and> cw_wait w \<in> {Signalled None, Ended None})"
proof -
  obtain eff res where g: "runGateway (run_world.truncate w) (cw_fmt w) cfg = (eff, res)" by fastforce
  note rel = runGateway_releases [of "run_world.truncate w" "cw_fmt w" cfg, unfolded g]
  show ?thesis
  proof (cases res)
    case (Inl e)
    with assms g rel show ?thesis by (auto simp: run_interactive_def)
  next
    case (Inr x)
    obtain lg r closer where x: "x = (lg, r, closer)" by (cases x) auto
    have served: "StartServe \<in> set eff" and bal: "balanced (eff @ closer)"
      using rel count_notin [of StartServe eff] by (auto simp: Inr x)
    show ?thesis
    proof (cases "cw_wait w")
      case (Signalled res)
      obtain o' c' where e: "serve_end res = (o', c')" by fastforce
      with assms g Inr x Signalled have "out = map Net (eff @ closer) @ o'" and "code = c'"
        by (simp_all add: run_interactive_def)
      with serve_end_code [OF e] served bal Signalled show ?thesis by auto
    next
      case (Ended res)
      obtain o' c' where e: "serve_end res = (o', c')" by fastforce
      with assms g Inr x Ended have "out = map Net eff @ o'" and "code = c'"
        by (simp_all add: run_interactive_def)
      with serve_end_code [OF e] served Ended show ?thesis by auto
    qed
  qed
qed

lemma cmdStart_failed:
  assumes "Config_File.Load (cw_yaml w) (cw_frac w) os (cw_vars w) (DefaultConfigPath w) args = (os1, Inl e)"
  shows "\<exists>out. cmdStart w os args = (os1, out, if e = FlagError FlagHelp then 0 else 2) \<and>
    net_effects out = [] \<and> (\<forall>c. RunService c \<notin> set out)"
proof (cases e)
  case (FlagError fe)
  with assms show ?thesis by (cases fe) (auto simp: cmdStart_def)
next
  case (Invalid ce)
  with assms show ?thesis by (cases ce) (auto simp: cmdStart_def)
qed (use assms in \<open>auto simp: cmdStart_def\<close>)

lemma cmdStart_loaded:
  assumes "Config_File.Load (cw_yaml w) (cw_frac w) os (cw_vars w) (DefaultConfigPath w) args = (os1, Inr cfg)"
    and "(if \<not> cw_interactive w then run_service w cfg else run_interactive w cfg) = (rest, code)"
  shows "cmdStart w os args = (os1, [ErrText (version_String (cw_build w) (cw_info w) (cw_platform w) (cw_go w)),
       Banner cfg] @ start_notices w cfg @ rest, code)"
  unfolding cmdStart_def by (simp only: assms prod.case sum.case)



section \<open>Two details of the dispatcher\<close>

text \<open>
  The help text is in the language of \<open>-lang\<close> or of the system, whatever \<open>PROXYDGE_LANG\<close> says;
  and the spelling \<open>-init\<close>, which the sample file's heading uses, is not a command.
\<close>

lemma help_ignores_PROXYDGE_LANG:
  "helpText (w\<lparr>cw_vars := (cw_vars w)(''PROXYDGE_LANG'' \<mapsto> v)\<rparr>) args = helpText w args"
  by (simp add: helpText_def catalog_def DetectLocale_def)

lemma dash_init_unknown: "fst (run w os (''-init'' # rest)) = os \<and> snd (snd (run w os (''-init'' # rest))) = 2"
  by (simp add: run_def)

section \<open>Instances\<close>

definition idle_ctl :: controller where
  "idle_ctl = \<lparr>ct_new = (\<lambda>_. None), ct_status = Inr StatusUnknown, ct_install = None,
     ct_uninstall = None, ct_start = None, ct_stop = Some ErrNotInstalled\<rparr>"

definition shell_world :: cli_world where
  "shell_world = run_world.extend open_world
     \<lparr>cw_frac = (\<lambda>_ _ _. 0), cw_fmt = ref_format, cw_yaml = old_lib, cw_vars = udp_env_vars,
      cw_stat_err = (\<lambda>_. False), cw_exe = None, cw_join = (\<lambda>a b. a @ ''/'' @ b),
      cw_interactive = True, cw_svc_new = None, cw_svc_run = None,
      cw_wait = Signalled None, cw_ctl = idle_ctl, cw_build = local_build, cw_info = None,
      cw_platform = (''linux'', ''amd64''), cw_go = ''go1.25''\<rparr>"

lemma shell_simps [simp]:
  "cw_frac shell_world = (\<lambda>_ _ _. 0)" "cw_yaml shell_world = old_lib"
  "cw_vars shell_world = udp_env_vars" "DefaultConfigPath shell_world = []"
  "cw_wait shell_world = Signalled None" "cw_ctl shell_world = idle_ctl"
  "cw_stat_err shell_world = (\<lambda>_. False)"
  by (simp_all add: shell_world_def run_world.defs DefaultConfigPath_def)


text \<open>\<open>init\<close> on a directory that already has the file.\<close>

theorem init_never_overwrites_witness:
  "\<exists>os' out code. cmdInit shell_world (plain_os\<lparr>os_files := [''c'' \<mapsto> ''old'']\<rparr>) [''-config'', ''c''] =
     (os', out, code) \<and> os_files os' ''c'' = Some ''old''"
proof -
  let ?os = "plain_os\<lparr>os_files := [''c'' \<mapsto> ''old'']\<rparr>"
  let ?fv = "no_flags\<lparr>fv_str := [''config'' \<mapsto> ''c'']\<rparr>"
  obtain os' out code where s: "cmdInit shell_world ?os [''-config'', ''c''] = (os', out, code)"
    by (cases "cmdInit shell_world ?os [''-config'', ''c'']") auto
  have "flag_Parse (\<lambda>_ _ _. 0) init_formal [''-config'', ''c''] no_flags = Inr ?fv"
    by (simp add: flag_eval init_formal_def)
  moreover have "\<not> bool_flag ?fv ''force''" by (simp add: bool_flag_def no_flags_def)
  ultimately have "os_files os' ''c'' = os_files ?os ''c''"
    using spec [OF conjunct1 [OF init_never_overwrites [OF s]], of "''c''"] by simp
  with s show ?thesis by simp
qed


theorem service_command_order_witness:
  "\<exists>out code. cmdService shell_world plain_os [''stop''] = (out, code) \<and>
     ctl_calls out \<in> {[], [CallStop]}"
proof -
  obtain out code where s: "cmdService shell_world plain_os [''stop''] = (out, code)"
    by (cases "cmdService shell_world plain_os [''stop'']") auto
  from service_command_order [OF s refl] s show ?thesis by auto
qed

end
