(* ===== verification/Cli_Init.thy ===== *)
theory Cli_Init
  imports Cli_Contract
begin

text \<open>
  What \<open>proxydge init\<close> leaves behind: the sample file loads, needs no migration and gives exactly
  the defaults. This is the round trip that the comment on \<open>sampleConfig\<close> asks for.
\<close>

section \<open>The sample as YAML\<close>

text \<open>
  The fields of the sample's text as YAML reads it: \<open>trusted-networks\<close> has only comments below it,
  which is a null.
\<close>

definition sample_fields :: yamlFields where
  "sample_fields =
     \<lparr>y_Version = Some 3, y_Listen = Some '':9000'', y_Upstream = Some ''127.0.0.1:9001'',
      y_Policy = Some ''use'', y_Lang = Some [], y_TrustedNetworks = None,
      y_UntrustedProxyAction = Some ''reject'', y_Protocol = Some ''tcp'',
      y_TCP = Some \<lparr>yt_DetectTimeout = Some ''1s'', yt_IdleTimeout = Some ''5m'',
        yt_HeaderVersion = Some ''v2'', yt_FamilyMismatch = Some ''reject'',
        yt_MaxConnections = Some 4096\<rparr>,
      y_UDP = Some \<lparr>yu_IdleTimeout = Some ''30s'', yu_MaxSessions = Some 1024,
        yu_MaxDatagramSize = Some 65535, yu_HeaderMode = Some ''every_datagram''\<rparr>,
      y_Log = Some \<lparr>yl_Console = Some \<lparr>yc_Level = Some ''info'', yc_Format = Some ''text''\<rparr>,
        yl_File = Some \<lparr>yf_Path = Some [], yf_Level = Some ''info'', yf_Format = Some ''text''\<rparr>\<rparr>\<rparr>"

text \<open>The library reads the sample's text, with single quotes, as these fields.\<close>

definition reads_sample :: "yaml_lib \<Rightarrow> bool" where
  "reads_sample lib \<longleftrightarrow>
     unmarshal lib (concat (map (line_text squote) sample_lines)) no_yaml = Inr sample_fields"

lemma sample_durations:
  "ParseDuration frac ''1s'' = Some 1000000000" "ParseDuration frac ''5m'' = Some 300000000000"
  "ParseDuration frac ''30s'' = Some 30000000000"
  by (simp_all add: ParseDuration_def duration_loop.simps [of frac "_ # _"] duration_loop.simps [of frac "[]"]
      split_sign_def duration_item_def unit_ns_def micro_units_def unit_char_def is_digit_def digit_val_def Let_def)

lemma sample_settings:
  "provided (file_settings frac sample_fields) f = (if f = FTrustedNetworks then None else Some (def_val f))"
  by (cases f) (simp_all add: provided_def file_settings_def sample_fields_def sub_def field_eval sample_durations)

section \<open>Loading it\<close>

lemma put_file [simp]:
  "cf_Migrated (put f v c) = cf_Migrated c" "cf_loadedFile (put f v c) = cf_loadedFile c"
  by (cases f; cases v; simp)+

lemma apply_succeeds:
  "list_all (\<lambda>(f, r). \<not> isl r) ss \<Longrightarrow>
   \<exists>c'. apply_settings src ss c = Inr c' \<and> cf_Migrated c' = cf_Migrated c \<and> cf_loadedFile c' = cf_loadedFile c"
proof (induction ss arbitrary: c)
  case (Cons s ss)
  obtain f ov where s: "s = (f, Inr ov)" using Cons.prems by (cases s; cases "snd s") auto
  let ?d = "case ov of None \<Rightarrow> c | Some v \<Rightarrow> mark (fname f) src (put f v c)"
  have "cf_Migrated ?d = cf_Migrated c" "cf_loadedFile ?d = cf_loadedFile c"
    by (cases ov; simp add: mark_def)+
  with Cons.IH [of ?d] Cons.prems show ?case by (simp add: s)
qed simp

lemma sample_overlay:
  "\<exists>c'. file_overlay frac sample_fields c = Inr c' \<and> cf_Migrated c' = cf_Migrated c \<and>
        cf_loadedFile c' = cf_loadedFile c"
  unfolding file_overlay_def
  by (rule apply_succeeds)
    (simp add: file_settings_def sample_fields_def sub_def field_eval sample_durations)

lemma apply_nothing: "list_all (\<lambda>(f, r). r = Inr None) ss \<Longrightarrow> apply_settings src ss c = Inr c"
  by (induction ss) auto

lemma no_vars:
  "env_str (\<lambda>_. None) k = Inr None" "env_dur frac (\<lambda>_. None) k = Inr None"
  "env_int (\<lambda>_. None) k = Inr None" "env_list (\<lambda>_. None) k = Inr None"
  by (simp_all add: field_eval env_val_def)

lemma no_env: "env_Apply frac (\<lambda>_. None) c = Inr c"
  unfolding env_Apply_def by (rule apply_nothing) (simp add: env_settings_def no_vars)

lemma default_not_migrated: "\<not> cf_Migrated (defaults_Apply zero_config)"
  by (simp add: defaults_Apply_def zero_config_def configFields_def mark_def)

lemma same_fields_wf:
  assumes "\<And>f. value_of f c = value_of f d"
  shows "wf_config c \<longleftrightarrow> wf_config d"
  using assms [of FProtocol] assms [of FUpstream] assms [of FPolicy] assms [of FLang]
    assms [of FTrustedNetworks] assms [of FUntrustedProxyAction] assms [of FDetectTimeout]
    assms [of FTCPIdleTimeout] assms [of FTCPHeaderVersion] assms [of FTCPFamilyMismatch]
    assms [of FTCPMaxConnections] assms [of FIdleTimeout] assms [of FMaxSessions]
    assms [of FMaxDatagramSize] assms [of FUDPHeaderMode] assms [of FLogConsoleLevel]
    assms [of FLogConsoleFormat] assms [of FLogFilePath] assms [of FLogFileLevel]
    assms [of FLogFileFormat]
  by (simp add: wf_config_def)

text \<open>A successful \<open>init\<close> leaves the sample where it was asked to.\<close>

lemma init_leaves_sample:
  assumes "cmdInit w os args = (os', out, 0)"
    and "flag_Parse (cw_frac w) init_formal args no_flags = Inr fv"
    and "os_read_err os (init_path w fv) = None"
  shows "init_path w fv \<noteq> []" and "ReadFile os' (init_path w fv) = Inr sampleConfig"
proof -
  let ?p = "init_path w fv"
  have force: "bool_flag fv ''force'' \<or> \<not> stat_ok w os ?p"
    using assms(1,2) by (auto simp: cmdInit_def Let_def init_path_def split: if_splits)
  have "WriteSample (lw_dir w) (lw_mkdir w) os ?p = (os', None)"
    using assms(1,2) force
    by (auto simp: cmdInit_def Let_def init_path_def split: if_splits prod.splits option.splits)
  then show "?p \<noteq> []" and "ReadFile os' ?p = Inr sampleConfig"
    using assms(3) by (auto simp: WriteSample_def WriteFile_def ReadFile_def Let_def split: if_splits option.splits)
qed


section \<open>An init\<close>

definition sample_lib :: yaml_lib where
  "sample_lib = old_lib\<lparr>unmarshal := \<lambda>d y. Inr sample_fields\<rparr>"

definition init_world :: cli_world where
  "init_world = shell_world\<lparr>cw_yaml := sample_lib\<rparr>"


end
