(* ===== verification/Config_Typed.thy ===== *)
theory Config_Typed
  imports Config_File
begin

text \<open>
  The type of a loaded configuration: every field has a value of its kind that fits Go's 64-bit
  integers, whichever source it came from, and the whole satisfies what \<open>Validate\<close> checks. This
  is what lets the other theories compute with unbounded integers.
\<close>

section \<open>The parsers stay within 64 bits\<close>

fun in_width :: "cval \<Rightarrow> bool" where
  "in_width (VInt i) \<longleftrightarrow> in_int64 i"
| "in_width (VDur d) \<longleftrightarrow> in_int64 d"
| "in_width _ \<longleftrightarrow> True"

lemma Atoi_width: "Atoi s = Some i \<Longrightarrow> in_int64 i"
  by (auto simp: Atoi_def Let_def split: prod.splits option.splits if_splits)

lemma ParseInt0_width: "ParseInt0 s = Some i \<Longrightarrow> in_int64 i"
  by (auto simp: ParseInt0_def Let_def split: prod.splits option.splits if_splits)

lemma duration_loop_width: "duration_loop frac s d = Some n \<Longrightarrow> d \<le> 2 ^ 63 \<Longrightarrow> n \<le> 2 ^ 63"
proof (induction frac s d rule: duration_loop.induct)
  case (1 frac s d)
  show ?case
  proof (cases "s = []")
    case True
    with 1(2,3) show ?thesis by (simp add: duration_loop.simps)
  next
    case False
    with 1(2) obtain v rest where item: "duration_item frac s = Some (v, rest)"
      and rest: "\<not> (d + v) mod 2 ^ 64 > 2 ^ 63" "duration_loop frac rest ((d + v) mod 2 ^ 64) = Some n"
      by (auto simp: duration_loop.simps [of frac s d] Let_def simp del: power_numeral
          split: option.splits if_splits)
    from 1(1) [OF False item refl refl rest] rest(1) show ?thesis by simp
  qed
qed

lemma ParseDuration_width: "ParseDuration frac s = Some d \<Longrightarrow> in_int64 d"
proof -
  assume p: "ParseDuration frac s = Some d"
  obtain neg t where t: "split_sign s = (neg, t)" by fastforce
  show ?thesis
  proof (cases "t = ''0'' \<or> t = []")
    case True
    with p t show ?thesis by (auto simp: ParseDuration_def in_int64_def)
  next
    case False
    with p t obtain n where n: "duration_loop frac t 0 = Some n"
      and d: "d = (if neg then - int n else int n)" "\<not> neg \<longrightarrow> n \<le> 2 ^ 63 - 1"
      by (auto simp: ParseDuration_def Let_def simp del: power_numeral split: option.splits if_splits)
    have "n \<le> 2 ^ 63" by (rule duration_loop_width [OF n]) simp
    then have "int n \<le> 2 ^ 63" by simp
    with d show ?thesis by (cases neg) (auto simp: in_int64_def)
  qed
qed

section \<open>Every source stays within 64 bits\<close>

definition flags_width :: "flag_values \<Rightarrow> bool" where
  "flags_width fv \<longleftrightarrow>
     (\<forall>n d. fv_dur fv n = Some d \<longrightarrow> in_int64 d) \<and> (\<forall>n i. fv_int fv n = Some i \<longrightarrow> in_int64 i)"

lemma flag_set_width: "flag_set frac k n v fv = Some fv' \<Longrightarrow> flags_width fv \<Longrightarrow> flags_width fv'"
  by (cases k) (auto simp: flag_set_def flags_width_def ParseDuration_width ParseInt0_width split: if_splits)

lemma flag_scan_width: "flags_width fv \<Longrightarrow> flags_width (fst (flag_scan frac formal args fv))"
proof (induction frac formal args fv rule: flag_scan.induct)
  case (2 frac formal s args fv)
  show ?case
  proof (cases "flag_arg s")
    case (Named nv)
    obtain name val where nv: "split_flag nv = (name, val)" by fastforce
    show ?thesis
    proof (cases "formal name")
      case (Some k)
      note keep = flag_set_width [of frac k name _ fv, OF _ 2(4)]
      show ?thesis
      proof (cases "k = KBool")
        case True
        show ?thesis
          using 2(1) [OF Named nv [symmetric] Some True] 2(4) keep
          by (auto simp: Named nv Some True split: option.split)
      next
        case False
        show ?thesis
          using 2(2) [OF Named nv [symmetric] Some False]
            2(3) [OF Named nv [symmetric] Some False] 2(4) keep
          by (cases val; cases args) (auto simp: Named nv Some False split: option.split)
      qed
    qed (simp add: Named nv 2(4))
  qed (simp_all add: 2(4))
qed simp

lemma parseFlags_width: "parseFlags frac args = Inr fv \<Longrightarrow> flags_width fv"
  using flag_scan_width [of no_flags frac formal_flags args]
  by (auto simp: parseFlags_def flag_Parse_def flags_width_def no_flags_def
      split: prod.splits option.splits)

text \<open>The integers the YAML library decodes: \<open>yaml.v3\<close> reports a value that does not fit.\<close>

definition yaml_width :: "yamlFields \<Rightarrow> bool" where
  "yaml_width y \<longleftrightarrow>
     (\<forall>i. sub (y_TCP y) yt_MaxConnections = Some i \<or> sub (y_UDP y) yu_MaxSessions = Some i \<or>
          sub (y_UDP y) yu_MaxDatagramSize = Some i \<longrightarrow> in_int64 i)"

definition decodes_within :: "yaml_lib \<Rightarrow> bool" where
  "decodes_within lib \<longleftrightarrow>
     (\<forall>text y0 y. unmarshal lib text y0 = Inr y \<longrightarrow> yaml_width y0 \<longrightarrow> yaml_width y)"

definition setting_width :: "setting \<Rightarrow> bool" where
  "setting_width s \<longleftrightarrow> typed (snd s) in_width"

lemma provided_width: "list_all setting_width ss \<Longrightarrow> provided ss f = Some v \<Longrightarrow> in_width v"
  by (induction ss) (auto simp: provided_def setting_width_def typed_def split: option.splits sum.splits if_splits)

lemma typed_width [simp]:
  "typed (env_str env k) in_width" "typed (env_dur frac env k) in_width"
  "typed (env_int env k) in_width" "typed (env_list env k) in_width"
  "typed (file_str s) in_width" "typed (file_dur frac k s) in_width"
  "typed (Inr (map_option VList u)) in_width"
  "flags_width fv \<Longrightarrow> typed (flag_str fv k) in_width"
  "flags_width fv \<Longrightarrow> typed (flag_dur fv k) in_width"
  "flags_width fv \<Longrightarrow> typed (flag_int fv k) in_width"
  "flags_width fv \<Longrightarrow> typed (flag_list fv k) in_width"
  "(\<And>i. o' = Some i \<Longrightarrow> in_int64 i) \<Longrightarrow> typed (file_int o') in_width"
  by (auto simp: typed_def field_eval flags_width_def Atoi_width ParseDuration_width
      split: option.splits)

lemma env_width: "list_all setting_width (env_settings frac env)"
  by (simp add: env_settings_def setting_width_def)

lemma flag_width: "flags_width fv \<Longrightarrow> list_all setting_width (flag_settings1 fv @ flag_settings2 fv)"
  by (simp add: flag_settings1_def flag_settings2_def setting_width_def)

lemma file_width: "yaml_width y \<Longrightarrow> list_all setting_width (file_settings frac y)"
  by (simp add: file_settings_def setting_width_def yaml_width_def)

lemma no_yaml_width: "yaml_width no_yaml"
  by (simp add: yaml_width_def no_yaml_def sub_def)

lemma file_fields_width:
  assumes "decodes_within lib" and "file_fields lib os path = Some y"
  shows "yaml_width y"
proof -
  obtain d y1 where y1: "unmarshal lib (fixWindowsPaths d) no_yaml = Inr y1"
    and y: "y = y1 \<or> snd (migrate_file lib os path (fixWindowsPaths d) y1) = Inr y"
    using assms(2) by (auto simp: file_fields_def split: sum.splits if_splits)
  have w1: "yaml_width y1" using assms(1) y1 no_yaml_width by (auto simp: decodes_within_def)
  have "yaml_width y" if "snd (migrate_file lib os path (fixWindowsPaths d) y1) = Inr y"
  proof -
    from that obtain d2 where "unmarshal lib d2 y1 = Inr y"
      by (auto simp: migrate_file_def split: sum.splits prod.splits option.splits)
    with assms(1) w1 show ?thesis by (auto simp: decodes_within_def)
  qed
  with y w1 show ?thesis by blast
qed

lemma from_file_width: "decodes_within lib \<Longrightarrow> from_file lib frac os path f = Some v \<Longrightarrow> in_width v"
  by (auto simp: from_file_def split: if_splits bind_splits
      intro: provided_width [OF file_width [OF file_fields_width]])

lemma def_val_width: "in_width (def_val f)"
  by (cases f) (simp_all add: in_int64_def)

section \<open>Loaded configurations\<close>

text \<open>
  C35. Every configuration that loads is well typed: it satisfies what \<open>Validate\<close> checks, every
  field has a value of its kind that a 64-bit integer can hold, and a recorded provenance that
  names one of the four sources. The YAML library is only relied on to reject integers that do
  not fit.
\<close>

theorem loaded_config_typed:
  assumes "Load lib frac os env dp args = (os', Inr c)" and "decodes_within lib"
  shows "wf_config c \<and>
         (\<forall>f. has_kind f (value_of f c) \<and> in_width (value_of f c) \<and>
              sourceOf c (fname f) \<in> {''flag'', ''env'', ''file'', ''default''})"
proof -
  obtain fv where fv: "parseFlags frac args = Inr fv" and v: "Validate c = Inr ()"
    and eq: "\<And>f. (value_of f c, sourceOf c (fname f)) = precedence lib frac os env dp fv f"
    using Load_fields [OF assms(1)] by blast
  have "has_kind f (value_of f c)" for f by (cases f) simp_all
  moreover have "in_width (fst (precedence lib frac os env dp fv f))" for f
    using provided_width [OF flag_width [OF parseFlags_width [OF fv]], of f]
      provided_width [OF env_width, of frac env f] from_file_width [OF assms(2), of frac os _ f]
      def_val_width [of f]
    by (auto simp: precedence_def split: option.splits)
  moreover have "snd (precedence lib frac os env dp fv f) \<in> {''flag'', ''env'', ''file'', ''default''}" for f
    by (auto simp: precedence_def split: option.splits)
  ultimately show ?thesis
    using v eq by (metis Validate_iff fst_conv snd_conv)
qed

theorem loaded_config_typed_witness:
  "\<exists>c. snd (Load old_lib (\<lambda>_ _ _. 0) plain_os udp_env_vars [] [''-listen'', '':8'']) = Inr c \<and>
       wf_config c \<and> in_int64 (cf_MaxSessions c)"
proof -
  obtain c where c: "Load old_lib (\<lambda>_ _ _. 0) plain_os udp_env_vars [] [''-listen'', '':8''] = (plain_os, Inr c)"
    using plain_load by blast
  have "decodes_within old_lib"
    using no_yaml_width by (simp add: decodes_within_def old_lib_def yaml_width_def no_yaml_def sub_def)
  from loaded_config_typed [OF c this] have "wf_config c" "in_width (value_of FMaxSessions c)" by blast+
  with c show ?thesis by simp
qed

end
