(* ===== verification/Config_Wiring.thy ===== *)
theory Config_Wiring
  imports Config_File
begin

text \<open>
  Every field can be set from every source by its own name: the environment variable and the
  flag of a field are its registry name in upper case and with dashes, and both read its text
  as a value of the field's kind. This is what has to hold of three separate lists of the code
  (the environment's, the registered flags and the flags applied) for each of the fields.
\<close>

section \<open>Names and kinds\<close>

definition undot :: "char \<Rightarrow> char" where
  "undot c = (if c = CHR ''.'' then CHR ''-'' else c)"

definition env_char :: "char \<Rightarrow> char" where
  "env_char c =
     (if c = CHR ''-'' then CHR ''_''
      else if 97 \<le> (of_char c :: nat) \<and> (of_char c :: nat) \<le> 122 then char_of ((of_char c :: nat) - 32) else c)"

definition flag_name :: "field \<Rightarrow> string" where
  "flag_name f = (if f = FLogFilePath then ''log-file'' else map undot (fname f))"

definition env_name :: "field \<Rightarrow> string" where
  "env_name f = map env_char (flag_name f)"

lemma flag_names:
  "flag_name FProtocol = ''protocol''" "flag_name FListen = ''listen''" "flag_name FUpstream = ''upstream''"
  "flag_name FPolicy = ''policy''" "flag_name FLang = ''lang''" "flag_name FTrustedNetworks = ''trusted-networks''"
  "flag_name FUntrustedProxyAction = ''untrusted-proxy-action''"
  "flag_name FDetectTimeout = ''tcp-detect-timeout''" "flag_name FTCPIdleTimeout = ''tcp-idle-timeout''"
  "flag_name FTCPHeaderVersion = ''tcp-header-version''" "flag_name FTCPFamilyMismatch = ''tcp-family-mismatch''"
  "flag_name FTCPMaxConnections = ''tcp-max-connections''" "flag_name FIdleTimeout = ''udp-idle-timeout''"
  "flag_name FMaxSessions = ''udp-max-sessions''" "flag_name FMaxDatagramSize = ''udp-max-datagram-size''"
  "flag_name FUDPHeaderMode = ''udp-header-mode''" "flag_name FLogConsoleLevel = ''log-console-level''"
  "flag_name FLogConsoleFormat = ''log-console-format''" "flag_name FLogFilePath = ''log-file''"
  "flag_name FLogFileLevel = ''log-file-level''" "flag_name FLogFileFormat = ''log-file-format''"
  by (simp_all add: flag_name_def undot_def)

lemma env_names:
  "env_name FProtocol = ''PROTOCOL''" "env_name FListen = ''LISTEN''" "env_name FUpstream = ''UPSTREAM''"
  "env_name FPolicy = ''POLICY''" "env_name FLang = ''LANG''" "env_name FTrustedNetworks = ''TRUSTED_NETWORKS''"
  "env_name FUntrustedProxyAction = ''UNTRUSTED_PROXY_ACTION''"
  "env_name FDetectTimeout = ''TCP_DETECT_TIMEOUT''" "env_name FTCPIdleTimeout = ''TCP_IDLE_TIMEOUT''"
  "env_name FTCPHeaderVersion = ''TCP_HEADER_VERSION''" "env_name FTCPFamilyMismatch = ''TCP_FAMILY_MISMATCH''"
  "env_name FTCPMaxConnections = ''TCP_MAX_CONNECTIONS''" "env_name FIdleTimeout = ''UDP_IDLE_TIMEOUT''"
  "env_name FMaxSessions = ''UDP_MAX_SESSIONS''" "env_name FMaxDatagramSize = ''UDP_MAX_DATAGRAM_SIZE''"
  "env_name FUDPHeaderMode = ''UDP_HEADER_MODE''" "env_name FLogConsoleLevel = ''LOG_CONSOLE_LEVEL''"
  "env_name FLogConsoleFormat = ''LOG_CONSOLE_FORMAT''" "env_name FLogFilePath = ''LOG_FILE''"
  "env_name FLogFileLevel = ''LOG_FILE_LEVEL''" "env_name FLogFileFormat = ''LOG_FILE_FORMAT''"
  by (simp_all add: env_name_def flag_names env_char_def char_of_eq_iff)

text \<open>A text as a value of the field's kind; the sources differ in the integers they accept.\<close>

definition read_text :: "(string \<Rightarrow> int option) \<Rightarrow> frac_fn \<Rightarrow> field \<Rightarrow> string \<Rightarrow> cval option" where
  "read_text int_of frac f s =
     (case def_val f of
        VStr t \<Rightarrow> Some (VStr s)
      | VDur d \<Rightarrow> map_option VDur (ParseDuration frac s)
      | VInt i \<Rightarrow> map_option VInt (int_of s)
      | VList ts \<Rightarrow> Some (VList (parseCIDRList s)))"

section \<open>The environment\<close>

definition env_setting :: "frac_fn \<Rightarrow> (string \<rightharpoonup> string) \<Rightarrow> field \<Rightarrow> string + cval option" where
  "env_setting frac env f =
     (case env_val env (env_name f) of
        None \<Rightarrow> Inr None
      | Some s \<Rightarrow> (case read_text Atoi frac f s of
                     None \<Rightarrow> Inl (envPrefix @ env_name f @ ''='' @ s) | Some v \<Rightarrow> Inr (Some v)))"

lemma env_kinds:
  "def_val f = VStr t \<Longrightarrow> env_setting frac env f = env_str env (env_name f)"
  "def_val f = VDur d \<Longrightarrow> env_setting frac env f = env_dur frac env (env_name f)"
  "def_val f = VInt i \<Longrightarrow> env_setting frac env f = env_int env (env_name f)"
  "def_val f = VList ts \<Longrightarrow> env_setting frac env f = env_list env (env_name f)"
  by (auto simp: env_setting_def read_text_def field_eval split: option.splits)

lemma env_of_field: "map_of (env_settings frac env) f = Some (env_setting frac env f)"
  by (cases f) (simp_all add: env_settings_def env_kinds env_names)

lemma env_provided:
  "provided (env_settings frac env) f =
     Option.bind (env_val env (env_name f)) (read_text Atoi frac f)"
  by (simp add: provided_def env_of_field env_setting_def split: option.splits)

lemma apply_settings_ok:
  "apply_settings src ss c = Inr c' \<Longrightarrow> (f, r) \<in> set ss \<Longrightarrow> \<exists>ov. r = Inr ov"
  by (induction ss arbitrary: c) auto

lemma env_readable:
  assumes "env_Apply frac env c = Inr c'" and "env_val env (env_name f) = Some s"
  shows "\<exists>v. read_text Atoi frac f s = Some v"
  using apply_settings_ok [OF assms(1) [unfolded env_Apply_def] map_of_SomeD [OF env_of_field [of frac env f]]] assms(2)
  by (auto simp: env_setting_def split: option.splits)

text \<open>The environment of a configuration that loads was read without an error.\<close>

lemma Load_env:
  assumes "Load lib frac os env dp args = (os', Inr c)"
  shows "\<exists>c1 c2. env_Apply frac env c1 = Inr c2"
  using assms by (auto simp: Load_def Let_def split: sum.splits prod.splits if_splits)

section \<open>Flags\<close>

text \<open>The value a field's flag has among the flags parsed.\<close>

definition flag_value :: "flag_values \<Rightarrow> field \<Rightarrow> cval option" where
  "flag_value fv f =
     (case def_val f of
        VStr t \<Rightarrow> map_option VStr (fv_str fv (flag_name f))
      | VDur d \<Rightarrow> map_option VDur (fv_dur fv (flag_name f))
      | VInt i \<Rightarrow> map_option VInt (fv_int fv (flag_name f))
      | VList ts \<Rightarrow> map_option (\<lambda>s. VList (parseCIDRList s)) (fv_str fv (flag_name f)))"

lemma flag_provided: "provided (flag_settings1 fv @ flag_settings2 fv) f = flag_value fv f"
  by (cases f) (simp_all add: provided_def flag_settings1_def flag_settings2_def field_eval
      flag_value_def flag_names)

lemma flag_name_inject [simp]: "flag_name f = flag_name g \<longleftrightarrow> f = g"
  by (cases f; cases g) (simp_all add: flag_names)

fun flag_kind_of :: "cval \<Rightarrow> flag_kind" where
  "flag_kind_of (VStr s) = KString"
| "flag_kind_of (VDur d) = KDuration"
| "flag_kind_of (VInt i) = KInt"
| "flag_kind_of (VList ss) = KString"

lemma formal_flag: "formal_flags (flag_name f) = Some (flag_kind_of (def_val f))"
  by (cases f) (simp_all add: formal_flags_def flag_names)

lemma flag_given:
  "flag_arg (CHR ''-'' # flag_name f) = Named (flag_name f)"
  "split_flag (flag_name f) = (flag_name f, None)"
  by (cases f; simp add: flag_arg_def split_flag_def flag_names)+

lemma flag_set_value:
  "(case flag_set frac (flag_kind_of (def_val f)) (flag_name f) s fv of
      None \<Rightarrow> read_text ParseInt0 frac f s = None
    | Some fv' \<Rightarrow> (\<exists>v. read_text ParseInt0 frac f s = Some v \<and>
                    (\<forall>g. flag_value fv' g = (if g = f then Some v else flag_value fv g)) \<and>
                    (\<forall>n. n \<notin> range flag_name \<longrightarrow> fv_str fv' n = fv_str fv n)))"
  by (cases "def_val f")
    (auto simp: flag_set_def read_text_def flag_value_def split: option.splits cval.splits)

text \<open>A command line that gives some fields, in order.\<close>

definition command_line :: "(field \<times> string) list \<Rightarrow> string list" where
  "command_line fs = concat (map (\<lambda>(f, s). [CHR ''-'' # flag_name f, s]) fs)"

lemma scan_field:
  "flag_scan frac formal_flags ((CHR ''-'' # flag_name f) # s # args) fv =
     (case flag_set frac (flag_kind_of (def_val f)) (flag_name f) s fv of
        None \<Rightarrow> (fv, Some (FlagErr ''invalid value''))
      | Some fv' \<Rightarrow> flag_scan frac formal_flags args fv')"
  by (cases "def_val f") (simp_all add: flag_given formal_flag)

lemma config_no_field: "''config'' \<notin> range flag_name"
proof
  assume "''config'' \<in> range flag_name"
  then obtain f where "flag_name f = ''config''" by auto
  then show False by (cases f) (simp_all add: flag_names)
qed

lemma scan_line:
  assumes "flag_scan frac formal_flags (command_line fs) fv = (fv', None)"
  shows "(case map_of (rev fs) g of
            Some s \<Rightarrow> (\<exists>v. read_text ParseInt0 frac g s = Some v \<and> flag_value fv' g = Some v)
          | None \<Rightarrow> flag_value fv' g = flag_value fv g) \<and>
         fv_str fv' ''config'' = fv_str fv ''config''"
  using assms
proof (induction fs arbitrary: fv)
  case Nil
  then show ?case by (simp add: command_line_def)
next
  case (Cons x fs)
  obtain f s where x: "x = (f, s)" by (cases x)
  have line: "command_line (x # fs) = (CHR ''-'' # flag_name f) # s # command_line fs"
    by (simp add: command_line_def x)
  obtain fv1 where set1: "flag_set frac (flag_kind_of (def_val f)) (flag_name f) s fv = Some fv1"
    and rest: "flag_scan frac formal_flags (command_line fs) fv1 = (fv', None)"
    using Cons.prems unfolding line scan_field
    by (cases "flag_set frac (flag_kind_of (def_val f)) (flag_name f) s fv") auto
  obtain v where v: "read_text ParseInt0 frac f s = Some v"
    and fv1: "\<And>g. flag_value fv1 g = (if g = f then Some v else flag_value fv g)"
      "fv_str fv1 ''config'' = fv_str fv ''config''"
    using flag_set_value [of frac f s fv] config_no_field by (auto simp: set1)
  show ?case
    using Cons.IH [OF rest] v fv1 by (auto simp: x map_add_def split: option.splits)
qed

text \<open>
  C21. Every field can be set under its own name from the command line and from the environment.
  For a configuration loaded with a command line of field flags: a field given there has
  the value its last text reads as, by the field's kind, and provenance \<open>flag\<close>; otherwise a field
  whose environment variable (the registry name in upper case, with underscores) is set has the
  value that text reads as and provenance \<open>env\<close>; otherwise it has the file's or the default value.
\<close>

theorem every_field_settable:
  assumes "Load lib frac os env dp (command_line fs) = (os', Inr c)"
  shows "case map_of (rev fs) f of
           Some s \<Rightarrow> read_text ParseInt0 frac f s = Some (value_of f c) \<and> sourceOf c (fname f) = ''flag''
         | None \<Rightarrow>
             (case env_val env (env_name f) of
                Some s \<Rightarrow> read_text Atoi frac f s = Some (value_of f c) \<and> sourceOf c (fname f) = ''env''
              | None \<Rightarrow>
                  (case from_file lib frac os dp f of
                     Some v \<Rightarrow> value_of f c = v \<and> sourceOf c (fname f) = ''file''
                   | None \<Rightarrow> value_of f c = def_val f \<and> sourceOf c (fname f) = ''default''))"
proof -
  obtain fv where fv: "parseFlags frac (command_line fs) = Inr fv"
    and eq: "(value_of f c, sourceOf c (fname f)) = precedence lib frac os env dp fv f"
    using Load_fields [OF assms] by blast
  obtain c1 c2 where env: "env_Apply frac env c1 = Inr c2" using Load_env [OF assms] by blast
  have "flag_scan frac formal_flags (command_line fs) no_flags = (fv, None)"
    using fv by (auto simp: parseFlags_def flag_Parse_def split: prod.splits option.splits)
  note line = scan_line [OF this, of f]
  have none: "flag_value no_flags f = None" "fv_str no_flags ''config'' = None"
    by (simp_all add: flag_value_def no_flags_def split: cval.splits)
  from line none(2) have path: "fst (resolveConfigPath fv dp) = dp" by (simp add: resolveConfigPath_def)
  show ?thesis
    using eq line none(1) env_readable [OF env, of f]
    by (cases "env_val env (env_name f)")
      (auto simp: precedence_def flag_provided env_provided path split: option.splits)
qed

theorem every_field_settable_witness:
  "\<exists>c. snd (Load old_lib (\<lambda>_ _ _. 0) plain_os udp_env_vars [] (command_line [(FListen, '':8'')])) = Inr c \<and>
       value_of FListen c = VStr '':8'' \<and> sourceOf c ''listen'' = ''flag'' \<and>
       value_of FProtocol c = VStr ''udp'' \<and> sourceOf c ''protocol'' = ''env''"
proof -
  have line: "command_line [(FListen, '':8'')] = [''-listen'', '':8'']"
    by (simp add: command_line_def flag_names)
  obtain c where c: "Load old_lib (\<lambda>_ _ _. 0) plain_os udp_env_vars [] (command_line [(FListen, '':8'')]) =
      (plain_os, Inr c)"
    unfolding line using plain_load by blast
  have "env_val udp_env_vars (env_name FProtocol) = Some ''udp''"
    by (simp add: env_val_def envPrefix_def env_names udp_env_vars_def)
  with every_field_settable [OF c, of FListen] every_field_settable [OF c, of FProtocol] c show ?thesis
    by (simp add: read_text_def)
qed

end
