(* ===== verification/Conformance.thy ===== *)
theory Conformance
  imports Config_File Decide Datagram Version I18n
begin

text \<open>
  The test vectors of the repository's own tests (\<open>*_test.go\<close>), evaluated on the definitions
  of this development: each line is one assertion of a test, with its inputs and its expected
  result. They are evidence that the definitions compute what the code computes, and nothing
  else rests on them.
\<close>

section \<open>gateway/trust_test.go\<close>

text \<open>\<open>NewTrustChecker(cidrs)\<close> succeeds and trusts the address; it succeeds and does not.\<close>

definition trusted_by :: "string list \<Rightarrow> string \<Rightarrow> bool option" where
  "trusted_by cidrs peer =
     (case NewTrustChecker cidrs of
        Inl e \<Rightarrow> None
      | Inr t \<Rightarrow> Some (IsTrusted (Some t) (ParseIP peer)))"

lemmas trust_eval =
  trusted_by_def NewTrustChecker_def parseCIDROrIP_def ParseCIDR_def parse_eval CIDRMask_def
  mask_byte_def upt_rec ip_mask_def ip_bytes_def and_bytes_def v4_in_v6_prefix_def
  replicate_numeral To4_def To16_def IsTrusted_def Contains_def networkNumberAndMask_def bindE_def

lemma test_trust_checker_v4:
  "trusted_by [] ''8.8.8.8'' = Some True"
  "trusted_by [''10.0.0.0/8''] ''10.1.2.3'' = Some True"
  "trusted_by [''10.0.0.0/8''] ''192.168.1.1'' = Some False"
  "trusted_by [''10.0.0.0/8'', ''192.168.0.0/16''] ''10.1.2.3'' = Some True"
  "trusted_by [''10.0.0.0/8'', ''192.168.0.0/16''] ''192.168.1.1'' = Some True"
  "trusted_by [''10.0.0.0/8'', ''192.168.0.0/16''] ''8.8.8.8'' = Some False"
  "trusted_by [''10.0.0.0/8''] ''::ffff:10.0.0.1'' = Some True"
  "trusted_by [''10.0.0.1''] ''10.0.0.1'' = Some True"
  "trusted_by [''10.0.0.1''] ''10.0.0.2'' = Some False"
  by (simp_all add: trust_eval)

lemma test_trust_checker_v6:
  "trusted_by [''2001:db8::/32''] ''2001:db8::1'' = Some True"
  "trusted_by [''2001:db8::/32''] ''2001:db8:abcd:ef12::1'' = Some True"
  "trusted_by [''2001:db8::/32''] ''2001:db9::1'' = Some False"
  "trusted_by [''2001:db8::/32''] ''10.0.0.1'' = Some False"
  "trusted_by [''fe80::/10''] ''fe80::1'' = Some True"
  "trusted_by [''fe80::/10''] ''febf::1'' = Some True"
  "trusted_by [''fe80::/10''] ''fec0::1'' = Some False"
  "trusted_by [''2001:db8::1''] ''2001:db8::1'' = Some True"
  "trusted_by [''2001:db8::1''] ''2001:db8::2'' = Some False"
  by (simp_all add: trust_eval)

lemma test_trust_checker_mixed:
  "trusted_by [''10.0.0.0/8'', ''2001:db8::1'', ''::ffff:192.168.1.0/120''] ''10.1.2.3'' = Some True"
  "trusted_by [''10.0.0.0/8'', ''2001:db8::1'', ''::ffff:192.168.1.0/120''] ''2001:db8::1'' = Some True"
  "trusted_by [''10.0.0.0/8'', ''2001:db8::1'', ''::ffff:192.168.1.0/120''] ''2001:db8::2'' = Some False"
  "trusted_by [''not-a-cidr''] ''10.0.0.1'' = None"
  by (simp_all add: trust_eval)

section \<open>gateway/decide_test.go\<close>

text \<open>The connection of the tests, its local and remote IPv4 addresses in 16 bytes.\<close>

definition test_conn :: AddrConn where
  "test_conn = \<lparr>LocalAddr = TCPAddr (Some (v4_in_v6_prefix @ [192, 0, 2, 1])) 8080 [],
                RemoteAddr = TCPAddr (Some (v4_in_v6_prefix @ [198, 51, 100, 1])) 1234 []\<rparr>"

definition test_header :: Header where
  "test_header = zero_header\<lparr>SrcIP := Some (v4_in_v6_prefix @ [10, 0, 0, 1]), SrcPort := 1234,
                             HFamily := FamilyTCP4\<rparr>"

definition socket_header :: Header where
  "socket_header = \<lparr>SrcIP = Some [198, 51, 100, 1], DstIP = Some [192, 0, 2, 1], SrcPort = 1234,
                    DstPort = 8080, HFamily = FamilyTCP4, TLVs = []\<rparr>"

lemma test_header_from_conn: "HeaderFromConn test_conn = socket_header"
  by (simp add: HeaderFromConn_def test_conn_def socket_header_def buildAddrHeader_def zero_header_def)

text \<open>\<open>everyone\<close> and \<open>ten\<close> are the checkers of no network and of 10.0.0.0/8.\<close>

lemma test_decide:
  assumes everyone: "NewTrustChecker [] = Inr everyone"
    and ten: "NewTrustChecker [''10.0.0.0/8''] = Inr ten"
    and local: "ip = ParseIP ''127.0.0.1''"
  shows "Decide PolicyUse (Some everyone) UntrustedReject SourceDirect zero_header ip test_conn =
           (socket_header, SourceDirect, True, [])"
    "Decide PolicyUse (Some everyone) UntrustedReject SourceV2 test_header ip test_conn =
       (test_header, SourceV2, True, [])"
    "Decide PolicyUse (Some ten) UntrustedReject SourceV2 zero_header ip test_conn =
       (zero_header, SourceV2, False, ''untrusted'')"
    "Decide PolicyUse (Some ten) UntrustedStrip SourceV2 test_header ip test_conn =
       (socket_header, SourceDirect, True, ''strip'')"
    "Decide PolicyReject (Some everyone) UntrustedReject SourceV2 zero_header ip test_conn =
       (zero_header, SourceV2, False, ''policy:forbids'')"
    "Decide PolicyRequire (Some everyone) UntrustedReject SourceDirect zero_header ip test_conn =
       (zero_header, SourceDirect, False, ''policy:requires'')"
    "Decide PolicyReject (Some everyone) UntrustedReject SourceDirect zero_header ip test_conn =
       (socket_header, SourceDirect, True, [])"
    "Decide PolicyRequire (Some everyone) UntrustedReject SourceV2 test_header ip test_conn =
       (test_header, SourceV2, True, [])"
proof -
  have "IsTrusted (Some everyone) ip"
    using everyone by (auto simp: NewTrustChecker_def IsTrusted_def)
  moreover have "trusted_by [''10.0.0.0/8''] ''127.0.0.1'' = Some False"
    by (simp add: trust_eval)
  then have "\<not> IsTrusted (Some ten) ip"
    using ten local by (simp add: trusted_by_def)
  ultimately show
    "Decide PolicyUse (Some everyone) UntrustedReject SourceDirect zero_header ip test_conn =
       (socket_header, SourceDirect, True, [])"
    "Decide PolicyUse (Some everyone) UntrustedReject SourceV2 test_header ip test_conn =
       (test_header, SourceV2, True, [])"
    "Decide PolicyUse (Some ten) UntrustedReject SourceV2 zero_header ip test_conn =
       (zero_header, SourceV2, False, ''untrusted'')"
    "Decide PolicyUse (Some ten) UntrustedStrip SourceV2 test_header ip test_conn =
       (socket_header, SourceDirect, True, ''strip'')"
    "Decide PolicyReject (Some everyone) UntrustedReject SourceV2 zero_header ip test_conn =
       (zero_header, SourceV2, False, ''policy:forbids'')"
    "Decide PolicyRequire (Some everyone) UntrustedReject SourceDirect zero_header ip test_conn =
       (zero_header, SourceDirect, False, ''policy:requires'')"
    "Decide PolicyReject (Some everyone) UntrustedReject SourceDirect zero_header ip test_conn =
       (socket_header, SourceDirect, True, [])"
    "Decide PolicyRequire (Some everyone) UntrustedReject SourceV2 test_header ip test_conn =
       (test_header, SourceV2, True, [])"
    by (simp_all add: decide_defs test_header_from_conn)
qed

section \<open>proxyproto/proxyproto_test.go\<close>

lemmas family_eval = HeaderFromConn_def buildAddrHeader_def zero_header_def FamilyMatchesAddrs_def
  parse_eval replicate_numeral To4_def To16_def v4_in_v6_prefix_def IPv4zero_def

abbreviation v4 :: "byte \<Rightarrow> byte \<Rightarrow> byte \<Rightarrow> byte \<Rightarrow> ip" where
  "v4 a b c d \<equiv> Some (v4_in_v6_prefix @ [a, b, c, d])"

lemma test_header_from_addrs:
  "HeaderFromAddrs (TCPAddr (ParseIP ''2001:db8::2'') 1234 []) (TCPAddr (ParseIP ''2001:db8::1'') 8080 []) =
     \<lparr>SrcIP = ParseIP ''2001:db8::2'', DstIP = ParseIP ''2001:db8::1'', SrcPort = 1234, DstPort = 8080,
      HFamily = FamilyTCP6, TLVs = []\<rparr>"
  "HeaderFromAddrs (UDPAddr (v4 192 0 2 1) 1234 []) (UDPAddr (v4 198 51 100 1) 8080 []) =
     \<lparr>SrcIP = Some [192, 0, 2, 1], DstIP = Some [198, 51, 100, 1], SrcPort = 1234, DstPort = 8080,
      HFamily = FamilyUDP4, TLVs = []\<rparr>"
  "HeaderFromAddrs (UDPAddr (ParseIP ''2001:db8::1'') 1234 []) (UDPAddr (ParseIP ''2001:db8::2'') 8080 []) =
     \<lparr>SrcIP = ParseIP ''2001:db8::1'', DstIP = ParseIP ''2001:db8::2'', SrcPort = 1234, DstPort = 8080,
      HFamily = FamilyUDP6, TLVs = []\<rparr>"
  "HFamily (HeaderFromConn \<lparr>LocalAddr = OtherAddr, RemoteAddr = OtherAddr\<rparr>) = FamilyUnspec"
  "HFamily (HeaderFromAddrs (TCPAddr (v4 192 0 2 1) 1234 []) (UDPAddr (v4 198 51 100 1) 8080 [])) = FamilyUnspec"
  by (simp_all add: family_eval)

lemma test_family_consistent:
  "FamilyMatchesAddrs (zero_header\<lparr>HFamily := FamilyTCP4, SrcIP := v4 192 0 2 1, DstIP := v4 198 51 100 1\<rparr>)"
  "FamilyMatchesAddrs (zero_header\<lparr>HFamily := FamilyTCP6, SrcIP := ParseIP ''2001:db8::1'',
     DstIP := ParseIP ''2001:db8::2''\<rparr>)"
  "FamilyMatchesAddrs (zero_header\<lparr>HFamily := FamilyUnspec\<rparr>)"
  by (simp_all add: family_eval)

lemma test_family_violations:
  "\<not> FamilyMatchesAddrs (zero_header\<lparr>HFamily := FamilyTCP6, SrcIP := ParseIP ''2001:db8::1'',
       DstIP := ParseIP ''::ffff:192.168.1.1''\<rparr>)"
  "\<not> FamilyMatchesAddrs (zero_header\<lparr>HFamily := FamilyTCP6, SrcIP := ParseIP ''::ffff:192.168.1.1'',
       DstIP := ParseIP ''2001:db8::1''\<rparr>)"
  "\<not> FamilyMatchesAddrs (zero_header\<lparr>HFamily := FamilyTCP6, SrcIP := ParseIP ''2001:db8::1''\<rparr>)"
  "\<not> FamilyMatchesAddrs (zero_header\<lparr>HFamily := FamilyTCP6\<rparr>)"
  "\<not> FamilyMatchesAddrs (zero_header\<lparr>HFamily := FamilyTCP4, SrcIP := v4 192 0 2 1\<rparr>)"
  "\<not> FamilyMatchesAddrs (zero_header\<lparr>HFamily := FamilyTCP4, SrcIP := v4 192 0 2 1,
       DstIP := ParseIP ''2001:db8::1''\<rparr>)"
  "\<not> FamilyMatchesAddrs (zero_header\<lparr>HFamily := FamilyTCP4, DstIP := v4 198 51 100 1\<rparr>)"
  by (simp_all add: family_eval)

section \<open>proxyproto/goproxyproto/datagram_test.go\<close>

text \<open>Text as the bytes of the tests' string literals.\<close>

definition bytes_of :: "string \<Rightarrow> bytes" where
  "bytes_of s = map of_char s"

lemma test_fields:
  "be16 0x04 0xd2 = 1234" "be16 0x1f 0x90 = 8080"
  "unat (be16 0x00 0x0c) = 12" "unat (be16 0x00 0x14) = 20" "unat (be16 0x27 0x0F) = 9999"
  by (simp_all add: be16_def)

lemmas datagram_eval = ParseDatagram_def parseV2_def parse_addrs_def parseV4Addrs_def sigV2_def
  sigV1_def bytes_of_def slice_def test_fields Let_def zero_header_def

lemma test_parse_direct:
  "ParseDatagram (bytes_of ''hello world'') = Inr (zero_header, bytes_of ''hello world'', SourceDirect)"
  "ParseDatagram [0x0d, 0x0a, 0x0d, 0x0a, 0x00, 0x0d] =
     Inr (zero_header, [0x0d, 0x0a, 0x0d, 0x0a, 0x00, 0x0d], SourceDirect)"
  by (simp_all add: datagram_eval)

lemma test_parse_errors:
  "ParseDatagram (sigV2 @ [0xFF, 0xFF]) = Inl ErrTooShort"
  "ParseDatagram (sigV2 @ [0x21, 0x12, 0x27, 0x0F] @ replicate 20 0) = Inl ErrLengthExceeds"
  "ParseDatagram (bytes_of ''PROXY TCP4 192.0.2.1 198.51.100.1 1234 8080'' @ [0x0d, 0x0a]) = Inl ErrV1NotSupported"
  "ParseDatagram (sigV2 @ [0x11, 0x12, 0x00, 0x0c] @ replicate 12 0) = Inl (ErrVersion 1)"
  "ParseDatagram (sigV2 @ [0x20, 0x12, 0x00, 0x0c] @ replicate 12 0) = Inl (ErrCommand 0)"
  "ParseDatagram (sigV2 @ [0x21, 0x33, 0x00, 0x0c] @ replicate 12 0) = Inl (ErrFamily 0x33)"
  by (simp_all add: datagram_eval replicate_numeral)

lemma test_parse_tlv_area_skipped:
  "ParseDatagram (sigV2 @ [0x21, 0x12, 0x00, 0x14]
       @ [192, 0, 2, 1, 198, 51, 100, 1, 0x04, 0xd2, 0x1f, 0x90]
       @ [0x01, 0, 0, 0, 0, 0, 0, 0] @ bytes_of ''DATA'') =
     Inr (\<lparr>SrcIP = Some [192, 0, 2, 1], DstIP = Some [198, 51, 100, 1], SrcPort = 1234, DstPort = 8080,
           HFamily = FamilyUDP4, TLVs = []\<rparr>, bytes_of ''DATA'', SourceV2)"
  by (simp add: datagram_eval)

text \<open>
  \<open>TestFormatDatagramIPv6WildcardDestination\<close>: an IPv4 client behind a listener on the IPv6
  wildcard is encoded with the destination 0.0.0.0 and comes back as it was sent.
\<close>

lemma test_wildcard_destination:
  "\<exists>out. FormatDatagram ref_format
      (HeaderFromAddrs (UDPAddr (v4 192 0 2 1) 1234 []) (UDPAddr (ParseIP ''::'') 6060 []))
      (bytes_of ''DIRECT'') = Inr out \<and>
    ParseDatagram out =
      Inr (\<lparr>SrcIP = Some [192, 0, 2, 1], DstIP = Some [0, 0, 0, 0], SrcPort = 1234, DstPort = 6060,
            HFamily = FamilyUDP4, TLVs = []\<rparr>, bytes_of ''DIRECT'', SourceV2)"
proof -
  have "ParseIP ''::'' = Some (replicate 16 0)" by (simp add: parse_eval)
  moreover have "To4 (Some (replicate 16 0)) = None"
    by (simp add: To4_def v4_in_v6_prefix_def replicate_numeral)
  ultimately have "canonical (HeaderFromAddrs (UDPAddr (v4 192 0 2 1) 1234 []) (UDPAddr (ParseIP ''::'') 6060 [])) =
      Some \<lparr>SrcIP = Some [192, 0, 2, 1], DstIP = Some [0, 0, 0, 0], SrcPort = 1234, DstPort = 6060,
            HFamily = FamilyUDP4, TLVs = []\<rparr>"
    by (simp add: canonical_def wire_ip_def buildAddrHeader_def zero_header_def mk_header_def)
  with Format_canonical [OF ref_format_spec] parse_canonical show ?thesis by blast
qed

section \<open>version/version_test.go and i18n/i18n_test.go\<close>

lemma test_version:
  "Short (local_build\<lparr>v_Version := ''v0.1.0-dev.1112''\<rparr>) = ''v0.1.0''"
  "Short local_build = ''dev''" "\<not> IsRelease local_build"
  "IsRelease (local_build\<lparr>v_Version := ''v1.1.2''\<rparr>)"
  "\<not> IsRelease (local_build\<lparr>v_Version := ''v1.1.2-dev.1112''\<rparr>)"
  by (simp_all add: Short_def IsRelease_def local_build_def before.simps has_prefix_def)

lemmas locale_eval = normalizeLocale_def Let_def TrimSpace_visible visible_def char_of_eq_iff
  has_prefix_def LocaleEN_def LocaleZhCN_def LocaleZhTW_def

lemma TrimSpace_empty: "TrimSpace [] = []"
  by (simp add: TrimSpace_def)

lemma test_normalize_en:
  "normalizeLocale ''en'' = LocaleEN" "normalizeLocale ''en-US'' = LocaleEN"
  "normalizeLocale ''en_US'' = LocaleEN" "normalizeLocale ''en-GB'' = LocaleEN"
  "normalizeLocale ''en_US.UTF-8'' = LocaleEN" "normalizeLocale ''fr'' = LocaleEN"
  "normalizeLocale ''ja'' = LocaleEN" "normalizeLocale [] = LocaleEN"
  by (simp_all add: locale_eval TrimSpace_empty)

lemma test_normalize_zh:
  "normalizeLocale ''zh'' = LocaleZhCN" "normalizeLocale ''zh-CN'' = LocaleZhCN"
  "normalizeLocale ''zh_CN'' = LocaleZhCN" "normalizeLocale ''zh-CN.UTF-8'' = LocaleZhCN"
  "normalizeLocale ''zh_CN.UTF-8'' = LocaleZhCN"
  "normalizeLocale ''zh-TW'' = LocaleZhTW" "normalizeLocale ''zh_TW'' = LocaleZhTW"
  "normalizeLocale ''zh-HK'' = LocaleZhTW" "normalizeLocale ''zh-TW.UTF-8'' = LocaleZhTW"
  by (simp_all add: locale_eval)

lemma test_detect:
  "DetectLocale env ''zh-CN'' = LocaleZhCN" "DetectLocale env ''en'' = LocaleEN"
  "DetectLocale (\<lambda>v. if v = ''LANG'' then ''zh_CN.UTF-8'' else []) [] = LocaleZhCN"
  "DetectLocale (\<lambda>v. []) [] = LocaleEN"
  by (simp_all add: DetectLocale_def test_normalize_zh test_normalize_en)

section \<open>config/config_test.go and config/migration_test.go\<close>

definition preset :: Config where
  "preset = defaults_Apply zero_config\<lparr>cf_Upstream := ''1.2.3.4:80''\<rparr>"

lemma find_append: "find P (xs @ ys) = (case find P xs of Some x \<Rightarrow> Some x | None \<Rightarrow> find P ys)"
  by (induction xs) auto

lemma ascii_spaces:
  "map (\<lambda>n. [char_of (n :: nat)]) [9, 10, 11, 12, 13, 32] =
     [[CHR 0x09], [CHR 0x0A], [CHR 0x0B], [CHR 0x0C], [CHR 0x0D], [CHR 0x20]]"
  by (simp add: char_of_eq_iff)

lemma TrimSpace_front:
  assumes "s \<noteq> []" and "visible (hd s)" and "visible (last s)"
  shows "TrimSpace (CHR 0x20 # s) = s"
proof -
  have "find (has_prefix (CHR 0x20 # s)) space_seqs = Some [CHR 0x20]"
    unfolding space_seqs_def find_append ascii_spaces
    by (simp add: has_prefix_def del: append.simps)
  then have "trim_left space_seqs (length (CHR 0x20 # s)) (CHR 0x20 # s) = trim_left space_seqs (length s) s"
    by simp
  with TrimSpace_visible [OF assms] show ?thesis
    by (simp add: TrimSpace_def Let_def del: trim_left.simps)
qed

lemma test_parse_cidr_list:
  "parseCIDRList ''10.0.0.0/8, 192.168.1.0/24'' = [''10.0.0.0/8'', ''192.168.1.0/24'']"
  "parseCIDRList [] = []"
  "parseCIDRList ''10.0.0.0/8,'' = [''10.0.0.0/8'']"
  using TrimSpace_front [of "''192.168.1.0/24''"]
  by (simp_all add: parseCIDRList_def TrimSpace_visible TrimSpace_empty visible_def)

lemma zero_fields:
  "cf_Upstream zero_config = []" "cf_Policy zero_config = []" "cf_UntrustedProxyAction zero_config = []"
  "cf_Protocol zero_config = []" "cf_TrustedNetworks zero_config = []"
  by (simp_all add: zero_config_def)

lemmas validate_eval = preset_def Validate_def validLevel_def validFormat_def ParseCIDR_def parse_eval
  ip_mask_def ip_bytes_def

text \<open>The key of the error a configuration is refused with, if any.\<close>

definition refused :: "Config \<Rightarrow> string option" where
  "refused c = (case Validate c of Inl (ConfigError key args) \<Rightarrow> Some key | Inr u \<Rightarrow> None)"

lemma test_validate_refused:
  "refused (zero_config\<lparr>cf_Listen := '':9000'', cf_Policy := ''use'', cf_DetectTimeout := 1000000000\<rparr>) =
     Some ''error.upstream_required''"
  "refused (zero_config\<lparr>cf_Upstream := ''1.2.3.4:80'', cf_Policy := ''bogus''\<rparr>) =
     Some ''error.invalid_policy''"
  "refused (zero_config\<lparr>cf_Upstream := ''1.2.3.4:80'', cf_Policy := ''use'',
      cf_UntrustedProxyAction := ''bogus''\<rparr>) = Some ''error.invalid_untrusted_proxy_action''"
  "refused (preset\<lparr>cf_TrustedNetworks := [''not-a-cidr'']\<rparr>) =
     Some ''error.invalid_trusted_networks_entry''"
  "refused (preset\<lparr>cf_TCPIdleTimeout := -1\<rparr>) = Some ''error.tcp_idle_timeout_nonneg''"
  "refused (preset\<lparr>cf_TCPHeaderVersion := ''v3''\<rparr>) = Some ''error.invalid_tcp_header_version''"
  "refused (preset\<lparr>cf_TCPFamilyMismatch := ''coerce''\<rparr>) = Some ''error.invalid_family_mismatch''"
  "refused (preset\<lparr>cf_TCPMaxConnections := -1\<rparr>) = Some ''error.max_connections_nonneg''"
  "refused (preset\<lparr>cf_MaxSessions := -1\<rparr>) = Some ''error.max_sessions_nonneg''"
  by (simp_all add: refused_def zero_fields validate_eval)

lemma test_validate_accepted:
  "refused preset = None"
  "refused (preset\<lparr>cf_TrustedNetworks := [''192.168.3.80'', ''10.0.0.1'', ''::1'', ''2001:db8::1'']\<rparr>) = None"
  "refused (preset\<lparr>cf_DetectTimeout := 0\<rparr>) = None"
  "v \<in> {''v1'', ''v2''} \<Longrightarrow> refused (preset\<lparr>cf_TCPHeaderVersion := v\<rparr>) = None"
  "m \<in> {''reject'', ''unknown'', ''legacy''} \<Longrightarrow> refused (preset\<lparr>cf_TCPFamilyMismatch := m\<rparr>) = None"
  "n \<in> {0, 1, 4096} \<Longrightarrow> refused (preset\<lparr>cf_TCPMaxConnections := n\<rparr>) = None"
  "n \<in> {0, 1024} \<Longrightarrow> refused (preset\<lparr>cf_MaxSessions := n\<rparr>) = None"
  by (auto simp: refused_def validate_eval)

lemma test_warnings:
  "length (Warnings (zero_config\<lparr>cf_Policy := ''use'', cf_UntrustedProxyAction := ''reject''\<rparr>)) = 1"
  "length (Warnings (zero_config\<lparr>cf_Policy := ''use'', cf_UntrustedProxyAction := ''strip'',
      cf_TrustedNetworks := [''10.0.0.0/8'']\<rparr>)) = 1"
  "length (Warnings (zero_config\<lparr>cf_Policy := ''use'', cf_UntrustedProxyAction := ''strip''\<rparr>)) = 2"
  "Warnings (preset\<lparr>cf_TrustedNetworks := [''10.0.0.0/8'']\<rparr>) = []"
  "Warnings (preset\<lparr>cf_TrustedNetworks := [''10.0.0.0/8''], cf_TCPFamilyMismatch := ''legacy''\<rparr>) =
     [''warning.family_mismatch.legacy'']"
  "Warnings (preset\<lparr>cf_TrustedNetworks := [''10.0.0.0/8''], cf_TCPFamilyMismatch := ''legacy'',
      cf_Protocol := ''udp''\<rparr>) = []"
  by (simp_all add: Warnings_def preset_def zero_fields)

text \<open>What the migration makes of the flat fields of version 1, and of a version 2 file.\<close>

lemma test_migrated_values:
  assumes "raw = [''detect-timeout'' \<mapsto> YStr ''250ms'', ''idle-timeout'' \<mapsto> YStr ''60s'', ''max-sessions'' \<mapsto> YInt 256,
      ''max-datagram-size'' \<mapsto> YInt 4096, ''udp-output'' \<mapsto> YStr ''first_datagram'']"
  shows "mig_detectTimeout no_yaml raw = Some ''250ms''" "mig_idleTimeout no_yaml raw = Some ''60s''"
    "mig_maxSessions no_yaml raw = Some 256" "mig_maxDatagramSize no_yaml raw = Some 4096"
    "mig_headerMode no_yaml raw = Some ''first_datagram''"
    "mig_familyMismatch no_yaml = Some ''legacy''"
  using assms
  by (simp_all add: mig_detectTimeout_def mig_idleTimeout_def mig_maxSessions_def no_yaml_def sub_def
      mig_maxDatagramSize_def mig_headerMode_def mig_familyMismatch_def or_else_def rawStr_def rawInt_def)

end
