(* ===== verification/Spec2Isabelle.thy ===== *)
theory Spec2Isabelle
  imports Udp_Serve Udp_Shutdown Udp_Expiry Udp_Refine Udp_Replies Tcp_Wire Cli_Init Config_Typed
    Config_Wiring Conformance
begin

text \<open>
  ProxyDge is a PROXY protocol normalizer: it accepts TCP connections or UDP datagrams that may
  carry a PROXY v1 or v2 header, decides from the peer's address and a policy whether to believe
  the header, and forwards everything to one downstream under a header of its own. This
  development models the Go program and proves what each part promises; the theorems marked
  C and a number are the properties, the rest of the lemmas carry them.

  The parts, in the order data flows through them, with the theory that models each:

    \<^item> Configuration (\<open>internal/config/config.go\<close>). Config holds the record \<open>Config\<close> field by
      field, the registry \<open>configFields\<close> (one constructor of \<open>field\<close> per entry), the defaults,
      \<open>Validate\<close> in the order of its checks, \<open>Warnings\<close> and \<open>Describe\<close>. Config_Sources has the
      environment, the flags and the YAML fields, each as a list of settings that
      \<open>apply_settings\<close> overlays; the locale \<open>config_source\<close> states what a source may do to a
      configuration and is interpreted on all three. Config_File has \<open>fixWindowsPaths\<close>, the
      migration text, \<open>file_Apply\<close> with its backup, and \<open>Load\<close>, over a model of the files.
      Config_Typed proves that whatever loads has the kinds, widths and checks of a configuration,
      and Config_Wiring that every field is read from its own flag and its own variable.
    \<^item> Commands (\<open>main.go\<close>, \<open>service_ctrl.go\<close>): Cli has \<open>run\<close> and every command as a function
      to the files, a list of effects and an exit status; Cli_Contract proves what they promise.
      Sample has the file that \<open>init\<close> writes, and Cli_Init the round trip from it to the defaults.
      Service is the interleaving of \<open>Serve\<close>, the monitor goroutine and \<open>Stop\<close> of
      \<open>service_program.go\<close>. I18n and Version are \<open>internal/i18n\<close> and \<open>internal/version\<close>.
    \<^item> Starting a gateway (\<open>gateway_runner.go\<close>, \<open>internal/tcp/tcp.go\<close>): Logging has the two
      sinks and the fan-out handler, Runner the mappings from validated strings to enumerations
      and \<open>runGateway\<close> with every file and listener opened or closed as an effect.
    \<^item> Headers (\<open>internal/proxyproto\<close>, \<open>internal/transport\<close>, \<open>internal/protocol\<close>): Proxy_Proto
      has the header record and its construction from socket addresses; Datagram the byte-level
      parser \<open>ParseDatagram\<close> and \<open>FormatDatagram\<close>; Stream the adapters on TCP streams.
    \<^item> Admission (\<open>internal/gateway/trust.go\<close>, \<open>decide.go\<close>): Trust has \<open>NewTrustChecker\<close> and
      \<open>IsTrusted\<close> over Go's address parsers (Go_ParseIP) and networks (Go_Net); Decide has the
      decision both gateways share, with its contract as the locale \<open>admission\<close>.
    \<^item> TCP (\<open>internal/gateway/gateway.go\<close>, \<open>pipe.go\<close>): Tcp_Gateway has \<open>handle\<close> as the effects
      of one connection and \<open>Serve\<close> as a step relation on the accept loop, the shared counter
      and the handlers; Pipe has the interleavings of the two copying goroutines. Tcp_Wire puts
      handler, header writer and pipe together into the bytes of a whole connection.
    \<^item> UDP (\<open>internal/udp\<close>): Udp_Session and Udp_Manager have the session, its timer and reader,
      and the session table; Udp_Gateway the ten steps of \<open>handleDatagram\<close> and \<open>Serve\<close>;
      Udp_Race the table's operations interleaved at their atomic actions, and Udp_Refine shows
      that the sequential operations are runs of it. Udp_Flow and Udp_Runs prove what single
      datagrams and whole runs write upstream, and Udp_Serve carries that over to \<open>Serve\<close> with
      the errors its reads return. Udp_Shutdown interleaves \<open>Close\<close> with \<open>Serve\<close>, the readers
      and the timers, and Udp_Expiry one session's \<open>handleDatagram\<close> with its \<open>expire\<close>. Udp_Chain
      puts two gateways in a row, and Udp_Replies follows the responses back to the clients.

  Go_Std models what the program uses of \<open>strconv\<close>, \<open>time\<close>, \<open>strings\<close> and \<open>flag\<close>; Prelude holds
  bytes, results of fallible code and the shared collections. Conformance evaluates the
  definitions on the test vectors of the repository's own tests.

  How code becomes definitions. A struct is a record, an enumeration a datatype with the names
  of the source, a returned error the left side of a sum; bytes and ports are 8- and 16-bit
  words. Go's \<open>int\<close> counters and durations are integers: where text is parsed into them the range
  is checked, \<open>loaded_config_typed\<close> shows that every loaded value fits 64 bits, and the one sum
  that can leave them, the size of the UDP receive buffer, wraps as it does in Go. Goroutines on
  shared state are inductive step relations; a single goroutine is a function to the effects it
  causes in order. Steps has what the relations share: runs, reachability, and the locales
  \<open>preserved\<close>, \<open>bounded\<close> and \<open>finishing\<close> for invariants, bounded runs and runs that end, each
  interpreted on the relations of the components.

  What the lemmas show. The codec: acceptance of exactly the v2 frames, errors on v1 and on
  malformed input, and the round trip. Security: on both transports no header presented by an
  untrusted peer reaches the downstream, and none is stored. Resources: the connection cap and
  the session cap under every interleaving, exact counters, closing on every path, no listener
  or log file left open by a failed or signalled start, and shutdowns that end. Timing: an expiry
  costs a session at most the datagram in flight, and a TCP connection carries its header and then
  prefixes of the two streams. Configuration:
  the precedence of the sources with their recorded provenance, from the command line to the
  setting of the running gateway (below), and a migration that never loses the file.

  What is assumed, always as an argument of the definitions and a named hypothesis where a
  theorem needs it: go-proxyproto (\<open>gop_read\<close>, \<open>gop_format\<close> with \<open>gop_v2_spec\<close>, and the writer
  of \<open>stream_WriteTo\<close>), yaml.v3 (\<open>yaml_lib\<close>, \<open>locale_files\<close>, with \<open>decodes_within\<close> and \<open>reads_sample\<close>),
  kardianos/service (\<open>controller\<close>, \<open>cw_svc_run\<close>), the answers of the operating system (\<open>os\<close>,
  \<open>tcp_env\<close>, \<open>tcp_world\<close>, \<open>udp_env\<close>, \<open>run_world\<close>), the
  fraction of \<open>time.ParseDuration\<close>, which Go computes in floating point (\<open>frac_fn\<close>), and the verbs
  \<open>%v\<close> and, beyond printable ASCII, \<open>%q\<close> of \<open>fmt\<close>.

  Bounds and fuel. \<open>TrimSpace\<close> runs \<open>trim_left\<close> with the length of its argument, enough because
  each step drops a character. \<open>fixWindowsPaths\<close> and the duration parser recurse on a shorter rest and
  are total with a proved measure; every other loop is structural recursion, and the steps of Service
  are bounded by a measure. Nothing is a partial function.

  Not modelled. The attributes of log records and the texts of usage and help are
  left out, as they decide nothing; so are the interfaces of \<open>internal/tcp\<close> and \<open>internal/proxyproto\<close>,
  which have no code of their own, and \<open>main\<close>, which only passes the status of \<open>run\<close> to \<open>os.Exit\<close>.
  The buffer of \<open>bufio.Reader\<close> appears as the bytes the pipe reads after the header. A handler that
  panics, and the exhaustion of memory, are outside the model.
\<close>

section \<open>From the sources to the running gateway\<close>


text \<open>
  C4. From the configured networks to the wire: in a gateway started from the command line, a
  peer outside every network of the highest source that names some cannot put words into a
  header. On TCP the header written downstream describes the peer's socket, or no address at
  all; on UDP, in every state of the session table, what is written for the peer goes on its own
  session, under the header of its socket or, once first-datagram mode has sent that, bare.
\<close>

theorem configured_trust_protects:
  assumes "Config_File.Load lib frac os env dp args = (os', Inr cfg)"
    and "runGateway w fmt cfg = (eff, Inr (lg, r, closer))"
    and "parseFlags frac args = Inr fv"
    and "fst (precedence lib frac os env dp fv FTrustedNetworks) = VList ns" and "outside ns p"
  shows "case r of
      RunTCP g v \<Rightarrow>
        (\<forall>cenv h. RemoteIP (env_addrs cenv) = p \<and> WriteHeader h \<in> set (handle g cenv) \<longrightarrow>
           h = HeaderFromConn (env_addrs cenv) \<or>
           h = zero_header \<and> \<not> FamilyMatchesAddrs (HeaderFromConn (env_addrs cenv)))
    | RunUDP g m0 \<Rightarrow>
        (\<forall>denv m data peer k b. mgr_ok m \<and> RemoteIP (peer_addrs g peer) = p \<and>
           UWrite k b \<in> set (snd (handleDatagram g denv m data peer)) \<longrightarrow>
           k = keyFromUDPAddr peer \<and>
           (\<exists>h0 pl x0. ug_reader g data = Inr (h0, pl, x0) \<and>
              (FormatDatagram (ug_format g) (HeaderFromConn (peer_addrs g peer)) pl = Inr b \<or>
               ug_outputMode g = OutputFirstDatagram \<and> b = pl)))"
proof -
  obtain fv' where "parseFlags frac args = Inr fv'" and v: "Validate cfg = Inr ()"
    and eq: "\<And>f. (value_of f cfg, sourceOf cfg (fname f)) = precedence lib frac os env dp fv' f"
    using Load_fields [OF assms(1)] by blast
  then have "value_of FTrustedNetworks cfg = VList ns"
    using assms(3,4) eq [of FTrustedNetworks] by (metis fst_conv sum.inject(2))
  with effective_configured [OF v assms(2)] obtain t where
    "NewTrustChecker ns = Inr t" and t: "running_trust r = Some t"
    by auto
  then have u: "\<not> IsTrusted (running_trust r) p"
    using outside_untrusted assms(5) by simp
  show ?thesis
  proof (cases r)
    case (RunTCP g v)
    with u untrusted_tcp [of g] show ?thesis by auto
  next
    case (RunUDP g m0)
    with u untrusted_udp [of _ g] show ?thesis by fastforce
  qed
qed

text \<open>A start with one flag and nothing else.\<close>

definition require_config :: Config where
  "require_config = mark ''policy'' ''flag'' ((defaults_Apply zero_config)\<lparr>cf_Policy := ''require''\<rparr>)"

lemma require_fields [simp]:
  "cf_Policy require_config = ''require''" "cf_Protocol require_config = ''tcp''"
  "cf_LogFilePath require_config = []" "cf_TrustedNetworks require_config = []"
  "cf_Listen require_config = '':9000''" "cf_Upstream require_config = ''127.0.0.1:9001''"
  by (simp_all add: require_config_def mark_def)

lemma require_flags:
  "parseFlags frac [''-policy'', ''require''] = Inr (no_flags\<lparr>fv_str := [''policy'' \<mapsto> ''require'']\<rparr>)"
  by (simp add: flag_eval)

lemma require_load:
  "Config_File.Load old_lib (\<lambda>_ _ _. 0) plain_os (\<lambda>_. None) [] [''-policy'', ''require''] =
     (plain_os, Inr require_config)"
proof -
  let ?fv = "no_flags\<lparr>fv_str := [''policy'' \<mapsto> ''require'']\<rparr>"
  have r: "resolveConfigPath ?fv [] = ([], True)" by (simp add: resolveConfigPath_def no_flags_def)
  have f: "flag_Apply ?fv (defaults_Apply zero_config) = Inr require_config"
    by (simp add: flag_eval field_eval require_config_def)
  have "Validate require_config = Inr ()"
    by (simp add: require_config_def mark_def Validate_def validLevel_def validFormat_def)
  then show ?thesis by (simp add: Load_def require_flags r f env_Apply_unset field_err_def)
qed

lemma require_run:
  "\<exists>g v. runGateway open_world ref_format require_config =
     ([OpenListener '':9000'', StartServe],
      Inr (ConsoleOnly (new_sink Stderr (cf_LogConsoleLevel require_config)
             (cf_LogConsoleFormat require_config)), RunTCP g v, [CloseListener '':9000'']))"
  by (simp add: runGateway_def buildLogger_def NewTrustChecker_def run_tcp_def tcp_Listen_def
      open_log_def close_log_def Let_def)


text \<open>A start that trusts 10.0.0.0/8 only, and a peer elsewhere that sends a header.\<close>

definition ten_config :: Config where
  "ten_config = mark ''untrusted-proxy-action'' ''flag'' ((mark ''trusted-networks'' ''flag''
     ((defaults_Apply zero_config)\<lparr>cf_TrustedNetworks := [''10.0.0.0/8'']\<rparr>))
     \<lparr>cf_UntrustedProxyAction := ''strip''\<rparr>)"

lemma ten_mask: "CIDRMask 8 32 = [0xff, 0, 0, 0]"
  by (simp add: CIDRMask_def mask_byte_def upt_rec)

lemma ten_cidr: "ParseCIDR ''10.0.0.0/8'' = Some \<lparr>NetIP = Some [10, 0, 0, 0], NetMask = [0xff, 0, 0, 0]\<rparr>"
  by (simp add: ParseCIDR_def parse_eval ten_mask)
    (simp add: ip_mask_def ip_bytes_def and_bytes_def v4_in_v6_prefix_def replicate_numeral)

lemma ten_entry: "parseCIDROrIP ''10.0.0.0/8'' = Some \<lparr>NetIP = Some [10, 0, 0, 0], NetMask = [0xff, 0, 0, 0]\<rparr>"
  by (simp add: parseCIDROrIP_def ten_cidr)

lemma ten_parsed: "parseCIDRList ''10.0.0.0/8'' = [''10.0.0.0/8'']"
  by (simp add: parseCIDRList_def TrimSpace_visible visible_def)

lemma ten_fields [simp]:
  "cf_Protocol ten_config = ''tcp''" "cf_LogFilePath ten_config = []" "cf_Listen ten_config = '':9000''"
  "cf_TrustedNetworks ten_config = [''10.0.0.0/8'']"
  by (simp_all add: ten_config_def mark_def)

abbreviation ten_args :: "string list" where
  "ten_args \<equiv> [''-trusted-networks'', ''10.0.0.0/8'', ''-untrusted-proxy-action'', ''strip'']"

abbreviation ten_flags :: flag_values where
  "ten_flags \<equiv> no_flags\<lparr>fv_str :=
     [''trusted-networks'' \<mapsto> ''10.0.0.0/8'', ''untrusted-proxy-action'' \<mapsto> ''strip'']\<rparr>"

lemma ten_flags: "parseFlags frac ten_args = Inr ten_flags"
  by (simp add: flag_eval)

lemma ten_load:
  "Config_File.Load old_lib (\<lambda>_ _ _. 0) plain_os (\<lambda>_. None) [] ten_args =
     (plain_os, Inr ten_config)"
proof -
  have r: "resolveConfigPath ten_flags [] = ([], True)" by (simp add: resolveConfigPath_def no_flags_def)
  have f: "flag_Apply ten_flags (defaults_Apply zero_config) = Inr ten_config"
    by (simp add: flag_Apply_def flag_settings1_def flag_settings2_def no_flags_def field_eval ten_parsed
        ten_config_def)
  have "Validate ten_config = Inr ()"
    by (simp add: ten_config_def mark_def Validate_def validLevel_def validFormat_def ten_cidr)
  then show ?thesis by (simp add: Load_def ten_flags r f env_Apply_unset field_err_def)
qed

definition ten_gateway :: Gateway where
  "ten_gateway = gateway_New PolicyUse ''127.0.0.1:9001'' 1000000000 300000000000
     (Some net10) UntrustedStrip FamilyMismatchReject 4096"

lemma ten_run:
  "\<exists>eff lg v closer. runGateway open_world ref_format ten_config =
     (eff, Inr (lg, RunTCP ten_gateway v, closer))"
  by (simp add: runGateway_def buildLogger_def NewTrustChecker_def ten_entry run_tcp_def
      tcp_Listen_def open_log_def close_log_def Let_def net10_def ten_gateway_def)
    (simp add: ten_config_def mark_def gatewayPolicy_def untrustedProxyAction_def familyMismatch_def)

lemma ten_writes: "\<exists>h. WriteHeader h \<in> set (handle ten_gateway spoof_env)"
  using peer_conn_header peer_conn_untrusted
  by (auto simp: handle_defs ten_gateway_def gateway_New_def spoof_env_def direct_env_def decide_defs)

theorem configured_trust_protects_witness:
  "\<exists>h. WriteHeader h \<in> set (handle ten_gateway spoof_env) \<and>
       (h = HeaderFromConn peer_conn \<or>
        h = zero_header \<and> \<not> FamilyMatchesAddrs (HeaderFromConn peer_conn))"
proof -
  obtain h where h: "WriteHeader h \<in> set (handle ten_gateway spoof_env)" using ten_writes by blast
  obtain eff lg v closer where run: "runGateway open_world ref_format ten_config =
      (eff, Inr (lg, RunTCP ten_gateway v, closer))"
    using ten_run by blast
  have ns: "fst (precedence old_lib (\<lambda>_ _ _. 0) plain_os (\<lambda>_. None) [] ten_flags FTrustedNetworks) =
      VList [''10.0.0.0/8'']"
    by (simp add: precedence_def provided_def flag_settings1_def flag_settings2_def field_eval ten_parsed
        no_flags_def)
  have "outside [''10.0.0.0/8''] (RemoteIP peer_conn)"
    using peer_conn_untrusted by (auto simp: outside_def ten_entry IsTrusted_def net10_def)
  from configured_trust_protects [OF ten_load run ten_flags ns this]
  have all: "RemoteIP (env_addrs cenv) = RemoteIP peer_conn \<and> WriteHeader h \<in> set (handle ten_gateway cenv) \<longrightarrow>
      h = HeaderFromConn (env_addrs cenv) \<or>
      h = zero_header \<and> \<not> FamilyMatchesAddrs (HeaderFromConn (env_addrs cenv))" for cenv h
    by simp
  have "env_addrs spoof_env = peer_conn" by (simp add: spoof_env_def direct_env_def)
  with all [of spoof_env h] h show ?thesis by auto
qed

end
